theory Spec2Isabelle
  imports Complex_Main "HOL-Library.Product_Lexorder"
begin

section \<open>Data frames, missing values and Python errors\<close>

text \<open>
  A pandas column is a list of cells; a missing cell (NaN, NaT) is \<open>None\<close>.
  A data frame is the list of its named columns, in column order; all columns of one
  frame have the same length (the number of rows).
\<close>

type_synonym 'a column = "'a option list"

type_synonym 'a frame = "(string \<times> 'a column) list"

datatype error =
    KeyError string
  | ZeroDivisionError
  | ValueError string
  | RuntimeError string

text \<open>
  A floating-point result of the regression library: adjusted R-squared may be NaN or infinite
  when the residual degrees of freedom vanish.
\<close>

datatype fval = NaN | NegInf | Fin real | PosInf

text \<open>IEEE comparison \<open>a > b\<close>: false as soon as one side is NaN.\<close>

fun fgt :: "fval \<Rightarrow> fval \<Rightarrow> bool" where
  "fgt NaN _ = False"
| "fgt _ NaN = False"
| "fgt NegInf _ = False"
| "fgt (Fin a) NegInf = True"
| "fgt (Fin a) (Fin b) = (b < a)"
| "fgt (Fin a) PosInf = False"
| "fgt PosInf PosInf = False"
| "fgt PosInf _ = True"

definition has_column :: "'a frame \<Rightarrow> string \<Rightarrow> bool" where
  "has_column df c = (c \<in> set (map fst df))"

definition notna :: "'a option \<Rightarrow> bool" where
  "notna v = (v \<noteq> None)"

definition notna_sum :: "'a column \<Rightarrow> int" where
  "notna_sum col = int (length (filter notna col))"

text \<open>\<open>df[names]\<close>: the named columns in the order asked for; a missing name raises.\<close>

fun select_columns :: "(string \<times> 'b) list \<Rightarrow> string list \<Rightarrow> error + 'b list" where
  "select_columns df [] = Inr []"
| "select_columns df (c # cs) =
     (case map_of df c of
        None \<Rightarrow> Inl (KeyError c)
      | Some col \<Rightarrow>
          (case select_columns df cs of
             Inl e \<Rightarrow> Inl e
           | Inr cols \<Rightarrow> Inr (col # cols)))"

text \<open>
  \<open>.dropna()\<close> keeps the rows in which every column is present. The row mask is
  the conjunction, over the columns, of the not-missing masks.
\<close>

definition and_mask :: "bool list \<Rightarrow> bool list \<Rightarrow> bool list" where
  "and_mask m1 m2 = map (\<lambda>(a, b). a \<and> b) (zip m1 m2)"

definition complete_mask :: "'a column list \<Rightarrow> bool list" where
  "complete_mask cols =
     (case cols of
        [] \<Rightarrow> []
      | c # cs \<Rightarrow> foldl and_mask (map notna c) (map (map notna) cs))"

definition keep_rows :: "bool list \<Rightarrow> 'a column \<Rightarrow> 'a list" where
  "keep_rows msk col = map (\<lambda>(b, v). the v) (filter (\<lambda>(b, v). b \<and> notna v) (zip msk col))"

definition dropna :: "'a column list \<Rightarrow> 'a list list" where
  "dropna cols = map (keep_rows (complete_mask cols)) cols"

definition n_rows :: "'a list list \<Rightarrow> nat" where
  "n_rows cols = (case cols of [] \<Rightarrow> 0 | c # _ \<Rightarrow> length c)"

section \<open>Greedy factor selection (\<open>run_analysis._pick_best_model\<close>)\<close>

text \<open>
  The regression library is outside the repository: \<open>fit y xs\<close> stands for
  \<open>float(fit_ols(y, x).rsquared_adj)\<close>, the adjusted R-squared of the fit of \<open>y\<close> on the
  columns \<open>xs\<close>, or the exception the library raises.
\<close>

type_synonym 'a fitter = "'a list \<Rightarrow> 'a list list \<Rightarrow> error + fval"

definition available :: "'a frame \<Rightarrow> string list \<Rightarrow> int \<Rightarrow> string list" where
  "available candidate_df all_candidates min_obs =
     filter (\<lambda>c. case map_of candidate_df c of
                    None \<Rightarrow> False
                  | Some col \<Rightarrow> min_obs < notna_sum col) all_candidates"

text \<open>
  One trial of the inner loop: \<open>None\<close> when the candidate is skipped (already chosen, or
  fewer than \<open>min_obs\<close> complete rows), otherwise the adjusted R-squared of the trial set.
  The selection always starts with \<open>fund_excess\<close>, so \<open>tmp\<close> has a first column.
\<close>

definition trial_score ::
  "'a fitter \<Rightarrow> 'a frame \<Rightarrow> int \<Rightarrow> string list \<Rightarrow> string \<Rightarrow> error + fval option" where
  "trial_score fit candidate_df min_obs chosen c =
     (if c \<in> set chosen then Inr None
      else
        (case select_columns candidate_df (''fund_excess'' # (chosen @ [c])) of
           Inl e \<Rightarrow> Inl e
         | Inr cols \<Rightarrow>
             (let tmp = dropna cols in
              if int (n_rows tmp) < min_obs then Inr None
              else
                (case fit (hd tmp) (tl tmp) of
                   Inl e \<Rightarrow> Inl e
                 | Inr ar2 \<Rightarrow> Inr (Some ar2)))))"

text \<open>The inner \<open>for c in available\<close> loop, threading \<open>(best_r2, best_col)\<close>.\<close>

fun scan_candidates ::
  "'a fitter \<Rightarrow> 'a frame \<Rightarrow> int \<Rightarrow> string list \<Rightarrow> string list \<Rightarrow>
   fval \<times> string option \<Rightarrow> error + (fval \<times> string option)" where
  "scan_candidates fit candidate_df min_obs chosen [] best = Inr best"
| "scan_candidates fit candidate_df min_obs chosen (c # cs) (best_r2, best_col) =
     (case trial_score fit candidate_df min_obs chosen c of
        Inl e \<Rightarrow> Inl e
      | Inr None \<Rightarrow> scan_candidates fit candidate_df min_obs chosen cs (best_r2, best_col)
      | Inr (Some ar2) \<Rightarrow>
          (if fgt ar2 best_r2
           then scan_candidates fit candidate_df min_obs chosen cs (ar2, Some c)
           else scan_candidates fit candidate_df min_obs chosen cs (best_r2, best_col)))"

text \<open>The outer \<open>for _ in range(max_factors)\<close> loop; the counter is the number of rounds left.\<close>

fun greedy_rounds ::
  "'a fitter \<Rightarrow> 'a frame \<Rightarrow> int \<Rightarrow> string list \<Rightarrow> nat \<Rightarrow> string list \<Rightarrow>
   error + string list" where
  "greedy_rounds fit candidate_df min_obs avail 0 chosen = Inr chosen"
| "greedy_rounds fit candidate_df min_obs avail (Suc k) chosen =
     (case scan_candidates fit candidate_df min_obs chosen avail (NegInf, None) of
        Inl e \<Rightarrow> Inl e
      | Inr (best_r2, None) \<Rightarrow> Inr chosen
      | Inr (best_r2, Some best_col) \<Rightarrow>
          greedy_rounds fit candidate_df min_obs avail k (chosen @ [best_col]))"

definition pick_best_model ::
  "'a fitter \<Rightarrow> 'a column \<Rightarrow> 'a frame \<Rightarrow> string list \<Rightarrow> int \<Rightarrow> int \<Rightarrow> int \<Rightarrow>
   error + string list" where
  "pick_best_model fit fund_excess candidate_df all_candidates min_obs min_factors max_factors =
     (let avail = available candidate_df all_candidates min_obs in
      case greedy_rounds fit candidate_df min_obs avail (nat max_factors) [] of
        Inl e \<Rightarrow> Inl e
      | Inr chosen \<Rightarrow>
          Inr (if int (length chosen) < min_factors
               then (if min_factors \<le> int (length avail)
                     then take (nat min_factors) avail else avail)
               else chosen))"

subsection \<open>A greedy run as the specification describes it\<close>

text \<open>
  \<open>scored\<close>: candidate \<open>d\<close> is considered in a round (not yet chosen, enough complete
  rows) and its trial set is fitted with adjusted R-squared \<open>s\<close>.
\<close>

definition scored :: "'a fitter \<Rightarrow> 'a frame \<Rightarrow> int \<Rightarrow> string list \<Rightarrow> string \<Rightarrow> fval \<Rightarrow> bool" where
  "scored fit df mo chosen d s = (trial_score fit df mo chosen d = Inr (Some s))"

text \<open>
  \<open>first_best\<close>: \<open>c\<close> has score \<open>r\<close> at some position of the iteration order, and every
  scored candidate before that position has a strictly smaller score (or NaN).
\<close>

definition first_best ::
  "'a fitter \<Rightarrow> 'a frame \<Rightarrow> int \<Rightarrow> string list \<Rightarrow> string list \<Rightarrow> fval \<Rightarrow> string \<Rightarrow> bool" where
  "first_best fit df mo chosen cs r c =
     (\<exists>pre post. cs = pre @ c # post \<and> scored fit df mo chosen c r \<and>
        (\<forall>d\<in>set pre. \<forall>s. scored fit df mo chosen d s \<longrightarrow> s = NaN \<or> fgt r s))"

text \<open>No candidate of the round has a score above minus infinity.\<close>

definition no_winner :: "'a fitter \<Rightarrow> 'a frame \<Rightarrow> int \<Rightarrow> string list \<Rightarrow> string list \<Rightarrow> bool" where
  "no_winner fit df mo avail chosen =
     (\<forall>d\<in>set avail. \<forall>s. scored fit df mo chosen d s \<longrightarrow> \<not> fgt s NegInf)"

text \<open>
  The candidate a round adds: its score is above minus infinity, no scored candidate
  exceeds it, and it is the first with that score.
\<close>

definition round_winner ::
  "'a fitter \<Rightarrow> 'a frame \<Rightarrow> int \<Rightarrow> string list \<Rightarrow> string list \<Rightarrow> string \<Rightarrow> bool" where
  "round_winner fit df mo avail chosen c =
     (\<exists>r. first_best fit df mo chosen avail r c \<and> fgt r NegInf \<and>
        (\<forall>d\<in>set avail. \<forall>s. scored fit df mo chosen d s \<longrightarrow> \<not> fgt s r))"

text \<open>
  \<open>greedy_spec k chosen res\<close>: from the chosen set \<open>chosen\<close>, at most \<open>k\<close> rounds, each
  adding the round's winner, stopping early when there is none, end with \<open>res\<close>.
\<close>

inductive greedy_spec ::
  "'a fitter \<Rightarrow> 'a frame \<Rightarrow> int \<Rightarrow> string list \<Rightarrow> nat \<Rightarrow> string list \<Rightarrow> string list \<Rightarrow> bool"
  for fit df mo avail where
    cap_reached: "greedy_spec fit df mo avail 0 chosen chosen"
  | none_left: "no_winner fit df mo avail chosen \<Longrightarrow> greedy_spec fit df mo avail (Suc k) chosen chosen"
  | add_best: "round_winner fit df mo avail chosen c \<Longrightarrow>
       greedy_spec fit df mo avail k (chosen @ [c]) res \<Longrightarrow>
       greedy_spec fit df mo avail (Suc k) chosen res"

text \<open>The fit raises nothing on a sample that is not empty.\<close>

definition fits_nonempty :: "'a fitter \<Rightarrow> bool" where
  "fits_nonempty fit = (\<forall>y xs. y \<noteq> [] \<longrightarrow> (\<exists>v. fit y xs = Inr v))"

text \<open>The indices of the rows in which every column is present.\<close>

definition complete_rows :: "'a column list \<Rightarrow> nat list" where
  "complete_rows cols = filter (\<lambda>i. \<forall>c\<in>set cols. notna (c ! i)) [0..<n_rows cols]"

subsection \<open>Least squares over the reals\<close>

text \<open>
  The worked inputs are run with the least-squares fit itself, computed over the reals:
  \<open>fit_ols\<close> adds an intercept, so the dependent variable and the regressors are centred;
  the regressors are then orthogonalised one after the other (a column that is a
  combination of the earlier ones is skipped and adds nothing to the rank), and what is
  left of the dependent variable is the residual. With \<open>n\<close> observations and \<open>k\<close>
  independent regressors the library reports
  \<open>rsquared_adj = 1 - (n - 1) / (n - 1 - k) * (1 - rsquared)\<close> and
  \<open>rsquared = 1 - ssr / centered_tss\<close>. Without residual degrees of freedom the
  quotient is infinite and the product with the zero residual is not a number; for a
  constant dependent variable the division by the zero total sum of squares gives minus
  infinity. An empty sample is refused by the library.
\<close>

definition dotp :: "real list \<Rightarrow> real list \<Rightarrow> real" where
  "dotp u v = sum_list (map (\<lambda>(a, b). a * b) (zip u v))"

definition centre :: "real list \<Rightarrow> real list" where
  "centre v = map (\<lambda>a. a - sum_list v / real (length v)) v"

definition remove_component :: "real list \<Rightarrow> real list \<Rightarrow> real list" where
  "remove_component c v = map (\<lambda>(a, b). b - dotp v c / dotp c c * a) (zip c v)"

fun residual :: "real list \<Rightarrow> real list list \<Rightarrow> real list \<times> nat" where
  "residual r [] = (r, 0)"
| "residual r (c # cs) =
     (if dotp c c = 0 then residual r cs
      else (case residual (remove_component c r) (map (remove_component c) cs) of
              (e, k) \<Rightarrow> (e, Suc k)))"

definition ols_adj_r2 :: "real fitter" where
  "ols_adj_r2 y xs =
     (if y = [] then Inl (ValueError ''zero-size array'')
      else
        (let n = length y;
             tss = dotp (centre y) (centre y);
             (e, k) = residual (centre y) (map centre xs)
         in Inr (if tss = 0 then NegInf
                 else if n \<le> k + 1 then NaN
                 else Fin (1 - real (n - 1) / real (n - 1 - k) * (dotp e e / tss)))))"

subsection \<open>Worked inputs\<close>

text \<open>
  Twelve periods: the fund and \<open>d\<close> are observed together in the first four, the fund and
  \<open>e\<close> in the next four, and \<open>a\<close>, \<open>b\<close>, \<open>c\<close> only where the fund is missing.
\<close>

definition sparse_frame :: "real frame" where
  "sparse_frame =
     [(''fund_excess'', [Some 1, Some 2, Some 3, Some 4, Some 1, Some 2, Some 3, Some 4,
                         None, None, None, None]),
      (''a'', [None, None, None, None, None, None, None, None, Some 1, Some 2, Some 3, Some 4]),
      (''b'', [None, None, None, None, None, None, None, None, Some 2, Some 1, Some 4, Some 3]),
      (''c'', [None, None, None, None, None, None, None, None, Some 1, Some 3, Some 2, Some 4]),
      (''d'', [Some 1, Some 2, Some 3, Some 5, None, None, None, None, None, None, None, None]),
      (''e'', [None, None, None, None, Some 1, Some 3, Some 2, Some 4, None, None, None, None])]"

text \<open>Five periods without a missing value.\<close>

definition dense_frame :: "real frame" where
  "dense_frame =
     [(''fund_excess'', [Some 1, Some 2, Some 3, Some 4, Some 6]),
      (''a'', [Some 1, Some 2, Some 3, Some 5, Some 5]),
      (''b'', [Some 1, Some 0, Some 1, Some 0, Some 1]),
      (''c'', [Some 2, Some 1, Some 4, Some 3, Some 6])]"

text \<open>Two candidates with the same observations, hence with the same score.\<close>

definition tie_frame :: "real frame" where
  "tie_frame =
     [(''fund_excess'', [Some 1, Some 2, Some 3, Some 4]),
      (''z'', [Some 1, Some 0, Some 1, Some 0]),
      (''a'', [Some 1, Some 3, Some 2, Some 4]),
      (''b'', [Some 1, Some 3, Some 2, Some 4])]"

text \<open>A fund whose excess return is constant: every trial set scores minus infinity.\<close>

definition flat_frame :: "real frame" where
  "flat_frame =
     [(''fund_excess'', [Some 1, Some 1, Some 1]),
      (''a'', [Some 0, Some 1, Some 2]),
      (''b'', [Some 0, Some 1, Some 2])]"

section \<open>Summary statistics (Question 1)\<close>

text \<open>
  Floating-point numbers are idealised as reals; a cell or a result that is NaN (or
  otherwise not a finite number) is \<open>None\<close>. Arithmetic on such values propagates
  \<open>None\<close>, as NaN propagates in numpy.

  The one place where the program tests a computed float for being exactly zero is the
  volatility, \<open>vol.replace(0, np.nan)\<close>. The float \<open>.std()\<close> of a constant column need
  not be zero (it is about \<open>1.7e-17\<close> for three values \<open>0.1\<close>), so the standard deviation
  is not idealised: the statistics functions take the computed deviation as a parameter
  \<open>sd\<close>, the function that \<open>.std()\<close> computes on the present values of a column.
\<close>

type_synonym deviation = "real list \<Rightarrow> real option"

definition fsub :: "real option \<Rightarrow> real option \<Rightarrow> real option" where
  "fsub a b = (case (a, b) of (Some x, Some y) \<Rightarrow> Some (x - y) | _ \<Rightarrow> None)"

text \<open>Division; a zero divisor never reaches it with a finite result.\<close>

definition fdiv :: "real option \<Rightarrow> real option \<Rightarrow> real option" where
  "fdiv a b = (case (a, b) of
                 (Some x, Some y) \<Rightarrow> (if y = 0 then None else Some (x / y))
               | _ \<Rightarrow> None)"

text \<open>\<open>vol.replace(0, np.nan)\<close>\<close>

definition replace_zero_nan :: "real option \<Rightarrow> real option" where
  "replace_zero_nan v = (if v = Some 0 then None else v)"

text \<open>\<open>(1 + s).prod()\<close>\<close>

definition growth :: "real list \<Rightarrow> real" where
  "growth rs = prod_list (map (\<lambda>r. 1 + r) rs)"

text \<open>
  \<open>x ** (1 / n)\<close> for an integer \<open>n\<close>: \<open>1 / n\<close> raises when \<open>n = 0\<close>; a negative base
  with a fractional exponent is NaN in numpy; for \<open>n = 1\<close> the exponent is \<open>1.0\<close>.
\<close>

definition pow_recip :: "real \<Rightarrow> nat \<Rightarrow> error + real option" where
  "pow_recip x n =
     (if n = 0 then Inl ZeroDivisionError
      else if x < 0 \<and> n \<noteq> 1 then Inr None
      else Inr (Some (root n x)))"

text \<open>\<open>prod ** (1 / n) - 1\<close>\<close>

definition geo_ret :: "real list \<Rightarrow> nat \<Rightarrow> error + real option" where
  "geo_ret rs n =
     (case pow_recip (growth rs) n of
        Inl e \<Rightarrow> Inl e
      | Inr p \<Rightarrow> Inr (fsub p (Some 1)))"

text \<open>\<open>.mean()\<close> of the present values: NaN on an empty sample.\<close>

definition mean :: "real list \<Rightarrow> real option" where
  "mean xs = (if xs = [] then None else Some (sum_list xs / real (length xs)))"

text \<open>\<open>.round(4)\<close>: to the nearest multiple of \<open>10^-4\<close>, a tie going to the even one.\<close>

definition rint :: "real \<Rightarrow> int" where
  "rint x =
     (let f = \<lfloor>x\<rfloor>; d = x - of_int f
      in if d < 1 / 2 then f
         else if 1 / 2 < d then f + 1
         else if even f then f else f + 1)"

definition round_dec :: "nat \<Rightarrow> real \<Rightarrow> real" where
  "round_dec k x = of_int (rint (x * 10 ^ k)) / 10 ^ k"

definition fround :: "nat \<Rightarrow> real option \<Rightarrow> real option" where
  "fround k v = map_option (round_dec k) v"

subsection \<open>\<open>Q1_1_damodaran_empirical_properties.stats_table\<close>\<close>

definition asset_names :: "string list" where
  "asset_names = [''SP500'', ''SmallCap'', ''TBill'', ''TBond10Y'', ''Baa'', ''RealEstate'', ''Gold'']"

record stat_row =
  Annualized_Return :: "real option"
  Volatility :: "real option"
  Sharpe_Ratio :: "real option"

definition frame_rows :: "'a frame \<Rightarrow> nat" where
  "frame_rows df = (case df of [] \<Rightarrow> 0 | (_, col) # _ \<Rightarrow> length col)"

text \<open>\<open>cols = [c for c in [...] if c in df.columns]\<close>\<close>

definition stats_cols :: "real frame \<Rightarrow> string list" where
  "stats_cols df = filter (has_column df) asset_names"

text \<open>\<open>df[cols].dropna()\<close>: the rows in which every asset column is present.\<close>

definition stats_clean :: "real frame \<Rightarrow> error + (string \<times> real list) list" where
  "stats_clean df =
     (case select_columns df (stats_cols df) of
        Inl e \<Rightarrow> Inl e
      | Inr cs \<Rightarrow> Inr (zip (stats_cols df) (dropna cs)))"

definition stats_n :: "real frame \<Rightarrow> (string \<times> real list) list \<Rightarrow> nat" where
  "stats_n df dfc = (if dfc = [] then frame_rows df else n_rows (map snd dfc))"

text \<open>
  The three statistics of one asset before rounding: \<open>xs\<close> are the asset's retained
  returns, the number of retained rows, \<open>rf\<close> the retained returns of the risk-free column.
\<close>

definition asset_stats :: "deviation \<Rightarrow> nat \<Rightarrow> real list \<Rightarrow> real list \<Rightarrow> error + stat_row" where
  "asset_stats sd n rf xs =
     (case geo_ret xs n of
        Inl e \<Rightarrow> Inl e
      | Inr g \<Rightarrow>
          (let vol = sd xs;
               excess = fsub g (mean rf);
               sharpe = fdiv excess (replace_zero_nan vol)
           in Inr \<lparr>Annualized_Return = g, Volatility = vol, Sharpe_Ratio = sharpe\<rparr>))"

definition round_row :: "stat_row \<Rightarrow> stat_row" where
  "round_row r =
     \<lparr>Annualized_Return = fround 4 (Annualized_Return r),
      Volatility = fround 4 (Volatility r),
      Sharpe_Ratio = fround 4 (Sharpe_Ratio r)\<rparr>"

fun stats_each ::
  "deviation \<Rightarrow> nat \<Rightarrow> real list \<Rightarrow> (string \<times> real list) list \<Rightarrow>
   error + (string \<times> stat_row) list" where
  "stats_each sd n rf [] = Inr []"
| "stats_each sd n rf ((c, xs) # rest) =
     (case asset_stats sd n rf xs of
        Inl e \<Rightarrow> Inl e
      | Inr r \<Rightarrow>
          (case stats_each sd n rf rest of
             Inl e \<Rightarrow> Inl e
           | Inr rs \<Rightarrow> Inr ((c, round_row r) # rs)))"

text \<open>
  The geometric returns (line 50) are computed for every column before the risk-free
  column is looked up (line 52); with no retained row, \<open>1 / n\<close> raises first.
\<close>

definition stats_table ::
  "deviation \<Rightarrow> real frame \<Rightarrow> string \<Rightarrow> error + (string \<times> stat_row) list" where
  "stats_table sd df rf_col =
     (case stats_clean df of
        Inl e \<Rightarrow> Inl e
      | Inr dfc \<Rightarrow>
          (let n = stats_n df dfc in
           if dfc \<noteq> [] \<and> n = 0 then Inl ZeroDivisionError
           else
             (case map_of dfc rf_col of
                None \<Rightarrow> Inl (KeyError rf_col)
              | Some rf \<Rightarrow> stats_each sd n rf dfc)))"

subsection \<open>\<open>Q1_2_mpf_category_summary_stats.summary_stats\<close>\<close>





subsection \<open>\<open>Q1_7_etf_vs_mpf_comparison.fetch_vt_annual_returns\<close>, from the year-end prices on\<close>

record vt_result =
  annual_returns :: "real list"
  n_years :: nat
  terminal_per_dollar :: real
  annualised_return :: "real option"

text \<open>
  \<open>p\<close> are the year-end closing prices (line 56). A zero price would divide by zero
  and give a non-finite return; the model reports that case as an error of its own.
\<close>

definition vt_from_prices :: "real list \<Rightarrow> error + vt_result" where
  "vt_from_prices p =
     (if length p < 2 then Inl (RuntimeError ''Not enough VT year-end prices to compute returns.'')
      else if 0 \<in> set (butlast p) then Inl ZeroDivisionError
      else
        (let rets = map (\<lambda>(a, b). a / b - 1) (zip (tl p) (butlast p));
             n = length rets;
             terminal = growth rets
         in case geo_ret rets n of
              Inl e \<Rightarrow> Inl e
            | Inr ann \<Rightarrow>
                Inr \<lparr>annual_returns = rets, n_years = n, terminal_per_dollar = terminal,
                     annualised_return = ann\<rparr>))"

subsection \<open>The Sharpe ratio as the specification words it\<close>


subsection \<open>Well-formed frames, retained periods and worked examples\<close>

text \<open>All columns of a frame have the length of the frame.\<close>

definition wf_frame :: "'a frame \<Rightarrow> bool" where
  "wf_frame df = (\<forall>col\<in>set (map snd df). length col = frame_rows df)"

text \<open>The row a result table reports for a column name.\<close>

definition reported :: "error + (string \<times> 'r) list \<Rightarrow> string \<Rightarrow> 'r option" where
  "reported res c = (case res of Inl e \<Rightarrow> None | Inr tbl \<Rightarrow> map_of tbl c)"

text \<open>
  The periods (row indices) in which every asset column of the table is present, and the
  returns of a column over these periods.
\<close>

definition complete_periods :: "real frame \<Rightarrow> nat list" where
  "complete_periods df = complete_rows (map (\<lambda>c. the (map_of df c)) (stats_cols df))"

definition retained :: "real frame \<Rightarrow> string \<Rightarrow> real list" where
  "retained df c = map (\<lambda>i. the (the (map_of df c) ! i)) (complete_periods df)"

definition example_returns :: "real frame" where
  "example_returns =
     [(''SP500'', [Some (10 / 100), Some (- 5 / 100), Some (8 / 100)]),
      (''TBill'', [Some (3 / 100), Some (2 / 100), Some (4 / 100)])]"

definition frame_full :: "real frame" where
  "frame_full =
     [(''SP500'', [Some (21 / 100), Some 0]),
      (''TBill'', [Some 0, Some 0]),
      (''Gold'', [Some 0, Some 0])]"

definition frame_gap :: "real frame" where
  "frame_gap =
     [(''SP500'', [Some (21 / 100), Some 0]),
      (''TBill'', [Some 0, Some 0]),
      (''Gold'', [None, Some 0])]"

text \<open>
  The sample standard deviation (\<open>ddof = 1\<close>) over the reals, NaN below two
  observations. On the worked inputs it agrees with the deviation the program computes:
  where a column is constant its values are zero or binary fractions, on which the float
  mean and the differences from it are exact, so that both deviations are exactly zero;
  on the other columns the two differ by rounding only.
\<close>

definition sample_std :: deviation where
  "sample_std xs =
     (if length xs < 2 then None
      else Some (sqrt (sum_list (map (\<lambda>x. (x - sum_list xs / real (length xs)) ^ 2) xs)
                        / real (length xs - 1))))"


section \<open>Local file loaders (\<open>data_prep\<close>)\<close>

text \<open>
  A timestamp is a calendar date (year, month, day), ordered lexicographically.
  \<open>.dt.to_period("M").dt.to_timestamp("M")\<close> sends a date to the last day of its month.
\<close>

type_synonym date = "nat \<times> nat \<times> nat"

definition leap_year :: "nat \<Rightarrow> bool" where
  "leap_year y = (y mod 4 = 0 \<and> (y mod 100 \<noteq> 0 \<or> y mod 400 = 0))"

definition days_in_month :: "nat \<Rightarrow> nat \<Rightarrow> nat" where
  "days_in_month y m =
     (if m = 2 then (if leap_year y then 29 else 28)
      else if m = 4 \<or> m = 6 \<or> m = 9 \<or> m = 11 then 30
      else 31)"

definition month_end :: "date \<Rightarrow> date" where
  "month_end d = (case d of (y, m, _) \<Rightarrow> (y, m, days_in_month y m))"

text \<open>A cell of a spreadsheet or of a parquet file, as the reader returns it.\<close>

datatype cell = Blank | Num real | Stamp date | Text string

type_synonym sheet = "(string \<times> cell list) list"

text \<open>
  \<open>pd.to_datetime\<close> without \<open>errors="coerce"\<close>: a missing cell becomes NaT, a timestamp
  stays, anything else goes through the library's parser (\<open>parse\<close>), which raises on
  what it cannot read.
\<close>

definition to_datetime :: "(cell \<Rightarrow> date option) \<Rightarrow> cell \<Rightarrow> error + date option" where
  "to_datetime parse c =
     (case c of
        Blank \<Rightarrow> Inr None
      | Stamp d \<Rightarrow> Inr (Some d)
      | _ \<Rightarrow> (case parse c of
                None \<Rightarrow> Inl (ValueError ''unknown datetime string format'')
              | Some d \<Rightarrow> Inr (Some d)))"

fun to_datetime_col :: "(cell \<Rightarrow> date option) \<Rightarrow> cell list \<Rightarrow> error + date option list" where
  "to_datetime_col parse [] = Inr []"
| "to_datetime_col parse (c # cs) =
     (case to_datetime parse c of
        Inl e \<Rightarrow> Inl e
      | Inr d \<Rightarrow>
          (case to_datetime_col parse cs of
             Inl e \<Rightarrow> Inl e
           | Inr ds \<Rightarrow> Inr (d # ds)))"

text \<open>
  \<open>pd.to_numeric(..., errors="coerce")\<close>: a number stays, a missing cell is NaN, anything
  else is what the library makes of it (\<open>num_of\<close>), NaN when it cannot be read.
\<close>

definition to_numeric_coerce :: "(cell \<Rightarrow> real option) \<Rightarrow> cell \<Rightarrow> real option" where
  "to_numeric_coerce num_of c =
     (case c of Blank \<Rightarrow> None | Num x \<Rightarrow> Some x | _ \<Rightarrow> num_of c)"

subsection \<open>\<open>load_fund_monthly_returns\<close>\<close>

text \<open>\<open>str(c).strip().lower()\<close> on ASCII column names.\<close>

definition is_space :: "char \<Rightarrow> bool" where
  "is_space c =
     (c = CHR '' '' \<or> (9 \<le> (of_char c :: nat) \<and> (of_char c :: nat) \<le> 13) \<or>
      (28 \<le> (of_char c :: nat) \<and> (of_char c :: nat) \<le> 31))"

definition strip :: "string \<Rightarrow> string" where
  "strip s = rev (dropWhile is_space (rev (dropWhile is_space s)))"

definition lower_char :: "char \<Rightarrow> char" where
  "lower_char c =
     (case map_of (zip ''ABCDEFGHIJKLMNOPQRSTUVWXYZ'' ''abcdefghijklmnopqrstuvwxyz'') c of
        None \<Rightarrow> c
      | Some l \<Rightarrow> l)"

definition lower :: "string \<Rightarrow> string" where
  "lower s = map lower_char s"

definition normalise_columns :: "sheet \<Rightarrow> sheet" where
  "normalise_columns df = map (\<lambda>(c, col). (lower (strip c), col)) df"

text \<open>\<open>df.rename(columns={"return": "fund_ret", "date": "date"})\<close>\<close>

definition rename_return :: "sheet \<Rightarrow> sheet" where
  "rename_return df = map (\<lambda>(c, col). (if c = ''return'' then ''fund_ret'' else c, col)) df"

text \<open>\<open>df[["date", "fund_ret"]].dropna()\<close>: the rows with a date and a return.\<close>

definition dropna_pairs :: "(date option \<times> cell) list \<Rightarrow> (date \<times> cell) list" where
  "dropna_pairs rows =
     List.map_filter
       (\<lambda>(d, r). case d of
                    None \<Rightarrow> None
                  | Some d' \<Rightarrow> (if r = Blank then None else Some (d', r))) rows"

text \<open>
  The months of the retained rows of the sheet, in sheet order: what the loader sorts.
  Column names are taken to be distinct after normalisation.
\<close>

definition fund_rows :: "(cell \<Rightarrow> date option) \<Rightarrow> sheet \<Rightarrow> error + (date \<times> cell) list" where
  "fund_rows parse xlsx =
     (let df = rename_return (normalise_columns xlsx) in
      case map_of df ''date'' of
        None \<Rightarrow> Inl (KeyError ''date'')
      | Some dcol \<Rightarrow>
          (case to_datetime_col parse dcol of
             Inl e \<Rightarrow> Inl e
           | Inr ds \<Rightarrow>
               (case map_of df ''fund_ret'' of
                  None \<Rightarrow> Inl (KeyError ''fund_ret'')
                | Some rcol \<Rightarrow> Inr (dropna_pairs (zip (map (map_option month_end) ds) rcol)))))"

definition load_fund_monthly_returns ::
  "(cell \<Rightarrow> date option) \<Rightarrow> sheet \<Rightarrow> error + (date \<times> cell) list" where
  "load_fund_monthly_returns parse xlsx =
     (case fund_rows parse xlsx of
        Inl e \<Rightarrow> Inl e
      | Inr rows \<Rightarrow> Inr (sort_key fst rows))"

subsection \<open>\<open>load_ff5_monthly\<close>\<close>

definition factor_cols :: "string list" where
  "factor_cols = [''mkt_rf'', ''smb'', ''hml'', ''rmw'', ''cma'', ''rf'']"

text \<open>The present values of a column in the rows of month \<open>m\<close>.\<close>

definition month_group :: "date \<Rightarrow> date option list \<Rightarrow> real option list \<Rightarrow> real list" where
  "month_group m month col =
     List.map_filter (\<lambda>(k, x). if k = Some m then x else None) (zip month col)"

text \<open>\<open>(1.0 + x).prod() - 1.0\<close>, the product skipping missing values.\<close>

definition compound :: "real list \<Rightarrow> real" where
  "compound xs = growth xs - 1"

text \<open>\<open>groupby("month")\<close>: one group per month present, in increasing order.\<close>

definition group_keys :: "date option list \<Rightarrow> date list" where
  "group_keys month = sort (remdups (List.map_filter id month))"

definition load_ff5_monthly ::
  "(cell \<Rightarrow> date option) \<Rightarrow> (cell \<Rightarrow> real option) \<Rightarrow> sheet \<Rightarrow> error + (date \<times> real list) list" where
  "load_ff5_monthly parse num_of ff =
     (case map_of ff ''dt'' of
        None \<Rightarrow> Inl (KeyError ''dt'')
      | Some dt \<Rightarrow>
          (case to_datetime_col parse dt of
             Inl e \<Rightarrow> Inl e
           | Inr ds \<Rightarrow>
               (let month = map (map_option month_end) ds in
                case select_columns ff factor_cols of
                  Inl e \<Rightarrow> Inl e
                | Inr cols \<Rightarrow>
                    (let nums = map (map (to_numeric_coerce num_of)) cols;
                         ff_monthly =
                           map (\<lambda>m. (m, map (\<lambda>col. compound (month_group m month col)) nums))
                             (group_keys month)
                     in Inr (sort_key fst ff_monthly)))))"

definition daily_sheet :: sheet where
  "daily_sheet =
     [(''Date'', [Stamp (2020, 1, 15), Stamp (2020, 1, 31), Stamp (2020, 2, 14)]),
      ('' Return '', [Num (1 / 100), Num (2 / 100), Num (3 / 100)])]"

definition monthly_sheet :: sheet where
  "monthly_sheet =
     [(''Date'', [Stamp (2020, 2, 14), Stamp (2020, 1, 31)]),
      (''Return'', [Num (1 / 100), Num (2 / 100)])]"

definition ff_sheet :: sheet where
  "ff_sheet =
     [(''dt'', [Stamp (2020, 1, 2), Stamp (2020, 1, 3), Stamp (2020, 2, 3)]),
      (''mkt_rf'', [Num (1 / 10), Num (1 / 10), Num 0]),
      (''smb'', [Num 0, Num 0, Num 0]),
      (''hml'', [Num 0, Num 0, Num 0]),
      (''rmw'', [Num 0, Num 0, Num 0]),
      (''cma'', [Num 0, Num 0, Num 0]),
      (''rf'', [Num 0, Blank, Num 0])]"

definition no_parse :: "cell \<Rightarrow> date option" where
  "no_parse c = None"

definition no_num :: "cell \<Rightarrow> real option" where
  "no_num c = None"

section \<open>Regression diagnostics (\<open>model_utils\<close>)\<close>

text \<open>
  The fitted model comes from the regression library, which is not part of the repository;
  \<open>regression_diagnostics\<close> reads its fields. The dependent variable is a list of
  observations and the regressors a list of rows, one per observation, without missing
  values (\<open>fit_ols\<close> drops them, and every caller passes frames after \<open>dropna\<close>).
\<close>

record ols_results =
  nobs :: nat
  params :: "(string \<times> real) list"
  rsquared :: fval
  rsquared_adj :: fval

text \<open>\<open>sm.add_constant(x, has_constant="add")\<close>: a first column of ones.\<close>

definition add_constant :: "real list list \<Rightarrow> real list list" where
  "add_constant x = map (\<lambda>row. 1 # row) x"

definition dot :: "real list \<Rightarrow> real list \<Rightarrow> real" where
  "dot beta row = sum_list (map (\<lambda>(b, v). b * v) (zip beta row))"

text \<open>\<open>model.predict(x_with_const)\<close>; the library raises on rows of the wrong width.\<close>

definition predict :: "ols_results \<Rightarrow> real list list \<Rightarrow> error + real list" where
  "predict model xc =
     (if \<exists>row\<in>set xc. length row \<noteq> length (params model)
      then Inl (ValueError ''shapes not aligned'')
      else Inr (map (dot (map snd (params model))) xc))"

text \<open>\<open>np.corrcoef(y, y_hat)[0, 1]\<close>: NaN when a variance vanishes.\<close>

definition corrcoef :: "real list \<Rightarrow> real list \<Rightarrow> real option" where
  "corrcoef xs ys =
     (let mx = sum_list xs / real (length xs);
          my = sum_list ys / real (length ys);
          sxy = sum_list (map (\<lambda>(x, y). (x - mx) * (y - my)) (zip xs ys));
          sxx = sum_list (map (\<lambda>x. (x - mx) ^ 2) xs);
          syy = sum_list (map (\<lambda>y. (y - my) ^ 2) ys)
      in if sxx = 0 \<or> syy = 0 then None else Some (sxy / sqrt (sxx * syy)))"

record diagnostics =
  n_obs :: nat
  r2 :: fval
  adj_r2 :: fval
  alpha_monthly :: "real option"
  alpha_annualized :: real
  resid_vol_monthly :: "real option"
  resid_vol_annualized :: "real option"
  corr_fitted_actual :: "real option"

text \<open>\<open>resid.std(ddof=1)\<close> is the computed deviation \<open>sd\<close> of the residuals.\<close>

definition regression_diagnostics ::
  "deviation \<Rightarrow> ols_results \<Rightarrow> real list \<Rightarrow> real list list \<Rightarrow> error + diagnostics" where
  "regression_diagnostics sd model y x =
     (case predict model (add_constant x) of
        Inl e \<Rightarrow> Inl e
      | Inr y_hat \<Rightarrow>
          (if length y \<noteq> length y_hat then Inl (ValueError ''operands could not be aligned'')
           else
             (let resid = map (\<lambda>(a, b). a - b) (zip y y_hat) in
              Inr \<lparr>n_obs = nobs model,
                   r2 = rsquared model,
                   adj_r2 = rsquared_adj model,
                   alpha_monthly = map_of (params model) ''const'',
                   alpha_annualized =
                     (1 + (case map_of (params model) ''const'' of None \<Rightarrow> 0 | Some a \<Rightarrow> a)) ^ 12 - 1,
                   resid_vol_monthly = sd resid,
                   resid_vol_annualized = map_option (\<lambda>s. s * sqrt 12) (sd resid),
                   corr_fitted_actual = corrcoef y y_hat\<rparr>)))"

subsection \<open>What the library's fit provides\<close>

text \<open>
  Modelled from the spec: the regression library (statsmodels) is not part of the
  repository, and the spec says that the engine "fits ordinary least squares with an
  intercept". The result of \<open>OLS(y, add_constant(x)).fit()\<close> holds one
  parameter per column, the intercept \<open>const\<close> first, that minimise the residual sum of
  squares, and \<open>rsquared = 1 - ssr / centered_tss\<close>. Nothing is required of
  \<open>rsquared\<close> when the centered total sum of squares is zero: the float computation
  then divides by zero or by a rounding residue, and the result is minus infinity, NaN or
  an arbitrary finite number.
\<close>

definition ssr :: "real list \<Rightarrow> real list list \<Rightarrow> real list \<Rightarrow> real" where
  "ssr y xc beta = sum_list (map (\<lambda>(yi, row). (yi - dot beta row) ^ 2) (zip y xc))"

definition centered_tss :: "real list \<Rightarrow> real" where
  "centered_tss y = sum_list (map (\<lambda>yi. (yi - sum_list y / real (length y)) ^ 2) y)"

definition is_fit_ols :: "real list \<Rightarrow> real list list \<Rightarrow> ols_results \<Rightarrow> bool" where
  "is_fit_ols y x model =
     (length x = length y \<and> nobs model = length y \<and>
      (\<forall>row\<in>set x. length row + 1 = length (params model)) \<and>
      (\<exists>a rest. params model = (''const'', a) # rest) \<and>
      (\<forall>b. length b = length (params model) \<longrightarrow>
           ssr y (add_constant x) (map snd (params model)) \<le> ssr y (add_constant x) b) \<and>
      (centered_tss y \<noteq> 0 \<longrightarrow>
         rsquared model =
           Fin (1 - ssr y (add_constant x) (map snd (params model)) / centered_tss y)))"

text \<open>The fit of \<open>y = [0, 1, 2]\<close> on \<open>x = [0, 1, 2]\<close>: the line through the three points.\<close>

definition line_fit :: ols_results where
  "line_fit = \<lparr>nobs = 3, params = [(''const'', 0), (''mkt_rf'', 1)],
               rsquared = Fin 1, rsquared_adj = Fin 1\<rparr>"

text \<open>
  The fit of the constant \<open>y = [1, 1, 1]\<close> on \<open>x = [0, 1, 2]\<close>: intercept 1, slope 0, and an
  R-squared of minus infinity, the residue of the residual sum of squares divided by the
  zero total sum of squares.
\<close>

definition flat_fit :: ols_results where
  "flat_fit = \<lparr>nobs = 3, params = [(''const'', 1), (''mkt_rf'', 0)],
               rsquared = NegInf, rsquared_adj = NegInf\<rparr>"
section \<open>External factors with a cache fallback (\<open>data_prep.fetch_all_external_factors\<close>)\<close>

text \<open>
  A factor table: whether it has a \<open>date\<close> column, the names of its other columns, and its
  rows, each a date (NaT is \<open>None\<close>) and the values of the other columns. The downloads,
  the CSV reader and writer of pandas and its outer join are outside the repository:
  the outcome of each download is an input, and \<open>read_csv\<close>, \<open>to_csv\<close> and \<open>merge\<close> are
  parameters. \<open>read_csv\<close> stands for \<open>pd.read_csv\<close> followed by
  \<open>pd.to_datetime(..., errors="coerce")\<close> on the date column. Writing a cache file is
  taken to succeed.
\<close>

record table =
  has_date :: bool
  col_names :: "string list"
  table_rows :: "(date option \<times> real option list) list"

text \<open>\<open>pd.DataFrame(columns=["date"])\<close> and \<open>pd.DataFrame()\<close>\<close>

definition empty_date_table :: table where
  "empty_date_table = \<lparr>has_date = True, col_names = [], table_rows = []\<rparr>"

definition empty_table :: table where
  "empty_table = \<lparr>has_date = False, col_names = [], table_rows = []\<rparr>"

text \<open>\<open>df.empty\<close>: no row or no column.\<close>

definition is_empty :: "table \<Rightarrow> bool" where
  "is_empty t = (table_rows t = [] \<or> (\<not> has_date t \<and> col_names t = []))"

definition dated :: "date option \<times> 'v \<Rightarrow> bool" where
  "dated r = (fst r \<noteq> None)"

definition date_key :: "date option \<times> 'v \<Rightarrow> date" where
  "date_key r = the (fst r)"

text \<open>\<open>.sort_values("date")\<close>: by date, the rows without a date last.\<close>

definition sort_values_date :: "(date option \<times> 'v) list \<Rightarrow> (date option \<times> 'v) list" where
  "sort_values_date rs = sort_key date_key (filter dated rs) @ filter (\<lambda>r. \<not> dated r) rs"

text \<open>\<open>df[df["date"] >= pd.Timestamp(start)]\<close>: a comparison with NaT is false.\<close>

definition from_start :: "date \<Rightarrow> (date option \<times> 'v) list \<Rightarrow> (date option \<times> 'v) list" where
  "from_start start rs =
     filter (\<lambda>r. case fst r of None \<Rightarrow> False | Some d \<Rightarrow> start \<le> d) rs"

type_synonym 'f files = "string \<times> string \<Rightarrow> 'f option"

datatype warning =
    OnlineFailedLoadedCache string error
  | OnlineFailedNoCache string error
  | JkpLoadFailed error
  | AqrFetchWarnings "(string \<times> error) list"

subsection \<open>\<open>_load_csv_fallback\<close>\<close>

definition load_csv_fallback :: "('f \<Rightarrow> table) \<Rightarrow> 'f \<Rightarrow> error + table" where
  "load_csv_fallback read_csv csv =
     (let df = read_csv csv in
      if \<not> has_date df then Inl (ValueError ''CSV is missing date column'')
      else Inr (df\<lparr>table_rows := sort_values_date (filter dated (table_rows df))\<rparr>))"

subsection \<open>\<open>_fetch_fred_factors\<close>, from the merged frame on\<close>

text \<open>
  \<open>net\<close> is the outcome of the downloads and merges of lines 81 to 116: the exception
  raised, or the merged frame before it is sorted (line 117) and cut at \<open>start\<close> (line 120).
\<close>

definition fetch_fred_factors :: "date \<Rightarrow> error + table \<Rightarrow> error + table" where
  "fetch_fred_factors start net =
     (case net of
        Inl e \<Rightarrow> Inl e
      | Inr merged \<Rightarrow>
          (if \<not> has_date merged then Inl (KeyError ''date'')
           else Inr (merged\<lparr>table_rows := from_start start (sort_values_date (table_rows merged))\<rparr>)))"

subsection \<open>\<open>_fetch_aqr_factors\<close>\<close>

text \<open>
  \<open>parts\<close> holds, for each of the four data sets in order, the outcome of its download
  and parse: the exception, or the parsed table. An exception of the merge itself is
  caught by the same handler.
\<close>

fun aqr_merge ::
  "(table \<Rightarrow> table \<Rightarrow> table) \<Rightarrow> table \<times> (string \<times> error) list \<Rightarrow>
   (string \<times> (error + table)) list \<Rightarrow> table \<times> (string \<times> error) list" where
  "aqr_merge merge (merged, errors) [] = (merged, errors)"
| "aqr_merge merge (merged, errors) ((key, outcome) # rest) =
     (case outcome of
        Inl exc \<Rightarrow> aqr_merge merge (merged, errors @ [(key, exc)]) rest
      | Inr part \<Rightarrow>
          (if is_empty merged then aqr_merge merge (part, errors) rest
           else if has_date merged \<and> has_date part
           then aqr_merge merge (merge merged part, errors) rest
           else aqr_merge merge (merged, errors @ [(key, KeyError ''date'')]) rest))"

definition fetch_aqr_factors ::
  "(table \<Rightarrow> table \<Rightarrow> table) \<Rightarrow> date \<Rightarrow> (string \<times> (error + table)) list \<Rightarrow>
   (error + table) \<times> warning list" where
  "fetch_aqr_factors merge start parts =
     (case aqr_merge merge (empty_table, []) parts of
        (merged, errors) \<Rightarrow>
          (let printed = (if errors = [] then [] else [AqrFetchWarnings errors]) in
           if is_empty merged then (Inr empty_date_table, printed)
           else if \<not> has_date merged then (Inl (KeyError ''date''), printed)
           else (Inr (merged\<lparr>table_rows := sort_values_date (from_start start (table_rows merged))\<rparr>),
                 printed)))"

subsection \<open>\<open>_load_jkp_local\<close>\<close>

definition load_jkp_local :: "('f \<Rightarrow> table) \<Rightarrow> 'f files \<Rightarrow> string \<Rightarrow> error + table" where
  "load_jkp_local read_csv fs data_dir =
     (case fs (data_dir, ''jkp_theme_factors_monthly.csv'') of
        None \<Rightarrow> Inr empty_date_table
      | Some csv \<Rightarrow>
          (let df = read_csv csv in
           if \<not> has_date df then Inl (ValueError ''JKP CSV missing date column'')
           else Inr (df\<lparr>table_rows := map (\<lambda>(d, v). (map_option month_end d, v))
                                     (sort_values_date (filter dated (table_rows df)))\<rparr>)))"

subsection \<open>\<open>fetch_all_external_factors\<close>\<close>

text \<open>
  The handler of one online source: \<open>fetched\<close> is what the \<open>try\<close> block produced, \<open>cache\<close>
  the content of the source's cache file when \<open>cache_dir\<close> is given and the file exists.
  The result is the source's table and its warning, or the exception that
  \<open>_load_csv_fallback\<close> raises inside the handler.
\<close>

definition with_fallback ::
  "('f \<Rightarrow> table) \<Rightarrow> string \<Rightarrow> 'f option \<Rightarrow> error + table \<Rightarrow> error + (table \<times> warning list)" where
  "with_fallback read_csv source cache fetched =
     (case fetched of
        Inr t \<Rightarrow> Inr (t, [])
      | Inl e \<Rightarrow>
          (case cache of
             Some csv \<Rightarrow>
               (case load_csv_fallback read_csv csv of
                  Inl e' \<Rightarrow> Inl e'
                | Inr t \<Rightarrow> Inr (t, [OnlineFailedLoadedCache source e]))
           | None \<Rightarrow> Inr (empty_date_table, [OnlineFailedNoCache source e])))"

definition cache_file :: "'f files \<Rightarrow> string option \<Rightarrow> string \<Rightarrow> 'f option" where
  "cache_file fs cache_dir name = (case cache_dir of None \<Rightarrow> None | Some d \<Rightarrow> fs (d, name))"

text \<open>On success the table is cached (\<open>to_csv\<close>) when \<open>cache_dir\<close> is given.\<close>

definition write_cache ::
  "(table \<Rightarrow> 'f) \<Rightarrow> 'f files \<Rightarrow> string option \<Rightarrow> string \<Rightarrow> error + table \<Rightarrow> 'f files" where
  "write_cache to_csv fs cache_dir name fetched =
     (case (cache_dir, fetched) of
        (Some d, Inr t) \<Rightarrow> fs((d, name) \<mapsto> to_csv t)
      | _ \<Rightarrow> fs)"

text \<open>\<open>if aqr.empty: raise RuntimeError("AQR returned empty data")\<close>\<close>

definition aqr_nonempty :: "error + table \<Rightarrow> error + table" where
  "aqr_nonempty fetched =
     (case fetched of
        Inl e \<Rightarrow> Inl e
      | Inr aqr \<Rightarrow> (if is_empty aqr then Inl (RuntimeError ''AQR returned empty data'') else Inr aqr))"

text \<open>The merge loop over \<open>(aqr, jkp)\<close>.\<close>

definition merge_part :: "(table \<Rightarrow> table \<Rightarrow> table) \<Rightarrow> table \<Rightarrow> table \<Rightarrow> table" where
  "merge_part merge out part =
     (if \<not> is_empty part \<and> has_date part
      then (if is_empty out \<or> \<not> has_date out \<or> length (table_rows out) = 0 then part
            else merge out part)
      else out)"

definition merge_sources ::
  "(table \<Rightarrow> table \<Rightarrow> table) \<Rightarrow> date \<Rightarrow> table \<Rightarrow> table \<Rightarrow> table \<Rightarrow> table" where
  "merge_sources merge start fred aqr jkp =
     (let out0 = (if \<not> is_empty fred then fred else empty_date_table);
          out = merge_part merge (merge_part merge out0 aqr) jkp
      in if \<not> is_empty out \<and> has_date out
         then out\<lparr>table_rows := sort_values_date (from_start start (table_rows out))\<rparr>
         else out)"

text \<open>
  The function returns the merged table; the model also returns the files after the run
  and what was printed, in order.
\<close>

definition fetch_all_external_factors ::
  "('f \<Rightarrow> table) \<Rightarrow> (table \<Rightarrow> 'f) \<Rightarrow> (table \<Rightarrow> table \<Rightarrow> table) \<Rightarrow>
   date \<Rightarrow> string option \<Rightarrow> string option \<Rightarrow> 'f files \<Rightarrow>
   error + table \<Rightarrow> (string \<times> (error + table)) list \<Rightarrow>
   error + (table \<times> 'f files \<times> warning list)" where
  "fetch_all_external_factors read_csv to_csv merge start cache_dir data_dir fs fred_net aqr_parts =
     (let fred_try = fetch_fred_factors start fred_net;
          fs1 = write_cache to_csv fs cache_dir ''fred_factors_monthly.csv'' fred_try
      in case with_fallback read_csv ''FRED''
                (cache_file fs cache_dir ''fred_factors_monthly.csv'') fred_try of
           Inl e \<Rightarrow> Inl e
         | Inr (fred, w1) \<Rightarrow>
             (case fetch_aqr_factors merge start aqr_parts of
                (aqr_res, printed) \<Rightarrow>
                  (let aqr_try = aqr_nonempty aqr_res;
                       fs2 = write_cache to_csv fs1 cache_dir ''aqr_factors_monthly.csv'' aqr_try
                   in case with_fallback read_csv ''AQR''
                             (cache_file fs1 cache_dir ''aqr_factors_monthly.csv'') aqr_try of
                        Inl e \<Rightarrow> Inl e
                      | Inr (aqr, w2) \<Rightarrow>
                          (let (jkp, w3) =
                                 (case data_dir of
                                    None \<Rightarrow> (empty_date_table, [])
                                  | Some dd \<Rightarrow>
                                      (case load_jkp_local read_csv fs2 dd of
                                         Inl exc \<Rightarrow> (empty_date_table, [JkpLoadFailed exc])
                                       | Inr t \<Rightarrow> (t, [])))
                           in Inr (merge_sources merge start fred aqr jkp, fs2,
                                   printed @ w1 @ w2 @ w3)))))"

text \<open>The table a run returns, or its exception.\<close>

definition returned_table :: "error + (table \<times> 'f files \<times> warning list) \<Rightarrow> error + table" where
  "returned_table res = map_sum id fst res"

text \<open>The optional local table of a run and its warning.\<close>

definition jkp_table :: "('f \<Rightarrow> table) \<Rightarrow> 'f files \<Rightarrow> string option \<Rightarrow> table" where
  "jkp_table read_csv fs data_dir =
     (case data_dir of
        None \<Rightarrow> empty_date_table
      | Some dd \<Rightarrow>
          (case load_jkp_local read_csv fs dd of
             Inl exc \<Rightarrow> empty_date_table
           | Inr t \<Rightarrow> t))"

definition jkp_warnings :: "('f \<Rightarrow> table) \<Rightarrow> 'f files \<Rightarrow> string option \<Rightarrow> warning list" where
  "jkp_warnings read_csv fs data_dir =
     (case data_dir of
        None \<Rightarrow> []
      | Some dd \<Rightarrow>
          (case load_jkp_local read_csv fs dd of
             Inl exc \<Rightarrow> [JkpLoadFailed exc]
           | Inr t \<Rightarrow> []))"

text \<open>Rows that all have a date and are in date order, as a fetched table's are.\<close>

definition date_sorted :: "(date option \<times> 'v) list \<Rightarrow> bool" where
  "date_sorted rs = ((\<forall>r\<in>set rs. dated r) \<and> sorted (map date_key rs))"

definition jan_table :: table where
  "jan_table = \<lparr>has_date = True, col_names = [''usd_ret''],
                table_rows = [(Some (2020, 1, 31), [Some (1 / 100)]), (Some (2020, 2, 29), [None])]\<rparr>"

definition first_table :: "table \<Rightarrow> table \<Rightarrow> table" where
  "first_table a b = a"

definition cached_files :: "table files" where
  "cached_files =
     [(''out'', ''fred_factors_monthly.csv'') \<mapsto> jan_table,
      (''out'', ''aqr_factors_monthly.csv'') \<mapsto> jan_table]"

definition no_files :: "table files" where
  "no_files = Map.empty"

definition corrupt_files :: "table files" where
  "corrupt_files = [(''out'', ''aqr_factors_monthly.csv'') \<mapsto> empty_table]"

definition corrupt_fred_files :: "table files" where
  "corrupt_fred_files = [(''out'', ''fred_factors_monthly.csv'') \<mapsto> empty_table]"

section \<open>Properties of the greedy selector\<close>

lemma fgt_not_nan: "fgt a b \<Longrightarrow> a \<noteq> NaN \<and> b \<noteq> NaN"
  by (cases a; cases b) auto

lemma fgt_irrefl: "\<not> fgt a a"
  by (cases a) auto

lemma fgt_trans: "fgt a b \<Longrightarrow> fgt b c \<Longrightarrow> fgt a c"
  by (cases a; cases b; cases c) auto

lemma fgt_asym: "fgt a b \<Longrightarrow> \<not> fgt b a"
  by (cases a; cases b) auto

lemma fgt_total: "a \<noteq> NaN \<Longrightarrow> b \<noteq> NaN \<Longrightarrow> \<not> fgt a b \<Longrightarrow> a = b \<or> fgt b a"
  by (cases a; cases b) auto

lemma first_best_here: "scored fit df mo chosen c r \<Longrightarrow> first_best fit df mo chosen (c # cs) r c"
  unfolding first_best_def by (rule exI [of _ "[]"]) simp

lemma first_best_later:
  assumes "first_best fit df mo chosen cs r c'"
    and "\<And>s. scored fit df mo chosen c s \<Longrightarrow> s = NaN \<or> fgt r s"
  shows "first_best fit df mo chosen (c # cs) r c'"
proof -
  from assms(1) obtain pre post where p: "cs = pre @ c' # post" "scored fit df mo chosen c' r"
    "\<forall>d\<in>set pre. \<forall>s. scored fit df mo chosen d s \<longrightarrow> s = NaN \<or> fgt r s"
    unfolding first_best_def by blast
  have "c # cs = (c # pre) @ c' # post" using p(1) by simp
  moreover have "\<forall>d\<in>set (c # pre). \<forall>s. scored fit df mo chosen d s \<longrightarrow> s = NaN \<or> fgt r s"
    using p(3) assms(2) by auto
  ultimately show ?thesis unfolding first_best_def using p(2) by blast
qed

lemma scan_inv:
  "b \<noteq> NaN \<Longrightarrow> scan_candidates fit df mo chosen cs (b, bc) = Inr (r, rc) \<Longrightarrow>
   r \<noteq> NaN \<and> (r = b \<or> fgt r b) \<and>
   (\<forall>d\<in>set cs. \<forall>s. scored fit df mo chosen d s \<longrightarrow> \<not> fgt s r) \<and>
   ((r = b \<and> rc = bc) \<or> (fgt r b \<and> (\<exists>c. rc = Some c \<and> first_best fit df mo chosen cs r c)))"
proof (induction cs arbitrary: b bc)
  case Nil
  then show ?case by simp
next
  case (Cons c cs)
  show ?case
  proof (cases "trial_score fit df mo chosen c")
    case (Inl e)
    with Cons.prems show ?thesis by simp
  next
    case (Inr sc)
    show ?thesis
    proof (cases sc)
      case None
      with Inr Cons.prems have run: "scan_candidates fit df mo chosen cs (b, bc) = Inr (r, rc)"
        by simp
      note ih = Cons.IH [OF Cons.prems(1) run]
      have nosc: "\<And>s. \<not> scored fit df mo chosen c s"
        using Inr None by (simp add: scored_def)
      from ih have i1: "r \<noteq> NaN" and i2: "r = b \<or> fgt r b"
        and i3: "\<forall>d\<in>set cs. \<forall>s. scored fit df mo chosen d s \<longrightarrow> \<not> fgt s r"
        and i4: "(r = b \<and> rc = bc) \<or> (fgt r b \<and> (\<exists>c. rc = Some c \<and> first_best fit df mo chosen cs r c))"
        by simp_all
      have g3: "\<forall>d\<in>set (c # cs). \<forall>s. scored fit df mo chosen d s \<longrightarrow> \<not> fgt s r"
        using i3 nosc by simp
      have g4: "(r = b \<and> rc = bc) \<or> (fgt r b \<and> (\<exists>c'. rc = Some c' \<and> first_best fit df mo chosen (c # cs) r c'))"
      proof (rule disjE [OF i4])
        assume "r = b \<and> rc = bc" then show ?thesis by (rule disjI1)
      next
        assume a: "fgt r b \<and> (\<exists>c. rc = Some c \<and> first_best fit df mo chosen cs r c)"
        then obtain c' where c': "rc = Some c'" "first_best fit df mo chosen cs r c'" by blast
        have "first_best fit df mo chosen (c # cs) r c'"
          by (rule first_best_later [OF c'(2)]) (simp add: nosc)
        with a c'(1) show ?thesis by blast
      qed
      from i1 i2 g3 g4 show ?thesis by blast
    next
      case (Some ar2)
      have sc_c: "\<And>s. scored fit df mo chosen c s \<longleftrightarrow> s = ar2"
        using Inr Some by (auto simp: scored_def)
      show ?thesis
      proof (cases "fgt ar2 b")
        case True
        with Inr Some Cons.prems have run: "scan_candidates fit df mo chosen cs (ar2, Some c) = Inr (r, rc)"
          by simp
        from True have nn: "ar2 \<noteq> NaN" using fgt_not_nan by blast
        note ih = Cons.IH [OF nn run]
        from ih have i1: "r \<noteq> NaN" and i2: "r = ar2 \<or> fgt r ar2"
          and i3: "\<forall>d\<in>set cs. \<forall>s. scored fit df mo chosen d s \<longrightarrow> \<not> fgt s r"
          and i4: "(r = ar2 \<and> rc = Some c) \<or> (fgt r ar2 \<and> (\<exists>c. rc = Some c \<and> first_best fit df mo chosen cs r c))"
          by simp_all
        from i2 have rb: "fgt r b" using True fgt_trans by blast
        from i2 have c_le: "\<not> fgt ar2 r" using fgt_asym fgt_irrefl by blast
        have g3: "\<forall>d\<in>set (c # cs). \<forall>s. scored fit df mo chosen d s \<longrightarrow> \<not> fgt s r"
          using i3 c_le sc_c by simp
        have "\<exists>c'. rc = Some c' \<and> first_best fit df mo chosen (c # cs) r c'"
        proof (rule disjE [OF i4])
          assume a: "r = ar2 \<and> rc = Some c"
          then have "scored fit df mo chosen c r" using sc_c by simp
          then have "first_best fit df mo chosen (c # cs) r c" by (rule first_best_here)
          with a show ?thesis by blast
        next
          assume a: "fgt r ar2 \<and> (\<exists>c. rc = Some c \<and> first_best fit df mo chosen cs r c)"
          then obtain c' where c': "rc = Some c'" "first_best fit df mo chosen cs r c'" by blast
          have "first_best fit df mo chosen (c # cs) r c'"
            by (rule first_best_later [OF c'(2)]) (use a sc_c in simp)
          with c'(1) show ?thesis by blast
        qed
        with rb have g4: "(r = b \<and> rc = bc) \<or> (fgt r b \<and> (\<exists>c'. rc = Some c' \<and> first_best fit df mo chosen (c # cs) r c'))"
          by blast
        from rb have g2: "r = b \<or> fgt r b" by simp
        from i1 g2 g3 g4 show ?thesis by blast
      next
        case False
        with Inr Some Cons.prems have run: "scan_candidates fit df mo chosen cs (b, bc) = Inr (r, rc)"
          by simp
        note ih = Cons.IH [OF Cons.prems(1) run]
        from ih have i1: "r \<noteq> NaN" and i2: "r = b \<or> fgt r b"
          and i3: "\<forall>d\<in>set cs. \<forall>s. scored fit df mo chosen d s \<longrightarrow> \<not> fgt s r"
          and i4: "(r = b \<and> rc = bc) \<or> (fgt r b \<and> (\<exists>c. rc = Some c \<and> first_best fit df mo chosen cs r c))"
          by simp_all
        have c_le: "\<not> fgt ar2 r"
          using i2 False fgt_trans by blast
        have c_lt: "fgt r b \<Longrightarrow> ar2 = NaN \<or> fgt r ar2"
          using False Cons.prems(1) fgt_total [of ar2 b] fgt_trans [of r b ar2] by blast
        have g3: "\<forall>d\<in>set (c # cs). \<forall>s. scored fit df mo chosen d s \<longrightarrow> \<not> fgt s r"
          using i3 c_le sc_c by simp
        have g4: "(r = b \<and> rc = bc) \<or> (fgt r b \<and> (\<exists>c'. rc = Some c' \<and> first_best fit df mo chosen (c # cs) r c'))"
        proof (rule disjE [OF i4])
          assume "r = b \<and> rc = bc" then show ?thesis by (rule disjI1)
        next
          assume a: "fgt r b \<and> (\<exists>c. rc = Some c \<and> first_best fit df mo chosen cs r c)"
          then obtain c' where c': "rc = Some c'" "first_best fit df mo chosen cs r c'" by blast
          have "first_best fit df mo chosen (c # cs) r c'"
            by (rule first_best_later [OF c'(2)]) (use a sc_c c_lt in simp)
          with a c'(1) show ?thesis by blast
        qed
        from i1 i2 g3 g4 show ?thesis by blast
      qed
    qed
  qed
qed

lemma scan_from_start:
  assumes "scan_candidates fit df mo chosen avail (NegInf, None) = Inr (r, rc)"
  shows "(rc = None \<and> no_winner fit df mo avail chosen) \<or>
         (\<exists>c. rc = Some c \<and> round_winner fit df mo avail chosen c)"
proof -
  have nn: "NegInf \<noteq> NaN" by simp
  note inv = scan_inv [OF nn assms]
  from inv have i3: "\<forall>d\<in>set avail. \<forall>s. scored fit df mo chosen d s \<longrightarrow> \<not> fgt s r"
    and i4: "(r = NegInf \<and> rc = None) \<or>
             (fgt r NegInf \<and> (\<exists>c. rc = Some c \<and> first_best fit df mo chosen avail r c))"
    by simp_all
  show ?thesis
  proof (rule disjE [OF i4])
    assume "r = NegInf \<and> rc = None"
    with i3 show ?thesis by (simp add: no_winner_def)
  next
    assume "fgt r NegInf \<and> (\<exists>c. rc = Some c \<and> first_best fit df mo chosen avail r c)"
    with i3 show ?thesis unfolding round_winner_def by blast
  qed
qed

lemma greedy_rounds_spec:
  "greedy_rounds fit df mo avail k chosen = Inr res \<Longrightarrow> greedy_spec fit df mo avail k chosen res"
proof (induction k arbitrary: chosen)
  case 0
  then show ?case by (simp add: greedy_spec.cap_reached)
next
  case (Suc k)
  show ?case
  proof (cases "scan_candidates fit df mo chosen avail (NegInf, None)")
    case (Inl e)
    with Suc.prems show ?thesis by simp
  next
    case (Inr st)
    obtain r rc where st: "st = (r, rc)" by (cases st)
    note start = scan_from_start [OF Inr [unfolded st]]
    show ?thesis
    proof (cases rc)
      case None
      with Inr st Suc.prems have "res = chosen" by simp
      moreover from start None have "no_winner fit df mo avail chosen" by simp
      ultimately show ?thesis by (simp add: greedy_spec.none_left)
    next
      case (Some c)
      with Inr st Suc.prems have "greedy_rounds fit df mo avail k (chosen @ [c]) = Inr res" by simp
      then have "greedy_spec fit df mo avail k (chosen @ [c]) res" by (rule Suc.IH)
      moreover from start Some have "round_winner fit df mo avail chosen c" by simp
      ultimately show ?thesis by (rule greedy_spec.add_best [rotated])
    qed
  qed
qed

lemma length_foldl_and_mask:
  "\<forall>x\<in>set ms. length x = length m \<Longrightarrow> length (foldl and_mask m ms) = length m"
  by (induction ms arbitrary: m) (simp_all add: and_mask_def)

lemma nth_foldl_and_mask:
  "\<forall>x\<in>set ms. length x = length m \<Longrightarrow> i < length m \<Longrightarrow>
   foldl and_mask m ms ! i = (m ! i \<and> (\<forall>x\<in>set ms. x ! i))"
proof (induction ms arbitrary: m)
  case Nil
  then show ?case by simp
next
  case (Cons a ms)
  have len: "length (and_mask m a) = length m" using Cons.prems by (simp add: and_mask_def)
  have "foldl and_mask (and_mask m a) ms ! i = (and_mask m a ! i \<and> (\<forall>x\<in>set ms. x ! i))"
    using Cons.prems len by (intro Cons.IH) simp_all
  moreover have "and_mask m a ! i = (m ! i \<and> a ! i)"
    using Cons.prems by (simp add: and_mask_def)
  ultimately show ?case by auto
qed

lemma keep_rows_index:
  "length msk = length col \<Longrightarrow>
   keep_rows msk col = map (\<lambda>i. the (col ! i)) (filter (\<lambda>i. msk ! i \<and> notna (col ! i)) [0..<length col])"
proof (induction col arbitrary: msk)
  case Nil
  then show ?case by (simp add: keep_rows_def)
next
  case (Cons v col)
  then obtain b bs where msk: "msk = b # bs" "length bs = length col"
    by (cases msk) auto
  have ih: "keep_rows bs col = map (\<lambda>i. the (col ! i)) (filter (\<lambda>i. bs ! i \<and> notna (col ! i)) [0..<length col])"
    using Cons.IH msk(2) by simp
  have up: "[0..<length (v # col)] = 0 # map Suc [0..<length col]"
    by (simp add: upt_conv_Cons map_Suc_upt del: upt_Suc)
  have "keep_rows msk (v # col) = (if b \<and> notna v then [the v] else []) @ keep_rows bs col"
    by (simp add: keep_rows_def msk(1))
  also have "\<dots> = map (\<lambda>i. the ((v # col) ! i)) (filter (\<lambda>i. msk ! i \<and> notna ((v # col) ! i)) [0..<length (v # col)])"
    unfolding up ih by (simp add: msk(1) filter_map comp_def)
  finally show ?case .
qed

lemma dropna_complete_rows:
  assumes "\<forall>c\<in>set cols. length c = n_rows cols"
  shows "dropna cols = map (\<lambda>col. map (\<lambda>i. the (col ! i)) (complete_rows cols)) cols"
proof (cases cols)
  case Nil
  then show ?thesis by (simp add: dropna_def)
next
  case (Cons c0 cs)
  let ?n = "length c0"
  have n: "n_rows cols = ?n" by (simp add: Cons n_rows_def)
  have lens: "\<forall>x\<in>set (map (map notna) cs). length x = length (map notna c0)"
    using assms n Cons by simp
  have mlen: "length (complete_mask cols) = ?n"
    using length_foldl_and_mask [OF lens] by (simp add: complete_mask_def Cons)
  have mnth: "\<And>i. i < ?n \<Longrightarrow> complete_mask cols ! i = (\<forall>c\<in>set cols. notna (c ! i))"
  proof -
    fix i assume i: "i < ?n"
    then have "i < length (map notna c0)" by simp
    from nth_foldl_and_mask [OF lens this]
    have "complete_mask cols ! i = (notna (c0 ! i) \<and> (\<forall>x\<in>set cs. notna (x ! i)))"
      using i assms n Cons by (simp add: complete_mask_def)
    then show "complete_mask cols ! i = (\<forall>c\<in>set cols. notna (c ! i))"
      by (simp add: Cons)
  qed
  have each: "\<And>col. col \<in> set cols \<Longrightarrow>
      keep_rows (complete_mask cols) col = map (\<lambda>i. the (col ! i)) (complete_rows cols)"
  proof -
    fix col assume col: "col \<in> set cols"
    then have l: "length col = ?n" using assms n by simp
    have "keep_rows (complete_mask cols) col =
        map (\<lambda>i. the (col ! i)) (filter (\<lambda>i. complete_mask cols ! i \<and> notna (col ! i)) [0..<length col])"
      by (rule keep_rows_index) (simp add: mlen l)
    also have "filter (\<lambda>i. complete_mask cols ! i \<and> notna (col ! i)) [0..<length col] = complete_rows cols"
      unfolding complete_rows_def n l
      by (rule filter_cong) (use mnth col in auto)
    finally show "keep_rows (complete_mask cols) col = map (\<lambda>i. the (col ! i)) (complete_rows cols)" .
  qed
  show ?thesis unfolding dropna_def by (rule map_cong) (simp_all add: each)
qed

lemmas frame_eval = pick_best_model_def available_def notna_sum_def notna_def trial_score_def
  dropna_def complete_mask_def and_mask_def keep_rows_def n_rows_def
  sparse_frame_def dense_frame_def tie_frame_def flat_frame_def

lemmas fit_eval = ols_adj_r2_def dotp_def centre_def remove_component_def Let_def

lemma select_columns_total:
  "\<forall>c\<in>set cs. map_of df c \<noteq> None \<Longrightarrow> \<exists>cols. select_columns df cs = Inr cols"
  by (induction cs) auto

lemma n_rows_dropna: "n_rows (dropna (c # cs)) = length (hd (dropna (c # cs)))"
  by (simp add: dropna_def n_rows_def)

lemma trial_score_total:
  assumes "map_of df ''fund_excess'' \<noteq> None" "\<forall>d\<in>set chosen. map_of df d \<noteq> None"
    "map_of df c \<noteq> None" "0 < mo" "\<forall>y xs. y \<noteq> [] \<longrightarrow> (\<exists>v. fit y xs = Inr v)"
  shows "\<exists>v. trial_score fit df mo chosen c = Inr v"
proof -
  have "\<forall>d\<in>set (''fund_excess'' # (chosen @ [c])). map_of df d \<noteq> None"
    using assms(1-3) by auto
  from select_columns_total [OF this]
  obtain cols where cols: "select_columns df (''fund_excess'' # (chosen @ [c])) = Inr cols" ..
  then obtain c0 cs where c0: "cols = c0 # cs"
    by (cases cols) (auto split: option.splits sum.splits)
  show ?thesis
  proof (cases "int (n_rows (dropna cols)) < mo")
    case True
    then show ?thesis
      unfolding trial_score_def using cols by (simp add: Let_def del: select_columns.simps)
  next
    case False
    with assms(4) have "0 < n_rows (dropna cols)" by simp
    then have "hd (dropna cols) \<noteq> []" unfolding c0 n_rows_dropna by simp
    then obtain v where v: "fit (hd (dropna cols)) (tl (dropna cols)) = Inr v"
      using assms(5) by blast
    show ?thesis
      unfolding trial_score_def using cols v False
      by (simp add: Let_def del: select_columns.simps)
  qed
qed

lemma scan_candidates_total:
  assumes "map_of df ''fund_excess'' \<noteq> None" "\<forall>d\<in>set chosen. map_of df d \<noteq> None"
    "0 < mo" "\<forall>y xs. y \<noteq> [] \<longrightarrow> (\<exists>v. fit y xs = Inr v)"
  shows "\<forall>c\<in>set cs. map_of df c \<noteq> None \<Longrightarrow>
     \<exists>r rc. scan_candidates fit df mo chosen cs (b, bc) = Inr (r, rc)"
proof (induction cs arbitrary: b bc)
  case Nil
  then show ?case by simp
next
  case (Cons c cs)
  from Cons.prems have c: "map_of df c \<noteq> None" and cs: "\<forall>c\<in>set cs. map_of df c \<noteq> None"
    by simp_all
  obtain v where v: "trial_score fit df mo chosen c = Inr v"
    using trial_score_total [OF assms(1,2) c assms(3,4)] by blast
  show ?case
  proof (cases "\<exists>ar2. v = Some ar2 \<and> fgt ar2 b")
    case True
    then obtain ar2 where a: "v = Some ar2" "fgt ar2 b" by blast
    from Cons.IH [OF cs, of ar2 "Some c"]
    obtain r rc where "scan_candidates fit df mo chosen cs (ar2, Some c) = Inr (r, rc)" by blast
    then show ?thesis using v a by auto
  next
    case False
    from Cons.IH [OF cs, of b bc]
    obtain r rc where "scan_candidates fit df mo chosen cs (b, bc) = Inr (r, rc)" by blast
    then show ?thesis using v False by (cases v) auto
  qed
qed

lemma scan_candidates_member:
  "scan_candidates fit df mo chosen cs (b, bc) = Inr (r, rc) \<Longrightarrow>
   rc = bc \<or> (\<exists>c\<in>set cs. rc = Some c)"
proof (induction cs arbitrary: b bc)
  case Nil
  then show ?case by simp
next
  case (Cons c cs)
  show ?case
  proof (cases "trial_score fit df mo chosen c")
    case (Inl e)
    with Cons.prems show ?thesis by simp
  next
    case (Inr sc)
    show ?thesis
    proof (cases "\<exists>ar2. sc = Some ar2 \<and> fgt ar2 b")
      case True
      then obtain ar2 where a: "sc = Some ar2" "fgt ar2 b" by blast
      with Inr Cons.prems have "scan_candidates fit df mo chosen cs (ar2, Some c) = Inr (r, rc)"
        by simp
      from Cons.IH [OF this] show ?thesis by auto
    next
      case False
      with Inr Cons.prems have "scan_candidates fit df mo chosen cs (b, bc) = Inr (r, rc)"
        by (cases sc) auto
      from Cons.IH [OF this] show ?thesis by auto
    qed
  qed
qed

lemma greedy_rounds_total:
  assumes "map_of df ''fund_excess'' \<noteq> None" "\<forall>c\<in>set avail. map_of df c \<noteq> None"
    "0 < mo" "\<forall>y xs. y \<noteq> [] \<longrightarrow> (\<exists>v. fit y xs = Inr v)"
  shows "\<forall>d\<in>set chosen. map_of df d \<noteq> None \<Longrightarrow>
     \<exists>res. greedy_rounds fit df mo avail k chosen = Inr res"
proof (induction k arbitrary: chosen)
  case 0
  then show ?case by simp
next
  case (Suc k)
  from scan_candidates_total [OF assms(1) Suc.prems assms(3,4) assms(2), of NegInf None]
  obtain r rc where sc: "scan_candidates fit df mo chosen avail (NegInf, None) = Inr (r, rc)"
    by blast
  from scan_candidates_member [OF sc]
  have rc: "rc = None \<or> (\<exists>c\<in>set avail. rc = Some c)" .
  show ?case
  proof (cases rc)
    case None
    with sc show ?thesis by simp
  next
    case (Some c)
    with rc have "c \<in> set avail" by simp
    then have "\<forall>d\<in>set (chosen @ [c]). map_of df d \<noteq> None"
      using Suc.prems assms(2) by auto
    from Suc.IH [OF this] sc Some show ?thesis by simp
  qed
qed

lemma available_in_frame: "\<forall>c\<in>set (available df cands mo). map_of df c \<noteq> None"
  by (auto simp: available_def split: option.splits)

lemma pick_best_model_total:
  assumes "map_of df ''fund_excess'' \<noteq> None" "0 < mo"
    "\<forall>y xs. y \<noteq> [] \<longrightarrow> (\<exists>v. fit y xs = Inr v)"
  shows "\<exists>res. pick_best_model fit s df cands mo mnf mxf = Inr res"
proof -
  have "\<forall>d\<in>set []. map_of df d \<noteq> None" by simp
  from greedy_rounds_total [OF assms(1) available_in_frame assms(2,3) this]
  obtain chosen where "greedy_rounds fit df mo (available df cands mo) (nat mxf) [] = Inr chosen"
    by blast
  then show ?thesis by (simp add: pick_best_model_def Let_def)
qed

lemma scored_iff:
  "scored fit df mo chosen c s \<longleftrightarrow>
     c \<notin> set chosen \<and>
     (\<exists>cols. select_columns df (''fund_excess'' # chosen @ [c]) = Inr cols \<and>
        mo \<le> int (n_rows (dropna cols)) \<and>
        fit (hd (dropna cols)) (tl (dropna cols)) = Inr s)"
  unfolding scored_def trial_score_def
  by (auto simp add: Let_def simp del: select_columns.simps split: sum.splits)

lemma set_available:
  "set (available df cands mo) =
     {c \<in> set cands. \<exists>col. map_of df c = Some col \<and> mo < notna_sum col}"
  by (auto simp: available_def split: option.splits)

lemma select_columns_cong:
  "\<forall>c\<in>set cs. map_of df c = map_of df' c \<Longrightarrow> select_columns df cs = select_columns df' cs"
  by (induction cs) (auto split: option.splits)

lemma trial_score_cong:
  assumes "map_of df ''fund_excess'' = map_of df' ''fund_excess''"
    "\<forall>d\<in>set chosen. map_of df d = map_of df' d" "map_of df c = map_of df' c"
  shows "trial_score fit df mo chosen c = trial_score fit df' mo chosen c"
proof -
  have "\<forall>d\<in>set (''fund_excess'' # (chosen @ [c])). map_of df d = map_of df' d"
    using assms by auto
  from select_columns_cong [OF this] show ?thesis
    unfolding trial_score_def by (simp del: select_columns.simps)
qed

lemma scan_candidates_cong:
  assumes "map_of df ''fund_excess'' = map_of df' ''fund_excess''"
    "\<forall>d\<in>set chosen. map_of df d = map_of df' d"
  shows "\<forall>c\<in>set cs. map_of df c = map_of df' c \<Longrightarrow>
     scan_candidates fit df mo chosen cs best = scan_candidates fit df' mo chosen cs best"
proof (induction cs arbitrary: best)
  case Nil
  show ?case by simp
next
  case (Cons c cs)
  obtain b bc where best: "best = (b, bc)" by (cases best)
  have t: "trial_score fit df mo chosen c = trial_score fit df' mo chosen c"
    using trial_score_cong [OF assms] Cons.prems by simp
  have ih: "\<And>bb. scan_candidates fit df mo chosen cs bb = scan_candidates fit df' mo chosen cs bb"
    using Cons.IH Cons.prems by simp
  show ?case unfolding best by (simp add: t ih split: sum.splits option.splits)
qed

lemma greedy_rounds_cong:
  assumes "map_of df ''fund_excess'' = map_of df' ''fund_excess''"
    "\<forall>c\<in>set avail. map_of df c = map_of df' c"
  shows "\<forall>d\<in>set chosen. map_of df d = map_of df' d \<Longrightarrow>
     greedy_rounds fit df mo avail k chosen = greedy_rounds fit df' mo avail k chosen"
proof (induction k arbitrary: chosen)
  case 0
  show ?case by simp
next
  case (Suc k)
  have sc: "scan_candidates fit df mo chosen avail (NegInf, None) =
            scan_candidates fit df' mo chosen avail (NegInf, None)"
    by (rule scan_candidates_cong [OF assms(1) Suc.prems assms(2)])
  show ?case
  proof (cases "scan_candidates fit df mo chosen avail (NegInf, None)")
    case (Inl e)
    moreover from Inl sc have "scan_candidates fit df' mo chosen avail (NegInf, None) = Inl e"
      by simp
    ultimately show ?thesis by simp
  next
    case (Inr st)
    obtain r rc where st: "st = (r, rc)" by (cases st)
    from Inr st sc have sc': "scan_candidates fit df' mo chosen avail (NegInf, None) = Inr (r, rc)"
      by simp
    show ?thesis
    proof (cases rc)
      case None
      with Inr st sc' show ?thesis by simp
    next
      case (Some c)
      from scan_candidates_member [OF Inr [unfolded st]] Some have "c \<in> set avail" by simp
      then have "\<forall>d\<in>set (chosen @ [c]). map_of df d = map_of df' d"
        using Suc.prems assms(2) by auto
      from Suc.IH [OF this] Inr st Some sc' show ?thesis by simp
    qed
  qed
qed

lemma available_cong:
  "\<forall>c\<in>set cands. map_of df c = map_of df' c \<Longrightarrow> available df cands mo = available df' cands mo"
  unfolding available_def by (rule filter_cong) simp_all

lemma pick_best_model_cong:
  assumes "\<forall>c\<in>set (''fund_excess'' # cands). map_of df c = map_of df' c"
  shows "pick_best_model fit s1 df cands mo mnf mxf = pick_best_model fit s2 df' cands mo mnf mxf"
proof -
  from assms have fe: "map_of df ''fund_excess'' = map_of df' ''fund_excess''"
    and cs: "\<forall>c\<in>set cands. map_of df c = map_of df' c" by simp_all
  have av: "available df cands mo = available df' cands mo" by (rule available_cong [OF cs])
  have sub: "\<forall>c\<in>set (available df cands mo). map_of df c = map_of df' c"
    using cs by (simp add: available_def)
  have e: "\<forall>d\<in>set []. map_of df d = map_of df' d" by simp
  have "greedy_rounds fit df mo (available df cands mo) (nat mxf) [] =
        greedy_rounds fit df' mo (available df cands mo) (nat mxf) []"
    by (rule greedy_rounds_cong [OF fe sub e])
  then show ?thesis unfolding pick_best_model_def av [symmetric] by simp
qed

lemma greedy_rounds_prefix:
  "greedy_rounds fit df mo avail k chosen = Inr out \<Longrightarrow> \<exists>rest. out = chosen @ rest"
proof (induction k arbitrary: chosen)
  case 0
  then show ?case by simp
next
  case (Suc k)
  show ?case
  proof (cases "scan_candidates fit df mo chosen avail (NegInf, None)")
    case (Inl e)
    with Suc.prems show ?thesis by simp
  next
    case (Inr st)
    obtain r rc where st: "st = (r, rc)" by (cases st)
    show ?thesis
    proof (cases rc)
      case None
      with Inr st Suc.prems show ?thesis by simp
    next
      case (Some c)
      with Inr st Suc.prems have "greedy_rounds fit df mo avail k (chosen @ [c]) = Inr out" by simp
      from Suc.IH [OF this] show ?thesis by auto
    qed
  qed
qed

lemma round_winner_unique:
  assumes fb: "first_best fit df mo chosen avail r0 c0"
    and mx0: "\<forall>d\<in>set avail. \<forall>s. scored fit df mo chosen d s \<longrightarrow> \<not> fgt s r0"
    and r0: "fgt r0 NegInf"
    and dec: "avail = pre @ c # post"
    and sc: "scored fit df mo chosen c r"
    and r: "fgt r NegInf"
    and mx: "\<forall>d\<in>set avail. \<forall>s. scored fit df mo chosen d s \<longrightarrow> \<not> fgt s r"
    and first: "\<forall>d\<in>set pre. \<not> scored fit df mo chosen d r"
  shows "c0 = c"
proof -
  from fb obtain pre0 post0 where d0: "avail = pre0 @ c0 # post0"
    and sc0: "scored fit df mo chosen c0 r0"
    and before: "\<forall>d\<in>set pre0. \<forall>s. scored fit df mo chosen d s \<longrightarrow> s = NaN \<or> fgt r0 s"
    unfolding first_best_def by blast
  have nn: "r \<noteq> NaN" "r0 \<noteq> NaN" using r r0 fgt_not_nan by blast+
  have "c \<in> set avail" using dec by simp
  with mx0 sc have a: "\<not> fgt r r0" by blast
  have "c0 \<in> set avail" using d0 by simp
  with mx sc0 have b: "\<not> fgt r0 r" by blast
  from fgt_total [OF nn a] b have eq: "r = r0" by blast
  from dec d0 have "pre @ c # post = pre0 @ c0 # post0" by simp
  then obtain us where us: "(pre = pre0 @ us \<and> us @ c # post = c0 # post0) \<or>
      (pre @ us = pre0 \<and> c # post = us @ c0 # post0)"
    unfolding append_eq_append_conv2 by blast
  show ?thesis
  proof (cases us)
    case Nil
    with us show ?thesis by auto
  next
    case (Cons u us')
    from us show ?thesis
    proof
      assume h: "pre = pre0 @ us \<and> us @ c # post = c0 # post0"
      with Cons have "c0 \<in> set pre" by auto
      with first have "\<not> scored fit df mo chosen c0 r" by blast
      with sc0 eq show ?thesis by simp
    next
      assume h: "pre @ us = pre0 \<and> c # post = us @ c0 # post0"
      with Cons have "c \<in> set pre0" by auto
      with before sc have "r = NaN \<or> fgt r0 r" by blast
      with nn eq fgt_irrefl show ?thesis by auto
    qed
  qed
qed

lemma greedy_round_adds_first_best:
  assumes run: "greedy_rounds fit df mo avail (Suc k) chosen = Inr out"
    and dec: "avail = pre @ c # post"
    and sc: "scored fit df mo chosen c r"
    and r: "fgt r NegInf"
    and mx: "\<forall>d\<in>set avail. \<forall>s. scored fit df mo chosen d s \<longrightarrow> \<not> fgt s r"
    and first: "\<forall>d\<in>set pre. \<not> scored fit df mo chosen d r"
  shows "\<exists>rest. out = chosen @ c # rest"
proof (cases "scan_candidates fit df mo chosen avail (NegInf, None)")
  case (Inl e)
  with run show ?thesis by simp
next
  case (Inr st)
  obtain r0 rc where st: "st = (r0, rc)" by (cases st)
  note start = scan_from_start [OF Inr [unfolded st]]
  have cin: "c \<in> set avail" using dec by simp
  show ?thesis
  proof (cases rc)
    case None
    with start have "no_winner fit df mo avail chosen" by simp
    with cin sc r show ?thesis unfolding no_winner_def by blast
  next
    case (Some c0)
    with start have "round_winner fit df mo avail chosen c0" by simp
    then obtain r1 where w: "first_best fit df mo chosen avail r1 c0" "fgt r1 NegInf"
      "\<forall>d\<in>set avail. \<forall>s. scored fit df mo chosen d s \<longrightarrow> \<not> fgt s r1"
      unfolding round_winner_def by blast
    have "c0 = c" by (rule round_winner_unique [OF w(1) w(3) w(2) dec sc r mx first])
    with Inr st Some run have "greedy_rounds fit df mo avail k (chosen @ [c]) = Inr out" by simp
    from greedy_rounds_prefix [OF this] show ?thesis by auto
  qed
qed

lemma greedy_round_added_is_first_best:
  assumes run: "greedy_rounds fit df mo avail (Suc k) chosen = Inr (chosen @ c # rest)"
  shows "\<exists>pre post r. avail = pre @ c # post \<and> scored fit df mo chosen c r \<and> fgt r NegInf \<and>
           (\<forall>d\<in>set avail. \<forall>s. scored fit df mo chosen d s \<longrightarrow> \<not> fgt s r) \<and>
           (\<forall>d\<in>set pre. \<not> scored fit df mo chosen d r)"
proof (cases "scan_candidates fit df mo chosen avail (NegInf, None)")
  case (Inl e)
  with run show ?thesis by simp
next
  case (Inr st)
  obtain r0 rc where st: "st = (r0, rc)" by (cases st)
  note start = scan_from_start [OF Inr [unfolded st]]
  show ?thesis
  proof (cases rc)
    case None
    with Inr st run show ?thesis by simp
  next
    case (Some c0)
    with Inr st run have "greedy_rounds fit df mo avail k (chosen @ [c0]) = Inr (chosen @ c # rest)"
      by simp
    from greedy_rounds_prefix [OF this] have c0: "c0 = c" by auto
    from start Some c0 have "round_winner fit df mo avail chosen c" by simp
    then obtain r where w: "first_best fit df mo chosen avail r c" "fgt r NegInf"
      "\<forall>d\<in>set avail. \<forall>s. scored fit df mo chosen d s \<longrightarrow> \<not> fgt s r"
      unfolding round_winner_def by blast
    from w(1) obtain pre post where p: "avail = pre @ c # post" "scored fit df mo chosen c r"
      "\<forall>d\<in>set pre. \<forall>s. scored fit df mo chosen d s \<longrightarrow> s = NaN \<or> fgt r s"
      unfolding first_best_def by blast
    have nn: "r \<noteq> NaN" using w(2) fgt_not_nan by blast
    have "\<forall>d\<in>set pre. \<not> scored fit df mo chosen d r"
      using p(3) nn fgt_irrefl by blast
    with p(1,2) w(2,3) show ?thesis by blast
  qed
qed

lemma ols_adj_r2_total: "fits_nonempty ols_adj_r2"
  by (simp add: fits_nonempty_def ols_adj_r2_def Let_def split: prod.splits)

text \<open>
  C1 (as amended). A run of the selector that returns is a greedy run: starting from the
  empty chosen set and for at most \<open>max_factors\<close> rounds, each round adds a candidate of
  largest adjusted R-squared among the eligible, not yet chosen candidates whose trial set
  has at least \<open>min_obs\<close> complete rows, and the rounds stop early when no candidate has a
  score above minus infinity (in particular when no trial set can be fitted). When fewer
  than \<open>min_factors\<close> factors were chosen, the result is the first \<open>min_factors\<close>
  eligible candidates in list order (all of them when there are fewer), which replaces the
  chosen set. The selector returns whenever the frame has a \<open>fund_excess\<close> column,
  \<open>min_obs\<close> is positive and the fit raises nothing on a non-empty sample. Eligible
  means: a column of the frame with strictly more than \<open>min_obs\<close> non-missing cells; a
  trial is fitted on the rows in which \<open>fund_excess\<close> and every trial column are present.
\<close>

theorem pick_best_model_greedy:
  "(pick_best_model fit s df cands mo mnf mxf = Inr res \<longrightarrow>
      (\<exists>chosen. greedy_spec fit df mo (available df cands mo) (nat mxf) [] chosen \<and>
         res = (if int (length chosen) < mnf then take (nat mnf) (available df cands mo)
                else chosen))) \<and>
   (map_of df ''fund_excess'' \<noteq> None \<and> 0 < mo \<and> fits_nonempty fit \<longrightarrow>
      (\<exists>out. pick_best_model fit s df cands mo mnf mxf = Inr out)) \<and>
   set (available df cands mo) =
     {c \<in> set cands. \<exists>col. map_of df c = Some col \<and> mo < notna_sum col} \<and>
   (scored fit df mo chosen' c s' \<longleftrightarrow>
      c \<notin> set chosen' \<and>
      (\<exists>cols. select_columns df (''fund_excess'' # chosen' @ [c]) = Inr cols \<and>
         mo \<le> int (n_rows (dropna cols)) \<and>
         fit (hd (dropna cols)) (tl (dropna cols)) = Inr s')) \<and>
   ((\<forall>col\<in>set cols'. length col = n_rows cols') \<longrightarrow>
      dropna cols' = map (\<lambda>col. map (\<lambda>i. the (col ! i)) (complete_rows cols')) cols')"
proof (intro conjI impI)
  assume run: "pick_best_model fit s df cands mo mnf mxf = Inr res"
  let ?avail = "available df cands mo"
  from run obtain chosen where ch: "greedy_rounds fit df mo ?avail (nat mxf) [] = Inr chosen"
    and res: "res = (if int (length chosen) < mnf
                     then (if mnf \<le> int (length ?avail) then take (nat mnf) ?avail else ?avail)
                     else chosen)"
    by (auto simp: pick_best_model_def Let_def split: sum.splits)
  have "(if mnf \<le> int (length ?avail) then take (nat mnf) ?avail else ?avail) = take (nat mnf) ?avail"
    by simp
  with res have "res = (if int (length chosen) < mnf then take (nat mnf) ?avail else chosen)"
    by simp
  with greedy_rounds_spec [OF ch]
  show "\<exists>chosen. greedy_spec fit df mo ?avail (nat mxf) [] chosen \<and>
         res = (if int (length chosen) < mnf then take (nat mnf) ?avail else chosen)"
    by blast
next
  assume "map_of df ''fund_excess'' \<noteq> None \<and> 0 < mo \<and> fits_nonempty fit"
  then show "\<exists>out. pick_best_model fit s df cands mo mnf mxf = Inr out"
    using pick_best_model_total [of df mo fit s cands mnf mxf]
    unfolding fits_nonempty_def by blast
next
  show "set (available df cands mo) =
     {c \<in> set cands. \<exists>col. map_of df c = Some col \<and> mo < notna_sum col}"
    by (rule set_available)
next
  show "scored fit df mo chosen' c s' \<longleftrightarrow>
      c \<notin> set chosen' \<and>
      (\<exists>cols. select_columns df (''fund_excess'' # chosen' @ [c]) = Inr cols \<and>
         mo \<le> int (n_rows (dropna cols)) \<and>
         fit (hd (dropna cols)) (tl (dropna cols)) = Inr s')"
    by (rule scored_iff)
next
  assume "\<forall>col\<in>set cols'. length col = n_rows cols'"
  then show "dropna cols' = map (\<lambda>col. map (\<lambda>i. the (col ! i)) (complete_rows cols')) cols'"
    by (rule dropna_complete_rows)
qed

text \<open>
  Two rounds on a table without missing values, with the least-squares fit: the first round
  compares three scores and keeps \<open>a\<close>, the last candidate of the list; the second
  compares the two remaining candidates and adds \<open>c\<close>.
\<close>

theorem pick_best_model_greedy_witness:
  "pick_best_model ols_adj_r2 [] dense_frame [''b'', ''c'', ''a''] 3 1 2 = Inr [''a'', ''c''] \<and>
   (\<exists>chosen. greedy_spec ols_adj_r2 dense_frame 3
        (available dense_frame [''b'', ''c'', ''a''] 3) (nat 2) [] chosen \<and>
      [''a'', ''c''] = (if int (length chosen) < 1
                 then take (nat 1) (available dense_frame [''b'', ''c'', ''a''] 3)
                 else chosen)) \<and>
   scored ols_adj_r2 dense_frame 3 [] ''b'' (Fin (- (107 / 333))) \<and>
   scored ols_adj_r2 dense_frame 3 [] ''c'' (Fin (909 / 1369)) \<and>
   scored ols_adj_r2 dense_frame 3 [] ''a'' (Fin (91 / 111)) \<and>
   scored ols_adj_r2 dense_frame 3 [''a''] ''b'' (Fin (469 / 555)) \<and>
   scored ols_adj_r2 dense_frame 3 [''a''] ''c'' (Fin (15489 / 17279)) \<and>
   map_of dense_frame ''fund_excess'' \<noteq> None \<and> (0 :: int) < 3 \<and> fits_nonempty ols_adj_r2 \<and>
   list_all (\<lambda>col. length col = n_rows [[Some (1::real), None], [Some 2, Some 3]])
      [[Some (1::real), None], [Some 2, Some 3]] \<and>
   dropna [[Some (1::real), None], [Some 2, Some 3]] =
     map (\<lambda>col. map (\<lambda>i. the (col ! i)) (complete_rows [[Some (1::real), None], [Some 2, Some 3]]))
       [[Some (1::real), None], [Some 2, Some 3]]"
proof -
  have run: "pick_best_model ols_adj_r2 [] dense_frame [''b'', ''c'', ''a''] 3 1 2 = Inr [''a'', ''c'']"
    by (simp add: frame_eval fit_eval eval_nat_numeral)
  have s1: "scored ols_adj_r2 dense_frame 3 [] ''b'' (Fin (- (107 / 333)))"
    by (simp add: scored_def frame_eval fit_eval)
  have s2: "scored ols_adj_r2 dense_frame 3 [] ''c'' (Fin (909 / 1369))"
    by (simp add: scored_def frame_eval fit_eval)
  have s3: "scored ols_adj_r2 dense_frame 3 [] ''a'' (Fin (91 / 111))"
    by (simp add: scored_def frame_eval fit_eval)
  have s4: "scored ols_adj_r2 dense_frame 3 [''a''] ''b'' (Fin (469 / 555))"
    by (simp add: scored_def frame_eval fit_eval)
  have s5: "scored ols_adj_r2 dense_frame 3 [''a''] ''c'' (Fin (15489 / 17279))"
    by (simp add: scored_def frame_eval fit_eval)
  have col: "map_of dense_frame ''fund_excess'' \<noteq> None"
    by (simp add: dense_frame_def)
  have len: "\<forall>col\<in>set [[Some (1::real), None], [Some 2, Some 3]].
      length col = n_rows [[Some (1::real), None], [Some 2, Some 3]]"
    by (simp add: n_rows_def)
  have la: "list_all (\<lambda>col. length col = n_rows [[Some (1::real), None], [Some 2, Some 3]])
      [[Some (1::real), None], [Some 2, Some 3]]"
    by (simp add: n_rows_def)
  have pos: "(0 :: int) < 3" by simp
  from pick_best_model_greedy [of ols_adj_r2 "[]" dense_frame "[''b'', ''c'', ''a'']" 3 1 2
      "[''a'', ''c'']" _ _ _ "[[Some (1::real), None], [Some 2, Some 3]]"]
    run col ols_adj_r2_total len la pos s1 s2 s3 s4 s5
  show ?thesis by blast
qed

text \<open>
  C1 as stated fails where it says that padding keeps the chosen factors. On the frame
  below the first round compares \<open>d\<close> (adjusted R-squared 166/175) with \<open>e\<close> (23/50)
  and keeps \<open>d\<close>; no second factor has a complete row in common with it, so the rounds
  stop. With \<open>min_factors = 3\<close> the result is the first three eligible candidates, and
  \<open>d\<close> is not among them.
\<close>

theorem pick_best_model_pad_counterexample:
  "scored ols_adj_r2 sparse_frame 3 [] ''d'' (Fin (166 / 175)) \<and>
   scored ols_adj_r2 sparse_frame 3 [] ''e'' (Fin (23 / 50)) \<and>
   greedy_rounds ols_adj_r2 sparse_frame 3
      (available sparse_frame [''a'', ''b'', ''c'', ''d'', ''e''] 3) (nat 5) [] = Inr [''d''] \<and>
   pick_best_model ols_adj_r2 [] sparse_frame [''a'', ''b'', ''c'', ''d'', ''e''] 3 3 5 =
     Inr [''a'', ''b'', ''c''] \<and>
   ''d'' \<notin> set [''a'', ''b'', ''c'']"
proof -
  have s1: "scored ols_adj_r2 sparse_frame 3 [] ''d'' (Fin (166 / 175))"
    by (simp add: scored_def frame_eval fit_eval)
  have s2: "scored ols_adj_r2 sparse_frame 3 [] ''e'' (Fin (23 / 50))"
    by (simp add: scored_def frame_eval fit_eval)
  have g: "greedy_rounds ols_adj_r2 sparse_frame 3
      (available sparse_frame [''a'', ''b'', ''c'', ''d'', ''e''] 3) (nat 5) [] = Inr [''d'']"
    by (simp add: frame_eval fit_eval eval_nat_numeral)
  have p: "pick_best_model ols_adj_r2 [] sparse_frame [''a'', ''b'', ''c'', ''d'', ''e''] 3 3 5 =
     Inr [''a'', ''b'', ''c'']"
    by (simp add: frame_eval fit_eval eval_nat_numeral)
  from s1 s2 g p show ?thesis by simp
qed

lemma greedy_round_without_winner:
  assumes run: "greedy_rounds fit df mo avail (Suc k) chosen = Inr out"
    and none: "\<forall>d\<in>set avail. \<forall>s. scored fit df mo chosen d s \<longrightarrow> \<not> fgt s NegInf"
  shows "out = chosen"
proof (cases "scan_candidates fit df mo chosen avail (NegInf, None)")
  case (Inl e)
  with run show ?thesis by simp
next
  case (Inr st)
  obtain r0 rc where st: "st = (r0, rc)" by (cases st)
  note start = scan_from_start [OF Inr [unfolded st]]
  show ?thesis
  proof (cases rc)
    case None
    with Inr st run show ?thesis by simp
  next
    case (Some c0)
    with start have "round_winner fit df mo avail chosen c0" by simp
    then obtain r where w: "first_best fit df mo chosen avail r c0" "fgt r NegInf"
      unfolding round_winner_def by blast
    from w(1) have "c0 \<in> set avail" "scored fit df mo chosen c0 r"
      unfolding first_best_def by auto
    with none w(2) show ?thesis by blast
  qed
qed

text \<open>
  C2 (as amended). The result of the selector is determined by the \<open>fund_excess\<close> column
  and the candidate columns of the table, the candidate list, the thresholds and the caps:
  two runs on tables that agree on these columns return the same list, whatever is passed
  as \<open>fund_excess\<close>. In a round that starts from \<open>chosen\<close>, a candidate whose score is
  above minus infinity, is exceeded by no candidate of the round and is attained by no
  candidate earlier in the iteration order is the one appended to the chosen list, and the
  appended candidate always is of this kind: of the candidates that tie at the largest
  score, the first encountered is retained. For the first round this is the head of the
  chosen list, which is the head of the returned list unless fewer than \<open>min_factors\<close>
  factors were chosen. When no candidate of the round scores above minus infinity, none is
  retained and the rounds stop.
\<close>

theorem greedy_deterministic_first_wins:
  "((\<forall>n\<in>set (''fund_excess'' # cands). map_of df n = map_of df' n) \<longrightarrow>
      pick_best_model fit s1 df cands mo mnf mxf = pick_best_model fit s2 df' cands mo mnf mxf) \<and>
   (greedy_rounds fit df mo avail (Suc k) chosen = Inr out \<and>
    avail = pre @ c # post \<and> scored fit df mo chosen c r \<and> fgt r NegInf \<and>
    (\<forall>d\<in>set avail. \<forall>s. scored fit df mo chosen d s \<longrightarrow> \<not> fgt s r) \<and>
    (\<forall>d\<in>set pre. \<not> scored fit df mo chosen d r) \<longrightarrow>
      (\<exists>rest. out = chosen @ c # rest)) \<and>
   (greedy_rounds fit df mo avail (Suc k) chosen = Inr (chosen @ c # rest') \<longrightarrow>
      (\<exists>pre post r. avail = pre @ c # post \<and> scored fit df mo chosen c r \<and> fgt r NegInf \<and>
         (\<forall>d\<in>set avail. \<forall>s. scored fit df mo chosen d s \<longrightarrow> \<not> fgt s r) \<and>
         (\<forall>d\<in>set pre. \<not> scored fit df mo chosen d r))) \<and>
   (pick_best_model fit s1 df cands mo mnf mxf = Inr res \<and> 0 < mxf \<and>
    available df cands mo = pre1 @ c1 # post1 \<and> scored fit df mo [] c1 r1 \<and> fgt r1 NegInf \<and>
    (\<forall>d\<in>set (available df cands mo). \<forall>s. scored fit df mo [] d s \<longrightarrow> \<not> fgt s r1) \<and>
    (\<forall>d\<in>set pre1. \<not> scored fit df mo [] d r1) \<longrightarrow>
      (\<exists>rest. greedy_rounds fit df mo (available df cands mo) (nat mxf) [] = Inr (c1 # rest) \<and>
         (mnf \<le> 1 + int (length rest) \<longrightarrow> res = c1 # rest))) \<and>
   (greedy_rounds fit df mo avail2 (Suc k2) chosen2 = Inr out2 \<and>
    (\<forall>d\<in>set avail2. \<forall>s. scored fit df mo chosen2 d s \<longrightarrow> \<not> fgt s NegInf) \<longrightarrow>
      out2 = chosen2)"
proof -
  have p1: "(\<forall>n\<in>set (''fund_excess'' # cands). map_of df n = map_of df' n) \<longrightarrow>
      pick_best_model fit s1 df cands mo mnf mxf = pick_best_model fit s2 df' cands mo mnf mxf"
    using pick_best_model_cong by blast
  have p2: "greedy_rounds fit df mo avail (Suc k) chosen = Inr out \<and>
    avail = pre @ c # post \<and> scored fit df mo chosen c r \<and> fgt r NegInf \<and>
    (\<forall>d\<in>set avail. \<forall>s. scored fit df mo chosen d s \<longrightarrow> \<not> fgt s r) \<and>
    (\<forall>d\<in>set pre. \<not> scored fit df mo chosen d r) \<longrightarrow>
      (\<exists>rest. out = chosen @ c # rest)"
    using greedy_round_adds_first_best [of fit df mo avail k chosen out pre c post r] by blast
  have p3: "greedy_rounds fit df mo avail (Suc k) chosen = Inr (chosen @ c # rest') \<longrightarrow>
      (\<exists>pre post r. avail = pre @ c # post \<and> scored fit df mo chosen c r \<and> fgt r NegInf \<and>
         (\<forall>d\<in>set avail. \<forall>s. scored fit df mo chosen d s \<longrightarrow> \<not> fgt s r) \<and>
         (\<forall>d\<in>set pre. \<not> scored fit df mo chosen d r))"
    using greedy_round_added_is_first_best [of fit df mo avail k chosen c rest'] by blast
  have p4: "pick_best_model fit s1 df cands mo mnf mxf = Inr res \<and> 0 < mxf \<and>
    available df cands mo = pre1 @ c1 # post1 \<and> scored fit df mo [] c1 r1 \<and> fgt r1 NegInf \<and>
    (\<forall>d\<in>set (available df cands mo). \<forall>s. scored fit df mo [] d s \<longrightarrow> \<not> fgt s r1) \<and>
    (\<forall>d\<in>set pre1. \<not> scored fit df mo [] d r1) \<longrightarrow>
      (\<exists>rest. greedy_rounds fit df mo (available df cands mo) (nat mxf) [] = Inr (c1 # rest) \<and>
         (mnf \<le> 1 + int (length rest) \<longrightarrow> res = c1 # rest))"
  proof
    let ?avail = "available df cands mo"
    assume a: "pick_best_model fit s1 df cands mo mnf mxf = Inr res \<and> 0 < mxf \<and>
      ?avail = pre1 @ c1 # post1 \<and> scored fit df mo [] c1 r1 \<and> fgt r1 NegInf \<and>
      (\<forall>d\<in>set ?avail. \<forall>s. scored fit df mo [] d s \<longrightarrow> \<not> fgt s r1) \<and>
      (\<forall>d\<in>set pre1. \<not> scored fit df mo [] d r1)"
    then obtain chosen where ch: "greedy_rounds fit df mo ?avail (nat mxf) [] = Inr chosen"
      and res: "res = (if int (length chosen) < mnf
                     then (if mnf \<le> int (length ?avail) then take (nat mnf) ?avail else ?avail)
                     else chosen)"
      by (auto simp: pick_best_model_def Let_def split: sum.splits)
    from a obtain k' where k': "nat mxf = Suc k'" by (cases "nat mxf") auto
    from a have dec: "?avail = pre1 @ c1 # post1" and sc: "scored fit df mo [] c1 r1"
      and r: "fgt r1 NegInf"
      and mx: "\<forall>d\<in>set ?avail. \<forall>s. scored fit df mo [] d s \<longrightarrow> \<not> fgt s r1"
      and first: "\<forall>d\<in>set pre1. \<not> scored fit df mo [] d r1" by simp_all
    from greedy_round_adds_first_best [OF ch [unfolded k'] dec sc r mx first]
    obtain rest where rest: "chosen = c1 # rest" by auto
    have "mnf \<le> 1 + int (length rest) \<longrightarrow> res = c1 # rest"
      using res rest by simp
    with ch rest
    show "\<exists>rest. greedy_rounds fit df mo ?avail (nat mxf) [] = Inr (c1 # rest) \<and>
         (mnf \<le> 1 + int (length rest) \<longrightarrow> res = c1 # rest)" by blast
  qed
  have p5: "greedy_rounds fit df mo avail2 (Suc k2) chosen2 = Inr out2 \<and>
    (\<forall>d\<in>set avail2. \<forall>s. scored fit df mo chosen2 d s \<longrightarrow> \<not> fgt s NegInf) \<longrightarrow>
      out2 = chosen2"
    using greedy_round_without_winner [of fit df mo avail2 k2 chosen2 out2] by blast
  from p1 p2 p3 p4 p5 show ?thesis by (intro conjI)
qed

text \<open>
  Two candidates with equal scores, after a candidate with a smaller score: the first of
  the two is retained, and a column that is not a candidate changes nothing.
\<close>

theorem greedy_deterministic_first_wins_witness:
  "list_all (\<lambda>n. map_of tie_frame n = map_of ((''q'', [None, None, None, None]) # tie_frame) n)
      (''fund_excess'' # [''z'', ''a'', ''b'']) \<and>
   pick_best_model ols_adj_r2 [] tie_frame [''z'', ''a'', ''b''] 3 1 1 =
     pick_best_model ols_adj_r2 [Some 7] ((''q'', [None, None, None, None]) # tie_frame)
       [''z'', ''a'', ''b''] 3 1 1 \<and>
   pick_best_model ols_adj_r2 [] tie_frame [''z'', ''a'', ''b''] 3 1 1 = Inr [''a''] \<and>
   greedy_rounds ols_adj_r2 tie_frame 3 [''z'', ''a'', ''b''] (Suc 0) [] = Inr [''a''] \<and>
   available tie_frame [''z'', ''a'', ''b''] 3 = [''z''] @ ''a'' # [''b''] \<and>
   scored ols_adj_r2 tie_frame 3 [] ''z'' (Fin (- (1 / 5))) \<and>
   scored ols_adj_r2 tie_frame 3 [] ''a'' (Fin (23 / 50)) \<and>
   scored ols_adj_r2 tie_frame 3 [] ''b'' (Fin (23 / 50)) \<and>
   fgt (Fin (23 / 50)) NegInf \<and>
   list_all (\<lambda>d. \<forall>s. scored ols_adj_r2 tie_frame 3 [] d s \<longrightarrow> \<not> fgt s (Fin (23 / 50)))
      [''z'', ''a'', ''b''] \<and>
   list_all (\<lambda>d. \<not> scored ols_adj_r2 tie_frame 3 [] d (Fin (23 / 50))) [''z''] \<and>
   (\<exists>rest. [''a''] = [] @ ''a'' # rest) \<and>
   greedy_rounds ols_adj_r2 tie_frame 3 [''z'', ''a'', ''b''] (Suc 0) [] = Inr ([] @ ''a'' # []) \<and>
   (\<exists>pre post r. [''z'', ''a'', ''b''] = pre @ ''a'' # post \<and>
      scored ols_adj_r2 tie_frame 3 [] ''a'' r \<and> fgt r NegInf \<and>
      (\<forall>d\<in>set [''z'', ''a'', ''b'']. \<forall>s. scored ols_adj_r2 tie_frame 3 [] d s \<longrightarrow> \<not> fgt s r) \<and>
      (\<forall>d\<in>set pre. \<not> scored ols_adj_r2 tie_frame 3 [] d r)) \<and>
   (\<exists>rest. greedy_rounds ols_adj_r2 tie_frame 3 (available tie_frame [''z'', ''a'', ''b''] 3)
        (nat 1) [] = Inr (''a'' # rest) \<and>
      (1 \<le> 1 + int (length rest) \<longrightarrow> [''a''] = ''a'' # rest)) \<and>
   greedy_rounds ols_adj_r2 flat_frame 2 [''a'', ''b''] (Suc 4) [] = Inr [] \<and>
   list_all (\<lambda>d. \<forall>s. scored ols_adj_r2 flat_frame 2 [] d s \<longrightarrow> \<not> fgt s NegInf)
      [''a'', ''b'']"
proof -
  let ?df' = "(''q'', [None, None, None, None]) # tie_frame"
  have agree: "list_all (\<lambda>n. map_of tie_frame n = map_of ?df' n)
      (''fund_excess'' # [''z'', ''a'', ''b''])"
    by (simp add: tie_frame_def)
  then have agree': "\<forall>n\<in>set (''fund_excess'' # [''z'', ''a'', ''b'']). map_of tie_frame n = map_of ?df' n"
    by (simp add: list_all_iff)
  have run: "pick_best_model ols_adj_r2 [] tie_frame [''z'', ''a'', ''b''] 3 1 1 = Inr [''a'']"
    by (simp add: frame_eval fit_eval)
  have av: "available tie_frame [''z'', ''a'', ''b''] 3 = [''z''] @ ''a'' # [''b'']"
    by (simp add: frame_eval)
  have g: "greedy_rounds ols_adj_r2 tie_frame 3 [''z'', ''a'', ''b''] (Suc 0) [] = Inr [''a'']"
    by (simp add: frame_eval fit_eval)
  have g': "greedy_rounds ols_adj_r2 tie_frame 3 [''z'', ''a'', ''b''] (Suc 0) [] = Inr ([] @ ''a'' # [])"
    using g by simp
  have d: "[''z'', ''a'', ''b''] = [''z''] @ ''a'' # [''b'']" by simp
  have sz: "scored ols_adj_r2 tie_frame 3 [] ''z'' (Fin (- (1 / 5)))"
    by (simp add: scored_def frame_eval fit_eval)
  have sa: "scored ols_adj_r2 tie_frame 3 [] ''a'' (Fin (23 / 50))"
    by (simp add: scored_def frame_eval fit_eval)
  have sb: "scored ols_adj_r2 tie_frame 3 [] ''b'' (Fin (23 / 50))"
    by (simp add: scored_def frame_eval fit_eval)
  have f: "fgt (Fin (23 / 50)) NegInf" by simp
  have mx: "list_all (\<lambda>d. \<forall>s. scored ols_adj_r2 tie_frame 3 [] d s \<longrightarrow> \<not> fgt s (Fin (23 / 50)))
      [''z'', ''a'', ''b'']"
    by (simp add: scored_def frame_eval fit_eval)
  then have mx': "\<forall>d\<in>set [''z'', ''a'', ''b'']. \<forall>s. scored ols_adj_r2 tie_frame 3 [] d s \<longrightarrow>
      \<not> fgt s (Fin (23 / 50))"
    unfolding list_all_iff .
  have fi: "list_all (\<lambda>d. \<not> scored ols_adj_r2 tie_frame 3 [] d (Fin (23 / 50))) [''z'']"
    by (simp add: scored_def frame_eval fit_eval)
  then have fi': "\<forall>d\<in>set [''z'']. \<not> scored ols_adj_r2 tie_frame 3 [] d (Fin (23 / 50))"
    unfolding list_all_iff .
  have pos: "(0 :: int) < 1" by simp
  note inst = greedy_deterministic_first_wins [of "[''z'', ''a'', ''b'']" tie_frame ?df'
      ols_adj_r2 "[]" 3 1 1 "[Some 7]" "[''z'', ''a'', ''b'']" 0 "[]" "[''a'']" "[''z'']" "''a''"
      "[''b'']" "Fin (23 / 50)" "[]" "[''a'']" "[''z'']" "''a''" "[''b'']" "Fin (23 / 50)"]
  from inst agree' have c1: "pick_best_model ols_adj_r2 [] tie_frame [''z'', ''a'', ''b''] 3 1 1 =
     pick_best_model ols_adj_r2 [Some 7] ?df' [''z'', ''a'', ''b''] 3 1 1" by blast
  from inst g d sa f mx' fi' have c2: "\<exists>rest. [''a''] = [] @ ''a'' # rest" by blast
  have mxa: "\<forall>d\<in>set (available tie_frame [''z'', ''a'', ''b''] 3).
      \<forall>s. scored ols_adj_r2 tie_frame 3 [] d s \<longrightarrow> \<not> fgt s (Fin (23 / 50))"
    using mx' av by simp
  from inst run pos av sa f mxa fi'
  have c4: "\<exists>rest. greedy_rounds ols_adj_r2 tie_frame 3 (available tie_frame [''z'', ''a'', ''b''] 3)
        (nat 1) [] = Inr (''a'' # rest) \<and>
      (1 \<le> 1 + int (length rest) \<longrightarrow> [''a''] = ''a'' # rest)"
    by blast
  from inst g'
  have c3: "\<exists>pre post r. [''z'', ''a'', ''b''] = pre @ ''a'' # post \<and>
      scored ols_adj_r2 tie_frame 3 [] ''a'' r \<and> fgt r NegInf \<and>
      (\<forall>d\<in>set [''z'', ''a'', ''b'']. \<forall>s. scored ols_adj_r2 tie_frame 3 [] d s \<longrightarrow> \<not> fgt s r) \<and>
      (\<forall>d\<in>set pre. \<not> scored ols_adj_r2 tie_frame 3 [] d r)"
    by blast
  have g5: "greedy_rounds ols_adj_r2 flat_frame 2 [''a'', ''b''] (Suc 4) [] = Inr []"
    by (simp add: frame_eval fit_eval eval_nat_numeral)
  have n5: "list_all (\<lambda>d. \<forall>s. scored ols_adj_r2 flat_frame 2 [] d s \<longrightarrow> \<not> fgt s NegInf)
      [''a'', ''b'']"
    by (simp add: scored_def frame_eval fit_eval)
  from agree c1 run g av sz sa sb f mx fi c2 g' c3 c4 g5 n5 show ?thesis by (intro conjI)
qed

text \<open>
  C2 as stated fails for a tie at minus infinity. The fund's excess return is constant, so
  both candidates score minus infinity; the comparison \<open>ar2 > best_r2\<close> with
  \<open>best_r2 = -inf\<close> is false for both, the round retains neither, and the selector
  returns the empty list.
\<close>

theorem greedy_tie_at_minus_infinity_counterexample:
  "available flat_frame [''a'', ''b''] 2 = [''a'', ''b''] \<and>
   scored ols_adj_r2 flat_frame 2 [] ''a'' NegInf \<and>
   scored ols_adj_r2 flat_frame 2 [] ''b'' NegInf \<and>
   scan_candidates ols_adj_r2 flat_frame 2 [] [''a'', ''b''] (NegInf, None) = Inr (NegInf, None) \<and>
   greedy_rounds ols_adj_r2 flat_frame 2 [''a'', ''b''] (nat 5) [] = Inr [] \<and>
   pick_best_model ols_adj_r2 [] flat_frame [''a'', ''b''] 2 0 5 = Inr []"
proof -
  have av: "available flat_frame [''a'', ''b''] 2 = [''a'', ''b'']"
    by (simp add: frame_eval)
  have sa: "scored ols_adj_r2 flat_frame 2 [] ''a'' NegInf"
    by (simp add: scored_def frame_eval fit_eval)
  have sb: "scored ols_adj_r2 flat_frame 2 [] ''b'' NegInf"
    by (simp add: scored_def frame_eval fit_eval)
  have sc: "scan_candidates ols_adj_r2 flat_frame 2 [] [''a'', ''b''] (NegInf, None) = Inr (NegInf, None)"
    by (simp add: frame_eval fit_eval)
  have g: "greedy_rounds ols_adj_r2 flat_frame 2 [''a'', ''b''] (nat 5) [] = Inr []"
    by (simp add: frame_eval fit_eval eval_nat_numeral)
  have p: "pick_best_model ols_adj_r2 [] flat_frame [''a'', ''b''] 2 0 5 = Inr []"
    by (simp add: frame_eval fit_eval eval_nat_numeral)
  from av sa sb sc g p show ?thesis by (intro conjI)
qed

text \<open>
  C10. The result of the selector does not depend on its \<open>fund_excess\<close> argument: the
  dependent variable of every trial fit is read from the frame's \<open>fund_excess\<close> column.
\<close>

theorem pick_best_model_ignores_fund_excess:
  "pick_best_model fit s1 candidate_df all_candidates min_obs min_factors max_factors =
   pick_best_model fit s2 candidate_df all_candidates min_obs min_factors max_factors"
  by (simp add: pick_best_model_def)

section \<open>Properties of the summary statistics\<close>

lemma rint_close: "\<bar>of_int (rint y) - y\<bar> \<le> 1 / 2"
proof -
  have "of_int \<lfloor>y\<rfloor> \<le> y" "y < of_int \<lfloor>y\<rfloor> + 1" by linarith+
  then show ?thesis by (auto simp: rint_def Let_def)
qed

lemma rint_eqI: "of_int k - 1 / 2 < y \<Longrightarrow> y < of_int k + 1 / 2 \<Longrightarrow> rint y = k"
proof -
  assume a: "of_int k - 1 / 2 < y" "y < of_int k + 1 / 2"
  have f: "of_int \<lfloor>y\<rfloor> \<le> y" "y < of_int \<lfloor>y\<rfloor> + 1" by linarith+
  have "\<lfloor>y\<rfloor> = k \<or> \<lfloor>y\<rfloor> = k - 1" using a f by linarith
  then show ?thesis
  proof
    assume "\<lfloor>y\<rfloor> = k"
    then show ?thesis using a by (simp add: rint_def Let_def)
  next
    assume e: "\<lfloor>y\<rfloor> = k - 1"
    then have "1 / 2 < y - of_int \<lfloor>y\<rfloor>" using a by simp
    then show ?thesis using e by (simp add: rint_def Let_def)
  qed
qed

lemma round_dec_close: "\<bar>round_dec k x - x\<bar> \<le> 1 / (2 * 10 ^ k)"
proof -
  have p: "(0::real) < 10 ^ k" by simp
  have "\<bar>round_dec k x - x\<bar> = \<bar>of_int (rint (x * 10 ^ k)) - x * 10 ^ k\<bar> / 10 ^ k"
    using p by (simp add: round_dec_def field_simps abs_divide)
  also have "\<dots> \<le> (1 / 2) / 10 ^ k"
    by (rule divide_right_mono [OF rint_close]) simp
  finally show ?thesis by simp
qed

lemma geo_ret_power:
  assumes "0 < n" "0 \<le> growth rs"
  shows "\<exists>g. geo_ret rs n = Inr (Some g) \<and> - 1 \<le> g \<and> (1 + g) ^ n = growth rs"
proof -
  have "geo_ret rs n = Inr (Some (root n (growth rs) - 1))"
    using assms by (simp add: geo_ret_def pow_recip_def fsub_def)
  moreover have "0 \<le> root n (growth rs)" using assms by simp
  moreover have "(1 + (root n (growth rs) - 1)) ^ n = growth rs"
    using assms by (simp add: real_root_pow_pos2)
  ultimately show ?thesis by force
qed

lemma stats_each_rows:
  "stats_each sd n rf dfc = Inr tbl \<Longrightarrow>
   list_all2 (\<lambda>(c, xs) (c', row). c' = c \<and> (\<exists>r. asset_stats sd n rf xs = Inr r \<and> row = round_row r)) dfc tbl"
proof (induction dfc arbitrary: tbl)
  case Nil
  then show ?case by simp
next
  case (Cons a dfc)
  obtain c xs where a: "a = (c, xs)" by (cases a)
  from Cons.prems obtain r rs where r: "asset_stats sd n rf xs = Inr r"
    and rs: "stats_each sd n rf dfc = Inr rs" and tbl: "tbl = (c, round_row r) # rs"
    unfolding a by (auto split: sum.splits)
  from Cons.IH [OF rs] r show ?case by (simp add: a tbl)
qed

lemma stats_each_total:
  "0 < n \<Longrightarrow> \<exists>tbl. stats_each sd n rf dfc = Inr tbl"
proof (induction dfc)
  case Nil
  then show ?case by simp
next
  case (Cons a dfc)
  obtain c xs where a: "a = (c, xs)" by (cases a)
  from Cons.prems have "\<exists>g. geo_ret xs n = Inr g"
    by (cases "growth xs < 0 \<and> n \<noteq> 1") (simp_all add: geo_ret_def pow_recip_def)
  then obtain g where "geo_ret xs n = Inr g" ..
  then obtain r where "asset_stats sd n rf xs = Inr r"
    by (simp add: asset_stats_def Let_def)
  with Cons show ?case by (auto simp: a)
qed

lemma select_columns_eq:
  "\<forall>c\<in>set cs. map_of df c \<noteq> None \<Longrightarrow>
   select_columns df cs = Inr (map (\<lambda>c. the (map_of df c)) cs)"
  by (induction cs) auto

lemma stats_cols_in_frame: "c \<in> set (stats_cols df) \<Longrightarrow> map_of df c \<noteq> None"
  by (auto simp: stats_cols_def has_column_def map_of_eq_None_iff)

lemma wf_frame_column:
  assumes "wf_frame df" "map_of df c = Some col"
  shows "length col = frame_rows df"
proof -
  from assms(2) have "(c, col) \<in> set df" by (rule map_of_SomeD)
  then have "col \<in> set (map snd df)" by force
  with assms(1) show ?thesis unfolding wf_frame_def by blast
qed

lemma stats_columns_lengths:
  assumes "wf_frame df"
  shows "\<forall>col\<in>set (map (\<lambda>c. the (map_of df c)) (stats_cols df)).
           length col = n_rows (map (\<lambda>c. the (map_of df c)) (stats_cols df))"
proof -
  have each: "\<And>c. c \<in> set (stats_cols df) \<Longrightarrow> length (the (map_of df c)) = frame_rows df"
  proof -
    fix c assume "c \<in> set (stats_cols df)"
    then obtain col where "map_of df c = Some col" using stats_cols_in_frame by blast
    with wf_frame_column [OF assms this] show "length (the (map_of df c)) = frame_rows df" by simp
  qed
  show ?thesis
  proof (cases "stats_cols df")
    case Nil
    then show ?thesis by simp
  next
    case (Cons c0 cs)
    then have "n_rows (map (\<lambda>c. the (map_of df c)) (stats_cols df)) = frame_rows df"
      using each [of c0] by (simp add: n_rows_def)
    with each show ?thesis by simp
  qed
qed

lemma stats_clean_retained:
  assumes "wf_frame df"
  shows "stats_clean df = Inr (map (\<lambda>c. (c, retained df c)) (stats_cols df))"
proof -
  let ?cs = "map (\<lambda>c. the (map_of df c)) (stats_cols df)"
  have sel: "select_columns df (stats_cols df) = Inr ?cs"
    by (rule select_columns_eq) (simp add: stats_cols_in_frame)
  have dn: "dropna ?cs = map (\<lambda>col. map (\<lambda>i. the (col ! i)) (complete_rows ?cs)) ?cs"
    by (rule dropna_complete_rows [OF stats_columns_lengths [OF assms]])
  have "zip (stats_cols df) (dropna ?cs) = map (\<lambda>c. (c, retained df c)) (stats_cols df)"
    unfolding dn retained_def complete_periods_def
    by (simp add: zip_map2 zip_same_conv_map comp_def)
  with sel show ?thesis by (simp add: stats_clean_def)
qed

lemma length_retained: "length (retained df c) = length (complete_periods df)"
  by (simp add: retained_def)

lemma stats_n_retained:
  "stats_cols df \<noteq> [] \<Longrightarrow>
   stats_n df (map (\<lambda>c. (c, retained df c)) (stats_cols df)) = length (complete_periods df)"
  by (cases "stats_cols df") (simp_all add: stats_n_def n_rows_def length_retained)

lemma map_of_keyed: "map_of (map (\<lambda>c. (c, f c)) cs) k = (if k \<in> set cs then Some (f k) else None)"
  by (induction cs) auto

lemma list_all2_keyed:
  "list_all2 (\<lambda>(c, xs) y. P c xs y) (map (\<lambda>c. (c, f c)) cs) ys = list_all2 (\<lambda>c y. P c (f c) y) cs ys"
  by (simp add: list_all2_map1)

lemma stats_table_rows:
  assumes "wf_frame df" "stats_table sd df rf_col = Inr tbl"
  shows "rf_col \<in> set (stats_cols df) \<and> 0 < length (complete_periods df) \<and>
     list_all2 (\<lambda>c (c', row). c' = c \<and>
         (\<exists>r. asset_stats sd (length (complete_periods df)) (retained df rf_col) (retained df c) = Inr r \<and>
              row = round_row r))
       (stats_cols df) tbl"
proof -
  let ?dfc = "map (\<lambda>c. (c, retained df c)) (stats_cols df)"
  let ?n = "length (complete_periods df)"
  note clean = stats_clean_retained [OF assms(1)]
  have ne: "stats_cols df \<noteq> []"
  proof
    assume "stats_cols df = []"
    with assms(2) clean show False by (simp add: stats_table_def Let_def)
  qed
  have n: "stats_n df ?dfc = ?n" by (rule stats_n_retained [OF ne])
  have dne: "?dfc \<noteq> []" using ne by simp
  have pos: "0 < ?n"
  proof (rule ccontr)
    assume "\<not> 0 < ?n"
    then have "stats_n df ?dfc = 0" using n by simp
    with assms(2) clean dne show False by (simp add: stats_table_def Let_def)
  qed
  have rf: "rf_col \<in> set (stats_cols df)"
  proof (rule ccontr)
    assume "rf_col \<notin> set (stats_cols df)"
    then have "map_of ?dfc rf_col = None" by (simp add: map_of_keyed)
    with assms(2) clean show False by (simp add: stats_table_def Let_def split: if_splits)
  qed
  then have "map_of ?dfc rf_col = Some (retained df rf_col)" by (simp add: map_of_keyed)
  with assms(2) clean n pos have "stats_each sd ?n (retained df rf_col) ?dfc = Inr tbl"
    by (simp add: stats_table_def Let_def)
  from stats_each_rows [OF this]
  have "list_all2 (\<lambda>c (c', row). c' = c \<and>
         (\<exists>r. asset_stats sd ?n (retained df rf_col) (retained df c) = Inr r \<and> row = round_row r))
       (stats_cols df) tbl"
    by (simp add: list_all2_map1 case_prod_unfold)
  with rf pos show ?thesis by simp
qed

lemma stats_table_total:
  assumes "wf_frame df" "rf_col \<in> set (stats_cols df)" "0 < length (complete_periods df)"
  shows "\<exists>tbl. stats_table sd df rf_col = Inr tbl"
proof -
  let ?dfc = "map (\<lambda>c. (c, retained df c)) (stats_cols df)"
  let ?n = "length (complete_periods df)"
  note clean = stats_clean_retained [OF assms(1)]
  have ne: "stats_cols df \<noteq> []" using assms(2) by auto
  have n: "stats_n df ?dfc = ?n" by (rule stats_n_retained [OF ne])
  have m: "map_of ?dfc rf_col = Some (retained df rf_col)" using assms(2) by (simp add: map_of_keyed)
  obtain tbl where "stats_each sd ?n (retained df rf_col) ?dfc = Inr tbl"
    using stats_each_total [OF assms(3)] by blast
  with clean n m assms(3) show ?thesis by (simp add: stats_table_def Let_def)
qed

lemma notna_simps: "notna (Some x)" "\<not> notna None"
  by (simp_all add: notna_def)

lemmas stats_eval = stats_table_def stats_clean_def stats_cols_def asset_names_def has_column_def
  dropna_def complete_mask_def and_mask_def keep_rows_def n_rows_def notna_simps stats_n_def
  asset_stats_def round_row_def reported_def geo_ret_def pow_recip_def growth_def fsub_def fround_def

lemma root_gt: "0 < n \<Longrightarrow> 0 \<le> a \<Longrightarrow> a ^ n < x \<Longrightarrow> a < root n x"
proof -
  assume a: "0 < n" "0 \<le> a" "a ^ n < x"
  then have "root n (a ^ n) < root n x" by (simp add: real_root_less_mono)
  then show ?thesis using a by (simp add: real_root_power_cancel)
qed

lemma root_lt: "0 < n \<Longrightarrow> 0 \<le> a \<Longrightarrow> x < a ^ n \<Longrightarrow> root n x < a"
proof -
  assume a: "0 < n" "0 \<le> a" "x < a ^ n"
  then have "root n x < root n (a ^ n)" by (simp add: real_root_less_mono)
  then show ?thesis using a by (simp add: real_root_power_cancel)
qed

lemma example_root_bounds:
  "104115 / 100000 < root 3 (5643 / 5000)" "root 3 (5643 / 5000) < 104125 / 100000"
proof -
  show "104115 / 100000 < root 3 (5643 / 5000)"
    by (rule root_gt) (simp_all add: power3_eq_cube)
  show "root 3 (5643 / 5000) < 104125 / 100000"
    by (rule root_lt) (simp_all add: power3_eq_cube)
qed

lemma example_round: "round_dec 4 (root 3 (5643 / 5000) - 1) = 412 / 10000"
proof -
  have "rint ((root 3 (5643 / 5000) - 1) * 10 ^ 4) = 412"
    by (rule rint_eqI) (use example_root_bounds in simp_all)
  then show ?thesis by (simp add: round_dec_def)
qed

lemma example_reported:
  "map_option Annualized_Return (reported (stats_table sd example_returns ''TBill'') ''SP500'') =
     Some (Some (412 / 10000))"
proof -
  have "map_option Annualized_Return (reported (stats_table sd example_returns ''TBill'') ''SP500'') =
     Some (Some (round_dec 4 (root 3 (5643 / 5000) - 1)))"
    by (simp add: stats_eval example_returns_def Let_def numeral_3_eq_3)
  then show ?thesis by (simp only: example_round)
qed

lemma root2_121: "root 2 (121 / 100) = 11 / 10"
proof -
  have "root 2 ((11 / 10) ^ 2) = (11 / 10 :: real)"
    by (rule real_root_power_cancel) simp_all
  then show ?thesis by (simp add: power2_eq_square)
qed

lemma round_dec_tenth: "round_dec 4 (1 / 10) = 1 / 10"
  by (simp add: round_dec_def rint_def)

lemma round_dec_zero: "round_dec 4 0 = 0"
  by (simp add: round_dec_def rint_def)

lemma full_reported:
  "map_option Annualized_Return (reported (stats_table sd frame_full ''TBill'') ''SP500'') =
     Some (Some (1 / 10))"
proof -
  have "map_option Annualized_Return (reported (stats_table sd frame_full ''TBill'') ''SP500'') =
     Some (Some (round_dec 4 (root 2 (121 / 100) - 1)))"
    by (simp add: stats_eval frame_full_def Let_def numeral_2_eq_2)
  then show ?thesis by (simp add: root2_121 round_dec_tenth)
qed

lemma gap_reported:
  "map_option Annualized_Return (reported (stats_table sd frame_gap ''TBill'') ''SP500'') =
     Some (Some 0)"
  by (simp add: stats_eval frame_gap_def Let_def round_dec_zero)

lemma annualized_row:
  assumes "asset_stats sd n rf xs = Inr r" "0 \<le> growth xs"
  shows "\<exists>g. - 1 \<le> g \<and> (1 + g) ^ n = growth xs \<and> Annualized_Return r = Some g"
proof -
  from assms(1) have n: "0 < n"
    by (cases "n = 0") (simp_all add: asset_stats_def geo_ret_def pow_recip_def)
  from geo_ret_power [OF n assms(2)] obtain g where
    g: "geo_ret xs n = Inr (Some g)" "- 1 \<le> g" "(1 + g) ^ n = growth xs" by blast
  from assms(1) g(1) have "Annualized_Return r = Some g"
    by (auto simp: asset_stats_def Let_def)
  with g show ?thesis by blast
qed

text \<open>
  C3 (as amended). For every asset column of a well-formed table, with \<open>n\<close> retained
  periods of returns whose compounded product of \<open>1 + r\<close> is not negative, the annualized
  return reported by \<open>stats_table\<close> is the geometric mean \<open>g\<close> (the \<open>g \<ge> -1\<close> with
  \<open>(1 + g) ^ n\<close> equal to the product) rounded to four decimals, hence within
  \<open>0.00005\<close> of it. For the annual returns 0.10, -0.05, 0.08 the reported value is 0.0412.
\<close>

theorem stats_table_annualized_return:
  "(wf_frame df \<and> stats_table sd df rf_col = Inr tbl \<longrightarrow>
      list_all2 (\<lambda>c (c', row). c' = c \<and>
          (0 \<le> growth (retained df c) \<longrightarrow>
             (\<exists>g. - 1 \<le> g \<and> (1 + g) ^ length (retained df c) = growth (retained df c) \<and>
                  Annualized_Return row = Some (round_dec 4 g) \<and>
                  \<bar>round_dec 4 g - g\<bar> \<le> 1 / 20000)))
        (stats_cols df) tbl) \<and>
   map_option Annualized_Return (reported (stats_table sd example_returns ''TBill'') ''SP500'') =
     Some (Some (412 / 10000))"
proof (intro conjI impI)
  assume a: "wf_frame df \<and> stats_table sd df rf_col = Inr tbl"
  then have wf: "wf_frame df" and run: "stats_table sd df rf_col = Inr tbl" by simp_all
  note rows = stats_table_rows [OF wf run]
  from rows have l2: "list_all2 (\<lambda>c (c', row). c' = c \<and>
         (\<exists>r. asset_stats sd (length (complete_periods df)) (retained df rf_col) (retained df c) = Inr r \<and>
              row = round_row r))
       (stats_cols df) tbl" by simp
  show "list_all2 (\<lambda>c (c', row). c' = c \<and>
          (0 \<le> growth (retained df c) \<longrightarrow>
             (\<exists>g. - 1 \<le> g \<and> (1 + g) ^ length (retained df c) = growth (retained df c) \<and>
                  Annualized_Return row = Some (round_dec 4 g) \<and>
                  \<bar>round_dec 4 g - g\<bar> \<le> 1 / 20000)))
        (stats_cols df) tbl"
  proof (rule list_all2_mono [OF l2])
    fix c y
    assume h: "case y of (c', row) \<Rightarrow> c' = c \<and>
         (\<exists>r. asset_stats sd (length (complete_periods df)) (retained df rf_col) (retained df c) = Inr r \<and>
              row = round_row r)"
    obtain c' row where y: "y = (c', row)" by (cases y)
    from h y obtain r where c: "c' = c"
      and r: "asset_stats sd (length (complete_periods df)) (retained df rf_col) (retained df c) = Inr r"
      and row: "row = round_row r" by auto
    have "0 \<le> growth (retained df c) \<longrightarrow>
             (\<exists>g. - 1 \<le> g \<and> (1 + g) ^ length (retained df c) = growth (retained df c) \<and>
                  Annualized_Return row = Some (round_dec 4 g) \<and>
                  \<bar>round_dec 4 g - g\<bar> \<le> 1 / 20000)"
    proof
      assume nn: "0 \<le> growth (retained df c)"
      from annualized_row [OF r nn] obtain g where g: "- 1 \<le> g"
        "(1 + g) ^ length (complete_periods df) = growth (retained df c)"
        "Annualized_Return r = Some g" by blast
      have "Annualized_Return row = Some (round_dec 4 g)"
        using g(3) by (simp add: row round_row_def fround_def)
      moreover have "\<bar>round_dec 4 g - g\<bar> \<le> 1 / 20000"
        using round_dec_close [of 4 g] by simp
      ultimately show "\<exists>g. - 1 \<le> g \<and> (1 + g) ^ length (retained df c) = growth (retained df c) \<and>
                  Annualized_Return row = Some (round_dec 4 g) \<and>
                  \<bar>round_dec 4 g - g\<bar> \<le> 1 / 20000"
        using g(1,2) by (auto simp: length_retained)
    qed
    then show "case y of (c', row) \<Rightarrow> c' = c \<and>
          (0 \<le> growth (retained df c) \<longrightarrow>
             (\<exists>g. - 1 \<le> g \<and> (1 + g) ^ length (retained df c) = growth (retained df c) \<and>
                  Annualized_Return row = Some (round_dec 4 g) \<and>
                  \<bar>round_dec 4 g - g\<bar> \<le> 1 / 20000))"
      by (simp add: y c)
  qed
next
  show "map_option Annualized_Return (reported (stats_table sd example_returns ''TBill'') ''SP500'') =
     Some (Some (412 / 10000))"
    by (rule example_reported)
qed

lemma example_wf: "wf_frame example_returns"
  by (simp add: wf_frame_def example_returns_def frame_rows_def)

lemma example_cols: "stats_cols example_returns = [''SP500'', ''TBill'']"
  by (simp add: stats_cols_def asset_names_def has_column_def example_returns_def)

lemma example_periods: "complete_periods example_returns = [0, 1, 2]"
  unfolding complete_periods_def example_cols
  by (simp add: complete_rows_def n_rows_def example_returns_def notna_simps eval_nat_numeral)

lemma example_runs: "\<exists>tbl. stats_table sd example_returns ''TBill'' = Inr tbl"
  by (rule stats_table_total [OF example_wf]) (simp_all add: example_cols example_periods)

text \<open>
  The table of the worked example satisfies the hypotheses and is reported on.
\<close>

theorem stats_table_annualized_return_witness:
  "wf_frame example_returns \<and>
   (\<exists>tbl. stats_table sample_std example_returns ''TBill'' = Inr tbl \<and>
      list_all2 (\<lambda>c (c', row). c' = c \<and>
          (0 \<le> growth (retained example_returns c) \<longrightarrow>
             (\<exists>g. - 1 \<le> g \<and>
                  (1 + g) ^ length (retained example_returns c) = growth (retained example_returns c) \<and>
                  Annualized_Return row = Some (round_dec 4 g) \<and>
                  \<bar>round_dec 4 g - g\<bar> \<le> 1 / 20000)))
        (stats_cols example_returns) tbl) \<and>
   retained example_returns ''SP500'' = [10 / 100, - 5 / 100, 8 / 100] \<and>
   0 \<le> growth (retained example_returns ''SP500'')"
proof -
  from example_runs obtain tbl where run: "stats_table sample_std example_returns ''TBill'' = Inr tbl" ..
  have ret: "retained example_returns ''SP500'' = [10 / 100, - 5 / 100, 8 / 100]"
    by (simp add: retained_def example_periods) (simp add: example_returns_def)
  have nn: "0 \<le> growth (retained example_returns ''SP500'')"
    unfolding ret by (simp add: growth_def)
  from stats_table_annualized_return [where df = example_returns and rf_col = "''TBill''"
      and tbl = tbl and sd = sample_std] example_wf run ret nn
  show ?thesis by blast
qed

text \<open>
  C3 as stated gives 0.0405 for the returns 0.10, -0.05, 0.08. The table reports 0.0412,
  and the exact geometric mean, the cube root of 1.1286 minus one, is more than 0.0005
  away from 0.0405.
\<close>

theorem stats_table_example_counterexample:
  "map_option Annualized_Return (reported (stats_table sample_std example_returns ''TBill'') ''SP500'') =
     Some (Some (412 / 10000)) \<and>
   geo_ret [10 / 100, - 5 / 100, 8 / 100] 3 = Inr (Some (root 3 (11286 / 10000) - 1)) \<and>
   \<not> \<bar>(root 3 (11286 / 10000) - 1) - 405 / 10000\<bar> \<le> 5 / 10000"
proof -
  have e: "(11286 / 10000 :: real) = 5643 / 5000" by simp
  have "geo_ret [10 / 100, - 5 / 100, 8 / 100] 3 = Inr (Some (root 3 (11286 / 10000) - 1))"
    by (simp add: geo_ret_def pow_recip_def growth_def fsub_def)
  moreover have "\<not> \<bar>(root 3 (11286 / 10000) - 1) - 405 / 10000\<bar> \<le> 5 / 10000"
    unfolding e using example_root_bounds(1) by simp
  ultimately show ?thesis using example_reported by simp
qed























lemma complete_periods_rows:
  assumes "wf_frame df" "stats_cols df \<noteq> []"
  shows "complete_periods df =
     filter (\<lambda>i. \<forall>c\<in>set (stats_cols df). notna (the (map_of df c) ! i)) [0..<frame_rows df]"
proof -
  obtain c0 cs where cols: "stats_cols df = c0 # cs" using assms(2) by (cases "stats_cols df") auto
  then have "c0 \<in> set (stats_cols df)" by simp
  then obtain col where col: "map_of df c0 = Some col" using stats_cols_in_frame by blast
  have "n_rows (map (\<lambda>c. the (map_of df c)) (stats_cols df)) = frame_rows df"
    using wf_frame_column [OF assms(1) col] by (simp add: cols n_rows_def col)
  then show ?thesis by (simp add: complete_periods_def complete_rows_def)
qed

text \<open>
  C5 (as amended). Missing-data handling in \<open>stats_table\<close> is listwise: the retained
  periods are those in which every asset column of the table is present, the same for all
  assets, and each asset's annualized return, volatility and Sharpe ratio are computed over
  these periods.
\<close>

theorem stats_table_listwise_deletion:
  "(wf_frame df \<and> stats_cols df \<noteq> [] \<longrightarrow>
      complete_periods df =
        filter (\<lambda>i. \<forall>c\<in>set (stats_cols df). notna (the (map_of df c) ! i)) [0..<frame_rows df]) \<and>
   (wf_frame df \<longrightarrow>
      stats_clean df = Inr (map (\<lambda>c. (c, retained df c)) (stats_cols df))) \<and>
   (wf_frame df \<and> stats_table sd df rf_col = Inr tbl \<longrightarrow>
      list_all2 (\<lambda>c (c', row). c' = c \<and>
          (\<exists>r. asset_stats sd (length (complete_periods df)) (retained df rf_col) (retained df c) = Inr r \<and>
               row = round_row r))
        (stats_cols df) tbl)"
proof (intro conjI impI)
  assume "wf_frame df \<and> stats_cols df \<noteq> []"
  then show "complete_periods df =
        filter (\<lambda>i. \<forall>c\<in>set (stats_cols df). notna (the (map_of df c) ! i)) [0..<frame_rows df]"
    using complete_periods_rows by blast
next
  assume "wf_frame df"
  then show "stats_clean df = Inr (map (\<lambda>c. (c, retained df c)) (stats_cols df))"
    by (rule stats_clean_retained)
next
  assume "wf_frame df \<and> stats_table sd df rf_col = Inr tbl"
  then have "wf_frame df" "stats_table sd df rf_col = Inr tbl" by simp_all
  from stats_table_rows [OF this]
  show "list_all2 (\<lambda>c (c', row). c' = c \<and>
          (\<exists>r. asset_stats sd (length (complete_periods df)) (retained df rf_col) (retained df c) = Inr r \<and>
               row = round_row r))
        (stats_cols df) tbl" by simp
qed

lemma gap_wf: "wf_frame frame_gap"
  by (simp add: wf_frame_def frame_gap_def frame_rows_def)

lemma gap_cols: "stats_cols frame_gap = [''SP500'', ''TBill'', ''Gold'']"
  by (simp add: stats_cols_def asset_names_def has_column_def frame_gap_def)

lemma gap_periods: "complete_periods frame_gap = [1]"
  unfolding complete_periods_def gap_cols
  by (simp add: complete_rows_def n_rows_def frame_gap_def notna_simps eval_nat_numeral)

lemma gap_runs: "\<exists>tbl. stats_table sd frame_gap ''TBill'' = Inr tbl"
  by (rule stats_table_total [OF gap_wf]) (simp_all add: gap_cols gap_periods)

text \<open>
  A table with one missing \<open>Gold\<close> value: a single period is retained for every asset.
\<close>

theorem stats_table_listwise_deletion_witness:
  "wf_frame frame_gap \<and> stats_cols frame_gap \<noteq> [] \<and>
   complete_periods frame_gap = [1] \<and>
   stats_clean frame_gap = Inr (map (\<lambda>c. (c, retained frame_gap c)) (stats_cols frame_gap)) \<and>
   retained frame_gap ''SP500'' = [0] \<and>
   (\<exists>tbl. stats_table sample_std frame_gap ''TBill'' = Inr tbl \<and>
      list_all2 (\<lambda>c (c', row). c' = c \<and>
          (\<exists>r. asset_stats sample_std (length (complete_periods frame_gap)) (retained frame_gap ''TBill'')
                  (retained frame_gap c) = Inr r \<and>
               row = round_row r))
        (stats_cols frame_gap) tbl)"
proof -
  from gap_runs obtain tbl where run: "stats_table sample_std frame_gap ''TBill'' = Inr tbl" ..
  have ne: "stats_cols frame_gap \<noteq> []" by (simp add: gap_cols)
  have ret: "retained frame_gap ''SP500'' = [0]"
    by (simp add: retained_def gap_periods) (simp add: frame_gap_def)
  from stats_table_listwise_deletion [where df = frame_gap and rf_col = "''TBill''"
      and tbl = tbl and sd = sample_std] gap_wf ne run gap_periods ret
  show ?thesis by blast
qed

text \<open>
  C5 as stated fails: two tables with the same \<open>SP500\<close> and \<open>TBill\<close> columns, differing
  only in a missing \<open>Gold\<close> value, report different annualized returns for \<open>SP500\<close>.
\<close>

theorem stats_table_per_asset_counterexample:
  "map_of frame_full ''SP500'' = map_of frame_gap ''SP500'' \<and>
   map_of frame_full ''TBill'' = map_of frame_gap ''TBill'' \<and>
   map_option Annualized_Return (reported (stats_table sample_std frame_full ''TBill'') ''SP500'') =
     Some (Some (1 / 10)) \<and>
   map_option Annualized_Return (reported (stats_table sample_std frame_gap ''TBill'') ''SP500'') =
     Some (Some 0)"
  using full_reported gap_reported by (simp add: frame_full_def frame_gap_def)

lemma growth_pos: "\<forall>r\<in>set rs. - 1 < r \<Longrightarrow> 0 < growth rs"
  by (induction rs) (simp_all add: growth_def mult_pos_pos)

lemma price_returns_above_minus_one:
  assumes "\<forall>x\<in>set p. (0::real) < x"
  shows "\<forall>r\<in>set (map (\<lambda>(a, b). a / b - 1) (zip (tl p) (butlast p))). - 1 < r"
proof
  fix r assume "r \<in> set (map (\<lambda>(a, b). a / b - 1) (zip (tl p) (butlast p)))"
  then obtain a b where ab: "(a, b) \<in> set (zip (tl p) (butlast p))" and r: "r = a / b - 1"
    by auto
  from ab have ta: "a \<in> set (tl p)" and bb: "b \<in> set (butlast p)"
    by (auto dest: set_zip_leftD set_zip_rightD)
  from ta have "a \<in> set p" by (cases p) simp_all
  moreover from bb have "b \<in> set p" by (rule in_set_butlastD)
  ultimately have "a \<in> set p" "b \<in> set p" by simp_all
  with assms have "0 < a" "0 < b" by blast+
  then have "0 < a / b" by simp
  then show "- 1 < r" by (simp add: r)
qed

lemma vt_from_prices_recompounds:
  assumes "vt_from_prices p = Inr v" "0 \<le> terminal_per_dollar v"
  shows "terminal_per_dollar v = growth (annual_returns v) \<and>
      n_years v = length (annual_returns v) \<and>
      (\<exists>g. annualised_return v = Some g \<and> (1 + g) ^ n_years v = terminal_per_dollar v)"
proof -
  let ?rets = "map (\<lambda>(a, b). a / b - 1) (zip (tl p) (butlast p))"
  from assms(1) have len: "\<not> length p < 2" and nz: "0 \<notin> set (butlast p)"
    by (auto simp: vt_from_prices_def split: if_splits)
  from assms(1) len nz obtain ann where ann: "geo_ret ?rets (length ?rets) = Inr ann"
    and v: "v = \<lparr>annual_returns = ?rets, n_years = length ?rets,
                 terminal_per_dollar = growth ?rets, annualised_return = ann\<rparr>"
    by (auto simp: vt_from_prices_def Let_def split: sum.splits)
  have pos: "0 < length ?rets" using len by simp
  from assms(2) v have "0 \<le> growth ?rets" by simp
  from geo_ret_power [OF pos this] ann
  have "\<exists>g. ann = Some g \<and> (1 + g) ^ length ?rets = growth ?rets" by auto
  then show ?thesis by (simp add: v)
qed

lemma vt_from_prices_positive:
  assumes "2 \<le> length p" "\<forall>x\<in>set p. 0 < x"
  shows "\<exists>out. vt_from_prices p = Inr out \<and> 0 < terminal_per_dollar out"
proof -
  let ?rets = "map (\<lambda>(a, b). a / b - 1) (zip (tl p) (butlast p))"
  from assms(1) have len: "\<not> length p < 2" by simp
  have nz: "0 \<notin> set (butlast p)"
  proof
    assume "0 \<in> set (butlast p)"
    then have "0 \<in> set p" by (rule in_set_butlastD)
    with assms(2) show False by auto
  qed
  have gp: "0 < growth ?rets"
    by (rule growth_pos [OF price_returns_above_minus_one [OF assms(2)]])
  have pos: "0 < length ?rets" using len by simp
  from geo_ret_power [OF pos] gp obtain g where "geo_ret ?rets (length ?rets) = Inr (Some g)"
    by force
  with len nz gp show ?thesis
    by (simp add: vt_from_prices_def Let_def)
qed

text \<open>
  C8 (as amended). For a return series of \<open>n \<ge> 1\<close> periods whose compounded product of
  \<open>1 + r\<close> is not negative, the annualized return \<open>g\<close> computed by geometric compounding
  satisfies \<open>(1 + g) ^ n = product\<close> (exactly, over the reals): so for the unrounded value
  in \<open>stats_table\<close> and for the result of \<open>fetch_vt_annual_returns\<close>, whose terminal
  wealth is positive whenever the year-end prices are.
\<close>

theorem geometric_return_recompounds:
  "(rs \<noteq> [] \<and> 0 \<le> growth rs \<longrightarrow>
      (\<exists>g. geo_ret rs (length rs) = Inr (Some g) \<and> (1 + g) ^ length rs = growth rs)) \<and>
   (asset_stats sd n rf xs = Inr r \<and> 0 \<le> growth xs \<longrightarrow>
      (\<exists>g. Annualized_Return r = Some g \<and> (1 + g) ^ n = growth xs)) \<and>
   (vt_from_prices p = Inr v \<and> 0 \<le> terminal_per_dollar v \<longrightarrow>
      terminal_per_dollar v = growth (annual_returns v) \<and>
      n_years v = length (annual_returns v) \<and>
      (\<exists>g. annualised_return v = Some g \<and> (1 + g) ^ n_years v = terminal_per_dollar v)) \<and>
   (2 \<le> length p \<and> (\<forall>x\<in>set p. 0 < x) \<longrightarrow>
      (\<exists>out. vt_from_prices p = Inr out \<and> 0 < terminal_per_dollar out))"
proof -
  have p1: "rs \<noteq> [] \<and> 0 \<le> growth rs \<longrightarrow>
      (\<exists>g. geo_ret rs (length rs) = Inr (Some g) \<and> (1 + g) ^ length rs = growth rs)"
  proof
    assume "rs \<noteq> [] \<and> 0 \<le> growth rs"
    then have "0 < length rs" "0 \<le> growth rs" by simp_all
    from geo_ret_power [OF this]
    show "\<exists>g. geo_ret rs (length rs) = Inr (Some g) \<and> (1 + g) ^ length rs = growth rs" by blast
  qed
  have p2: "asset_stats sd n rf xs = Inr r \<and> 0 \<le> growth xs \<longrightarrow>
      (\<exists>g. Annualized_Return r = Some g \<and> (1 + g) ^ n = growth xs)"
  proof
    assume "asset_stats sd n rf xs = Inr r \<and> 0 \<le> growth xs"
    then have "asset_stats sd n rf xs = Inr r" "0 \<le> growth xs" by simp_all
    from annualized_row [OF this]
    show "\<exists>g. Annualized_Return r = Some g \<and> (1 + g) ^ n = growth xs" by blast
  qed
  have p3: "vt_from_prices p = Inr v \<and> 0 \<le> terminal_per_dollar v \<longrightarrow>
      terminal_per_dollar v = growth (annual_returns v) \<and>
      n_years v = length (annual_returns v) \<and>
      (\<exists>g. annualised_return v = Some g \<and> (1 + g) ^ n_years v = terminal_per_dollar v)"
    using vt_from_prices_recompounds [of p v] by blast
  have p4: "2 \<le> length p \<and> (\<forall>x\<in>set p. 0 < x) \<longrightarrow>
      (\<exists>out. vt_from_prices p = Inr out \<and> 0 < terminal_per_dollar out)"
    using vt_from_prices_positive [of p] by blast
  from p1 p2 p3 p4 show ?thesis by (intro conjI)
qed

text \<open>
  C8 as stated, for every return series, fails when the product is negative: for the
  returns -3 and 0 the product is -2, its square root is NaN, and no annualized return is
  produced.
\<close>

theorem geometric_return_negative_counterexample:
  "geo_ret [- 3, 0] (length [- 3, 0 :: real]) = Inr None \<and> growth [- 3, 0] = - 2"
  by (simp add: geo_ret_def pow_recip_def growth_def fsub_def)

text \<open>
  Two returns compounding to 1.21, and three year-end prices.
\<close>

theorem geometric_return_recompounds_witness:
  "[21 / 100, 0 :: real] \<noteq> [] \<and> 0 \<le> growth [21 / 100, 0] \<and>
   geo_ret [21 / 100, 0] (length [21 / 100, 0 :: real]) = Inr (Some (1 / 10)) \<and>
   (1 + 1 / 10) ^ length [21 / 100, 0 :: real] = growth [21 / 100, 0] \<and>
   2 \<le> length [100, 110, 121 :: real] \<and>
   (\<exists>out. vt_from_prices [100, 110, 121] = Inr out \<and> 0 < terminal_per_dollar out \<and>
      (\<exists>g. annualised_return out = Some g \<and> (1 + g) ^ n_years out = terminal_per_dollar out))"
proof -
  have g: "geo_ret [21 / 100, 0] (length [21 / 100, 0 :: real]) = Inr (Some (1 / 10))"
    by (simp add: geo_ret_def pow_recip_def growth_def fsub_def root2_121 numeral_2_eq_2 [symmetric])
  have gr: "0 \<le> growth [21 / 100, 0]" by (simp add: growth_def)
  have pw: "(1 + 1 / 10) ^ length [21 / 100, 0 :: real] = growth [21 / 100, 0]"
    by (simp add: growth_def power2_eq_square)
  have pr: "2 \<le> length [100, 110, 121 :: real] \<and> (\<forall>x\<in>set [100, 110, 121 :: real]. 0 < x)"
    by simp
  from geometric_return_recompounds [where p = "[100, 110, 121]", THEN conjunct2, THEN conjunct2,
      THEN conjunct2] pr
  obtain out where out: "vt_from_prices [100, 110, 121] = Inr out" "0 < terminal_per_dollar out"
    by blast
  from out(2) have nn: "0 \<le> terminal_per_dollar out" by simp
  from geometric_return_recompounds [where p = "[100, 110, 121]" and v = out, THEN conjunct2,
      THEN conjunct2, THEN conjunct1] out(1) nn
  have "\<exists>g. annualised_return out = Some g \<and> (1 + g) ^ n_years out = terminal_per_dollar out"
    by blast
  with g gr pw out show ?thesis by auto
qed

section \<open>Properties of the local file loaders\<close>

lemma month_end_idem: "month_end (month_end d) = month_end d"
  by (cases d) (simp add: month_end_def)

lemma set_map_filter: "set (List.map_filter f xs) = {y. \<exists>x\<in>set xs. f x = Some y}"
  by (induction xs) (auto simp: List.map_filter_simps split: option.splits)

lemma map_filter_id_set: "set (List.map_filter id xs) = {x. Some x \<in> set xs}"
  by (induction xs) (auto simp: List.map_filter_simps split: option.splits)

lemma group_keys_strict: "sorted_wrt (<) (group_keys month)"
  by (simp add: group_keys_def strict_sorted_iff)

lemma group_keys_month_end:
  assumes "d \<in> set (group_keys (map (map_option month_end) ds))"
  shows "month_end d = d"
proof -
  from assms have "Some d \<in> set (map (map_option month_end) ds)"
    by (simp add: group_keys_def map_filter_id_set)
  then obtain x where "Some d = map_option month_end x" by auto
  then obtain y where "d = month_end y" by (cases x) auto
  then show ?thesis by (simp add: month_end_idem)
qed

lemma map_insort_key: "map f (insort_key f x ys) = insort (f x) (map f ys)"
  by (induction ys) simp_all

lemma map_sort_key: "map f (sort_key f xs) = sort (map f xs)"
  by (induction xs) (simp_all add: map_insort_key)

lemma load_ff5_monthly_dates:
  assumes "load_ff5_monthly parse num_of ff = Inr out"
  shows "\<exists>ds. map fst out = group_keys (map (map_option month_end) ds)"
proof -
  from assms obtain dt ds cols where
    out: "out = sort_key fst
           (map (\<lambda>m. (m, map (\<lambda>col. compound (month_group m (map (map_option month_end) ds) col))
                         (map (map (to_numeric_coerce num_of)) cols)))
              (group_keys (map (map_option month_end) ds)))"
    by (auto simp: load_ff5_monthly_def Let_def split: option.splits sum.splits)
  let ?keys = "group_keys (map (map_option month_end) ds)"
  let ?tbl = "map (\<lambda>m. (m, map (\<lambda>col. compound (month_group m (map (map_option month_end) ds) col))
                         (map (map (to_numeric_coerce num_of)) cols))) ?keys"
  have fst_tbl: "map fst ?tbl = ?keys" by (simp add: comp_def)
  have "sorted (map fst ?tbl)"
    unfolding fst_tbl using group_keys_strict [of "map (map_option month_end) ds"]
    by (simp add: strict_sorted_iff)
  then have "sort_key fst ?tbl = ?tbl" by (rule sort_key_id_if_sorted)
  with out fst_tbl have "map fst out = ?keys" by simp
  then show ?thesis by blast
qed

lemma dropna_pairs_month_end:
  "(d, r) \<in> set (dropna_pairs (zip (map (map_option month_end) ds) rcol)) \<Longrightarrow> month_end d = d"
proof -
  assume "(d, r) \<in> set (dropna_pairs (zip (map (map_option month_end) ds) rcol))"
  then have "(Some d, r) \<in> set (zip (map (map_option month_end) ds) rcol)"
    by (fastforce simp: dropna_pairs_def set_map_filter split: option.splits if_splits)
  then have "Some d \<in> set (map (map_option month_end) ds)" by (rule set_zip_leftD)
  then obtain x where "Some d = map_option month_end x" by auto
  then obtain y where "d = month_end y" by (cases x) auto
  then show ?thesis by (simp add: month_end_idem)
qed

lemma fund_rows_month_end:
  assumes "fund_rows parse xlsx = Inr rows" "d \<in> set (map fst rows)"
  shows "month_end d = d"
proof -
  from assms(1) obtain ds rcol where
    "rows = dropna_pairs (zip (map (map_option month_end) ds) rcol)"
    by (auto simp: fund_rows_def Let_def split: option.splits sum.splits)
  with assms(2) dropna_pairs_month_end show ?thesis by fastforce
qed

text \<open>
  C9 (as amended). The output of \<open>load_ff5_monthly\<close> has strictly increasing month-end
  dates, no month twice. The output of \<open>load_fund_monthly_returns\<close> has the month-end dates
  of the sheet's rows that have both a date and a return, in non-decreasing order; they
  are strictly increasing exactly when no two such rows fall in the same month.
\<close>

theorem loaders_increasing_dates:
  "(load_ff5_monthly parse num_of ff = Inr out \<longrightarrow>
      sorted_wrt (<) (map fst out) \<and> list_all (\<lambda>d. month_end d = d) (map fst out)) \<and>
   (load_fund_monthly_returns parse xlsx = Inr res \<longrightarrow>
      (\<exists>rows. fund_rows parse xlsx = Inr rows \<and>
         map fst res = sort (map fst rows) \<and>
         sorted (map fst res) \<and>
         list_all (\<lambda>d. month_end d = d) (map fst res) \<and>
         (sorted_wrt (<) (map fst res) \<longleftrightarrow> distinct (map fst rows))))"
proof -
  have p1: "load_ff5_monthly parse num_of ff = Inr out \<longrightarrow>
      sorted_wrt (<) (map fst out) \<and> list_all (\<lambda>d. month_end d = d) (map fst out)"
  proof
    assume "load_ff5_monthly parse num_of ff = Inr out"
    from load_ff5_monthly_dates [OF this] obtain ds where
      k: "map fst out = group_keys (map (map_option month_end) ds)" ..
    show "sorted_wrt (<) (map fst out) \<and> list_all (\<lambda>d. month_end d = d) (map fst out)"
      unfolding k list_all_iff using group_keys_strict group_keys_month_end by blast
  qed
  have p2: "load_fund_monthly_returns parse xlsx = Inr res \<longrightarrow>
      (\<exists>rows. fund_rows parse xlsx = Inr rows \<and>
         map fst res = sort (map fst rows) \<and>
         sorted (map fst res) \<and>
         list_all (\<lambda>d. month_end d = d) (map fst res) \<and>
         (sorted_wrt (<) (map fst res) \<longleftrightarrow> distinct (map fst rows)))"
  proof
    assume run: "load_fund_monthly_returns parse xlsx = Inr res"
    then obtain rows where rows: "fund_rows parse xlsx = Inr rows" and res: "res = sort_key fst rows"
      by (auto simp: load_fund_monthly_returns_def split: sum.splits)
    have m: "map fst res = sort (map fst rows)" by (simp add: res map_sort_key)
    have s: "sorted (map fst res)" by (simp add: res)
    have "set (map fst res) = set (map fst rows)" by (simp add: res)
    then have e: "list_all (\<lambda>d. month_end d = d) (map fst res)"
      unfolding list_all_iff using fund_rows_month_end [OF rows] by blast
    have "distinct (map fst res) \<longleftrightarrow> distinct (map fst rows)"
      by (simp add: m)
    with s have "sorted_wrt (<) (map fst res) \<longleftrightarrow> distinct (map fst rows)"
      by (simp add: strict_sorted_iff)
    with rows m s e show "\<exists>rows. fund_rows parse xlsx = Inr rows \<and>
         map fst res = sort (map fst rows) \<and>
         sorted (map fst res) \<and>
         list_all (\<lambda>d. month_end d = d) (map fst res) \<and>
         (sorted_wrt (<) (map fst res) \<longleftrightarrow> distinct (map fst rows))"
      by blast
  qed
  from p1 p2 show ?thesis by (rule conjI)
qed

lemma char_evals:
  "lower ''Date'' = ''date''" "lower ''Return'' = ''return''"
  "strip ''Date'' = ''Date''" "strip '' Return '' = ''Return''" "strip ''Return'' = ''Return''"
  by (simp_all add: lower_def lower_char_def strip_def is_space_def)

lemma daily_rows:
  "load_fund_monthly_returns no_parse daily_sheet =
     Inr [((2020, 1, 31), Num (1 / 100)), ((2020, 1, 31), Num (2 / 100)), ((2020, 2, 29), Num (3 / 100))]"
  by (simp add: load_fund_monthly_returns_def fund_rows_def normalise_columns_def rename_return_def
      daily_sheet_def char_evals to_datetime_def dropna_pairs_def List.map_filter_simps
      month_end_def days_in_month_def leap_year_def Let_def)

lemmas loader_eval = load_fund_monthly_returns_def fund_rows_def normalise_columns_def
  rename_return_def char_evals to_datetime_def dropna_pairs_def List.map_filter_simps
  month_end_def days_in_month_def leap_year_def Let_def load_ff5_monthly_def factor_cols_def
  to_numeric_coerce_def group_keys_def month_group_def compound_def growth_def

lemma monthly_rows:
  "fund_rows no_parse monthly_sheet = Inr [((2020, 2, 29), Num (1 / 100)), ((2020, 1, 31), Num (2 / 100))]"
  by (simp add: loader_eval monthly_sheet_def)

lemma monthly_loaded:
  "load_fund_monthly_returns no_parse monthly_sheet =
     Inr [((2020, 1, 31), Num (2 / 100)), ((2020, 2, 29), Num (1 / 100))]"
  by (simp add: loader_eval monthly_sheet_def)

lemma ff_loaded:
  "load_ff5_monthly no_parse no_num ff_sheet =
     Inr [((2020, 1, 31), [21 / 100, 0, 0, 0, 0, 0]), ((2020, 2, 29), [0, 0, 0, 0, 0, 0])]"
  by (simp add: loader_eval ff_sheet_def)

text \<open>
  A daily factor file over two months and an unsorted monthly sheet.
\<close>

theorem loaders_increasing_dates_witness:
  "load_ff5_monthly no_parse no_num ff_sheet =
     Inr [((2020, 1, 31), [21 / 100, 0, 0, 0, 0, 0]), ((2020, 2, 29), [0, 0, 0, 0, 0, 0])] \<and>
   sorted_wrt (<) (map fst [((2020 :: nat, 1 :: nat, 31 :: nat), [21 / 100, 0, 0, 0, 0, 0 :: real]),
                            ((2020, 2, 29), [0, 0, 0, 0, 0, 0])]) \<and>
   load_fund_monthly_returns no_parse monthly_sheet =
     Inr [((2020, 1, 31), Num (2 / 100)), ((2020, 2, 29), Num (1 / 100))] \<and>
   fund_rows no_parse monthly_sheet =
     Inr [((2020, 2, 29), Num (1 / 100)), ((2020, 1, 31), Num (2 / 100))] \<and>
   distinct (map fst [((2020 :: nat, 2 :: nat, 29 :: nat), Num (1 / 100)), ((2020, 1, 31), Num (2 / 100))]) \<and>
   sorted_wrt (<) (map fst [((2020 :: nat, 1 :: nat, 31 :: nat), Num (2 / 100)), ((2020, 2, 29), Num (1 / 100))])"
proof -
  note inst = loaders_increasing_dates [of no_parse no_num ff_sheet _ monthly_sheet]
  from inst [THEN conjunct1] ff_loaded
  have a: "sorted_wrt (<) (map fst [((2020 :: nat, 1 :: nat, 31 :: nat), [21 / 100, 0, 0, 0, 0, 0 :: real]),
                            ((2020, 2, 29), [0, 0, 0, 0, 0, 0])])"
    by blast
  have d: "distinct (map fst [((2020 :: nat, 2 :: nat, 29 :: nat), Num (1 / 100)), ((2020, 1, 31), Num (2 / 100))])"
    by simp
  from inst [THEN conjunct2] monthly_loaded monthly_rows d
  have b: "sorted_wrt (<) (map fst [((2020 :: nat, 1 :: nat, 31 :: nat), Num (2 / 100)), ((2020, 2, 29), Num (1 / 100))])"
    by auto
  from a b d ff_loaded monthly_loaded monthly_rows show ?thesis by blast
qed

text \<open>
  C9 as stated fails for \<open>load_fund_monthly_returns\<close>: a sheet with two dated returns in
  January 2020 is loaded with the month end 2020-01-31 twice.
\<close>

theorem load_fund_duplicate_month_counterexample:
  "load_fund_monthly_returns no_parse daily_sheet =
     Inr [((2020, 1, 31), Num (1 / 100)), ((2020, 1, 31), Num (2 / 100)), ((2020, 2, 29), Num (3 / 100))] \<and>
   \<not> sorted_wrt (<) (map fst [((2020 :: nat, 1 :: nat, 31 :: nat), Num (1 / 100)),
        ((2020, 1, 31), Num (2 / 100)), ((2020, 2, 29), Num (3 / 100))])"
  using daily_rows by simp

section \<open>Properties of the regression diagnostics\<close>

lemma ssr_nonneg: "0 \<le> ssr y xc beta"
  unfolding ssr_def by (rule sum_list_nonneg) auto

lemma centered_tss_nonneg: "0 \<le> centered_tss y"
  unfolding centered_tss_def by (rule sum_list_nonneg) auto

lemma dot_zeros: "dot (replicate k 0) row = 0"
proof (induction k arbitrary: row)
  case 0
  show ?case by (simp add: dot_def)
next
  case (Suc k)
  show ?case
  proof (cases row)
    case Nil
    then show ?thesis by (simp add: dot_def)
  next
    case (Cons v vs)
    with Suc [of vs] show ?thesis by (simp add: dot_def)
  qed
qed

lemma ssr_mean_model:
  assumes "length x = length y"
  shows "ssr y (add_constant x) (m # replicate k 0) = sum_list (map (\<lambda>yi. (yi - m) ^ 2) y)"
proof -
  have d: "\<And>row. dot (m # replicate k 0) (1 # row) = m"
    using dot_zeros [of k] by (simp add: dot_def)
  have "map (\<lambda>(yi, row). (yi - dot (m # replicate k 0) row) ^ 2) (zip y (add_constant x)) =
        map (\<lambda>(yi, row). (yi - m) ^ 2) (zip y x)"
    by (simp add: add_constant_def zip_map2 comp_def case_prod_unfold d)
  also have "\<dots> = map (\<lambda>yi. (yi - m) ^ 2) (map fst (zip y x))"
    by (simp add: comp_def case_prod_unfold)
  also have "map fst (zip y x) = y" using assms by simp
  finally show ?thesis by (simp add: ssr_def)
qed

lemma r2_bounds:
  assumes "is_fit_ols y x model" "centered_tss y \<noteq> 0"
  shows "\<exists>r. rsquared model = Fin r \<and> 0 \<le> r \<and> r \<le> 1"
proof -
  let ?beta = "map snd (params model)"
  let ?s = "ssr y (add_constant x) ?beta"
  from assms(1) have len: "length x = length y"
    and ls: "\<forall>b. length b = length (params model) \<longrightarrow> ?s \<le> ssr y (add_constant x) b"
    and ne: "\<exists>a rest. params model = (''const'', a) # rest"
    and r: "centered_tss y \<noteq> 0 \<longrightarrow> rsquared model = Fin (1 - ?s / centered_tss y)"
    by (simp_all add: is_fit_ols_def)
  from ne obtain a rest where p: "params model = (''const'', a) # rest" by blast
  let ?b0 = "(sum_list y / real (length y)) # replicate (length rest) 0"
  have "length ?b0 = length (params model)" by (simp add: p)
  with ls have "?s \<le> ssr y (add_constant x) ?b0" by blast
  also have "\<dots> = centered_tss y"
    by (simp add: ssr_mean_model [OF len] centered_tss_def)
  finally have le: "?s \<le> centered_tss y" .
  have pos: "0 < centered_tss y" using centered_tss_nonneg [of y] assms(2) by simp
  have nn: "0 \<le> ?s" by (rule ssr_nonneg)
  have "0 \<le> 1 - ?s / centered_tss y" using le pos by (simp add: field_simps)
  moreover have "1 - ?s / centered_tss y \<le> 1" using nn pos by (simp add: field_simps)
  ultimately show ?thesis using r assms(2) by simp
qed

lemma diagnostics_r2:
  "regression_diagnostics sd model y x = Inr d \<Longrightarrow> r2 d = rsquared model"
  by (auto simp: regression_diagnostics_def Let_def split: sum.splits if_splits)

lemma diagnostics_returns:
  assumes "is_fit_ols y x model"
  shows "\<exists>d. regression_diagnostics sd model y x = Inr d"
proof -
  from assms have len: "length x = length y"
    and w: "\<forall>row\<in>set x. length row + 1 = length (params model)"
    by (simp_all add: is_fit_ols_def)
  have "predict model (add_constant x) = Inr (map (dot (map snd (params model))) (add_constant x))"
    using w by (auto simp: predict_def add_constant_def)
  then show ?thesis using len
    by (simp add: regression_diagnostics_def Let_def add_constant_def)
qed

text \<open>
  C7 (as amended). For every least-squares fit with an intercept whose dependent variable
  is not constant over the sample, \<open>regression_diagnostics\<close> returns a record whose
  \<open>r2\<close> is the model's R-squared, a finite number between 0 and 1.
\<close>

theorem regression_r2_in_unit_interval:
  "(is_fit_ols y x model \<and> centered_tss y \<noteq> 0 \<longrightarrow>
      (\<exists>d r. regression_diagnostics sd model y x = Inr d \<and> r2 d = Fin r \<and> 0 \<le> r \<and> r \<le> 1)) \<and>
   (regression_diagnostics sd model y x = Inr d' \<longrightarrow> r2 d' = rsquared model)"
proof -
  have p1: "is_fit_ols y x model \<and> centered_tss y \<noteq> 0 \<longrightarrow>
      (\<exists>d r. regression_diagnostics sd model y x = Inr d \<and> r2 d = Fin r \<and> 0 \<le> r \<and> r \<le> 1)"
  proof
    assume a: "is_fit_ols y x model \<and> centered_tss y \<noteq> 0"
    then obtain d where d: "regression_diagnostics sd model y x = Inr d"
      using diagnostics_returns by blast
    from a obtain r where "rsquared model = Fin r" "0 \<le> r" "r \<le> 1"
      using r2_bounds by blast
    with d diagnostics_r2 [OF d]
    show "\<exists>d r. regression_diagnostics sd model y x = Inr d \<and> r2 d = Fin r \<and> 0 \<le> r \<and> r \<le> 1"
      by auto
  qed
  have p2: "regression_diagnostics sd model y x = Inr d' \<longrightarrow> r2 d' = rsquared model"
    using diagnostics_r2 by blast
  from p1 p2 show ?thesis by (rule conjI)
qed

lemma line_fit_ok: "is_fit_ols [0, 1, 2] [[0], [1], [2]] line_fit"
proof -
  have z: "ssr [0, 1, 2] (add_constant [[0], [1], [2]]) [0, 1] = 0"
    by (simp add: ssr_def add_constant_def dot_def)
  have t: "centered_tss [0, 1, 2] = 2"
    by (simp add: centered_tss_def power2_eq_square)
  show ?thesis
    unfolding is_fit_ols_def using ssr_nonneg
    by (simp add: line_fit_def z t)
qed

lemma flat_fit_ok: "is_fit_ols [1, 1, 1] [[0], [1], [2]] flat_fit"
proof -
  have z: "ssr [1, 1, 1] (add_constant [[0], [1], [2]]) [1, 0] = 0"
    by (simp add: ssr_def add_constant_def dot_def)
  have t: "centered_tss [1, 1, 1] = 0"
    by (simp add: centered_tss_def)
  show ?thesis
    unfolding is_fit_ols_def using ssr_nonneg
    by (simp add: flat_fit_def z t)
qed

text \<open>
  A perfect fit of three points on a line.
\<close>

theorem regression_r2_in_unit_interval_witness:
  "is_fit_ols [0, 1, 2] [[0], [1], [2]] line_fit \<and> centered_tss [0, 1, 2] \<noteq> 0 \<and>
   length [0 :: real] + 2 \<le> length [0, 1, 2 :: real] \<and>
   (\<exists>d. regression_diagnostics sample_std line_fit [0, 1, 2] [[0], [1], [2]] = Inr d \<and>
      r2 d = Fin 1) \<and>
   (\<exists>d r. regression_diagnostics sample_std line_fit [0, 1, 2] [[0], [1], [2]] = Inr d \<and>
      r2 d = Fin r \<and> 0 \<le> r \<and> r \<le> 1)"
proof -
  have t: "centered_tss [0, 1, 2] \<noteq> 0"
    by (simp add: centered_tss_def power2_eq_square)
  have n: "length [0 :: real] + 2 \<le> length [0, 1, 2 :: real]" by simp
  note inst = regression_r2_in_unit_interval [where y = "[0, 1, 2]" and x = "[[0], [1], [2]]"
      and model = line_fit and sd = sample_std]
  from inst [THEN conjunct1] line_fit_ok t
  obtain d r where d: "regression_diagnostics sample_std line_fit [0, 1, 2] [[0], [1], [2]] = Inr d"
    "r2 d = Fin r" "0 \<le> r" "r \<le> 1" by blast
  from diagnostics_r2 [OF d(1)] have "r2 d = Fin 1" by (simp add: line_fit_def)
  with d line_fit_ok t n show ?thesis by blast
qed

text \<open>
  C7 as stated fails for a constant dependent variable, however many observations there
  are beyond the regressors: the centered total sum of squares is zero, and the R-squared
  that the fit of \<open>y = [1, 1, 1]\<close> on \<open>x = [0, 1, 2]\<close> reports and the diagnostics copy is
  minus infinity.
\<close>

theorem regression_r2_constant_counterexample:
  "is_fit_ols [1, 1, 1] [[0], [1], [2]] flat_fit \<and>
   length [0 :: real] + 2 \<le> length [1, 1, 1 :: real] \<and>
   centered_tss [1, 1, 1] = 0 \<and>
   map_sum id r2 (regression_diagnostics sample_std flat_fit [1, 1, 1] [[0], [1], [2]]) = Inr NegInf"
  using flat_fit_ok
  by (simp add: regression_diagnostics_def predict_def add_constant_def flat_fit_def Let_def
      centered_tss_def)
section \<open>Properties of the external factor fetch\<close>

lemma write_cache_other:
  "snd k \<noteq> name \<Longrightarrow> write_cache to_csv fs cache_dir name fetched k = fs k"
  by (cases k) (auto simp: write_cache_def split: option.splits sum.splits)

lemma cache_file_write_other:
  "name' \<noteq> name \<Longrightarrow>
   cache_file (write_cache to_csv fs cache_dir name fetched) cache_dir name' = cache_file fs cache_dir name'"
  by (simp add: cache_file_def write_cache_other split: option.splits)

lemma load_jkp_local_cong:
  "fs' (dd, ''jkp_theme_factors_monthly.csv'') = fs (dd, ''jkp_theme_factors_monthly.csv'') \<Longrightarrow>
   load_jkp_local read_csv fs' dd = load_jkp_local read_csv fs dd"
  by (simp add: load_jkp_local_def)

lemma load_jkp_local_writes:
  "load_jkp_local read_csv
     (write_cache to_csv (write_cache to_csv fs cache_dir ''fred_factors_monthly.csv'' a)
        cache_dir ''aqr_factors_monthly.csv'' b) dd = load_jkp_local read_csv fs dd"
  by (rule load_jkp_local_cong) (simp add: write_cache_other)

lemma returned_table_eq:
  "returned_table
     (fetch_all_external_factors read_csv to_csv merge start cache_dir data_dir fs fred_net aqr_parts) =
   (case with_fallback read_csv ''FRED'' (cache_file fs cache_dir ''fred_factors_monthly.csv'')
           (fetch_fred_factors start fred_net) of
      Inl e \<Rightarrow> Inl e
    | Inr (fred, w1) \<Rightarrow>
        (case with_fallback read_csv ''AQR'' (cache_file fs cache_dir ''aqr_factors_monthly.csv'')
                (aqr_nonempty (fst (fetch_aqr_factors merge start aqr_parts))) of
           Inl e \<Rightarrow> Inl e
         | Inr (aqr, w2) \<Rightarrow>
             Inr (merge_sources merge start fred aqr (jkp_table read_csv fs data_dir))))"
proof -
  obtain aqr_res printed where a: "fetch_aqr_factors merge start aqr_parts = (aqr_res, printed)"
    by (cases "fetch_aqr_factors merge start aqr_parts")
  have c: "cache_file (write_cache to_csv fs cache_dir ''fred_factors_monthly.csv''
              (fetch_fred_factors start fred_net)) cache_dir ''aqr_factors_monthly.csv'' =
           cache_file fs cache_dir ''aqr_factors_monthly.csv''"
    by (rule cache_file_write_other) simp
  show ?thesis
    unfolding fetch_all_external_factors_def returned_table_def Let_def a c
    by (auto simp: load_jkp_local_writes jkp_table_def split: sum.splits option.splits prod.splits)
qed

lemma full_result:
  assumes "with_fallback read_csv ''FRED'' (cache_file fs cache_dir ''fred_factors_monthly.csv'')
             (fetch_fred_factors start fred_net) = Inr (fred, w1)"
    and "with_fallback read_csv ''AQR'' (cache_file fs cache_dir ''aqr_factors_monthly.csv'')
             (aqr_nonempty (fst (fetch_aqr_factors merge start aqr_parts))) = Inr (aqr, w2)"
  shows "\<exists>fs'.
     fetch_all_external_factors read_csv to_csv merge start cache_dir data_dir fs fred_net aqr_parts =
       Inr (merge_sources merge start fred aqr (jkp_table read_csv fs data_dir), fs',
            snd (fetch_aqr_factors merge start aqr_parts) @ w1 @ w2 @
            jkp_warnings read_csv fs data_dir)"
proof -
  obtain aqr_res printed where a: "fetch_aqr_factors merge start aqr_parts = (aqr_res, printed)"
    by (cases "fetch_aqr_factors merge start aqr_parts")
  have c: "cache_file (write_cache to_csv fs cache_dir ''fred_factors_monthly.csv''
              (fetch_fred_factors start fred_net)) cache_dir ''aqr_factors_monthly.csv'' =
           cache_file fs cache_dir ''aqr_factors_monthly.csv''"
    by (rule cache_file_write_other) simp
  from assms(2) have a2: "with_fallback read_csv ''AQR''
      (cache_file fs cache_dir ''aqr_factors_monthly.csv'') (aqr_nonempty aqr_res) = Inr (aqr, w2)"
    by (simp add: a)
  show ?thesis
    unfolding fetch_all_external_factors_def Let_def a c
    by (auto simp: assms(1) a2 load_jkp_local_writes jkp_table_def jkp_warnings_def
        split: sum.splits option.splits prod.splits)
qed

lemma from_start_dated: "r \<in> set (from_start start rs) \<Longrightarrow> dated r"
proof -
  assume "r \<in> set (from_start start rs)"
  then have "case fst r of None \<Rightarrow> False | Some d \<Rightarrow> start \<le> d"
    by (simp add: from_start_def)
  then have "fst r \<noteq> None" by (cases "fst r") simp_all
  then show ?thesis unfolding dated_def .
qed

lemma from_start_undated: "from_start start (filter (\<lambda>r. \<not> dated r) rs) = []"
proof -
  have "\<And>r :: date option \<times> 'a. \<not> dated r \<Longrightarrow>
      \<not> (case fst r of None \<Rightarrow> False | Some d \<Rightarrow> start \<le> d)"
  proof -
    fix r :: "date option \<times> 'a"
    assume "\<not> dated r"
    then have "fst r = None" unfolding dated_def by blast
    then show "\<not> (case fst r of None \<Rightarrow> False | Some d \<Rightarrow> start \<le> d)" by simp
  qed
  then show ?thesis
    unfolding from_start_def by (induction rs) simp_all
qed

lemma from_start_sorted:
  "sorted (map date_key rs) \<Longrightarrow> sorted (map date_key (from_start start rs))"
  unfolding from_start_def by (rule sorted_filter)

lemma date_sorted_fred: "date_sorted (from_start start (sort_values_date rs))"
proof -
  have "from_start start (sort_values_date rs) =
        from_start start (sort_key date_key (filter dated rs))"
    using from_start_undated [of start rs]
    by (simp add: sort_values_date_def from_start_def)
  moreover have "sorted (map date_key (from_start start (sort_key date_key (filter dated rs))))"
    by (rule from_start_sorted) simp
  ultimately show ?thesis
    by (simp add: date_sorted_def from_start_dated)
qed

lemma sort_values_all_dated:
  "\<forall>r\<in>set rs. dated r \<Longrightarrow> sort_values_date rs = sort_key date_key rs"
  by (simp add: sort_values_date_def filter_id_conv)

lemma date_sorted_aqr: "date_sorted (sort_values_date (from_start start rs))"
proof -
  have d: "\<forall>r\<in>set (from_start start rs). dated r" by (simp add: from_start_dated)
  show ?thesis
    unfolding sort_values_all_dated [OF d] date_sorted_def
    using d by simp
qed

lemma date_sorted_fixed: "date_sorted rs \<Longrightarrow> sort_values_date (filter dated rs) = rs"
proof -
  assume a: "date_sorted rs"
  then have d: "\<forall>r\<in>set rs. dated r" and s: "sorted (map date_key rs)"
    by (simp_all add: date_sorted_def)
  from d have f: "filter dated rs = rs" by (simp add: filter_id_conv)
  from s have "sort_key date_key rs = rs" by (rule sort_key_id_if_sorted)
  then show ?thesis by (simp add: f sort_values_all_dated [OF d])
qed

lemma load_csv_fallback_fixed:
  assumes "read_csv csv = t" "has_date t" "date_sorted (table_rows t)"
  shows "load_csv_fallback read_csv csv = Inr t"
  using assms by (simp add: load_csv_fallback_def Let_def date_sorted_fixed)

lemma fetch_fred_factors_shape:
  "fetch_fred_factors start net = Inr t \<Longrightarrow> has_date t \<and> date_sorted (table_rows t)"
  by (auto simp: fetch_fred_factors_def date_sorted_fred split: sum.splits if_splits)

lemma fetch_aqr_factors_shape:
  assumes "aqr_nonempty (fst (fetch_aqr_factors merge start parts)) = Inr t"
  shows "has_date t \<and> date_sorted (table_rows t)"
proof -
  obtain merged errors where m: "aqr_merge merge (empty_table, []) parts = (merged, errors)"
    by (cases "aqr_merge merge (empty_table, []) parts")
  from assms have ne: "\<not> is_empty t" and f: "fst (fetch_aqr_factors merge start parts) = Inr t"
    by (auto simp: aqr_nonempty_def split: sum.splits if_splits)
  have e: "is_empty empty_date_table" by (simp add: is_empty_def empty_date_table_def)
  from f ne e have "t = merged\<lparr>table_rows := sort_values_date (from_start start (table_rows merged))\<rparr>"
    and "has_date merged"
    by (auto simp: fetch_aqr_factors_def m Let_def split: if_splits)
  then show ?thesis by (simp add: date_sorted_aqr)
qed

lemma fallback_like_fetch:
  assumes "has_date t" "date_sorted (table_rows t)" "read_csv csv = t"
  shows "map_sum id fst (with_fallback read_csv source (Some csv) (Inl e)) =
         map_sum id fst (with_fallback read_csv source cache (Inr t))"
  using load_csv_fallback_fixed [of read_csv csv t] assms
  by (simp add: with_fallback_def)

lemma handler_raises:
  "(with_fallback read_csv ''FRED'' (cache_file fs cache_dir ''fred_factors_monthly.csv'')
      (fetch_fred_factors start fred_net) = Inl e' \<longrightarrow>
    fetch_all_external_factors read_csv to_csv merge start cache_dir data_dir fs fred_net aqr_parts = Inl e') \<and>
   (with_fallback read_csv ''FRED'' (cache_file fs cache_dir ''fred_factors_monthly.csv'')
      (fetch_fred_factors start fred_net) = Inr (fred, w1) \<and>
    with_fallback read_csv ''AQR'' (cache_file fs cache_dir ''aqr_factors_monthly.csv'')
      (aqr_nonempty (fst (fetch_aqr_factors merge start aqr_parts))) = Inl e' \<longrightarrow>
    fetch_all_external_factors read_csv to_csv merge start cache_dir data_dir fs fred_net aqr_parts = Inl e')"
proof -
  obtain aqr_res printed where a: "fetch_aqr_factors merge start aqr_parts = (aqr_res, printed)"
    by (cases "fetch_aqr_factors merge start aqr_parts")
  have c: "cache_file (write_cache to_csv fs cache_dir ''fred_factors_monthly.csv''
              (fetch_fred_factors start fred_net)) cache_dir ''aqr_factors_monthly.csv'' =
           cache_file fs cache_dir ''aqr_factors_monthly.csv''"
    by (rule cache_file_write_other) simp
  show ?thesis
    unfolding fetch_all_external_factors_def Let_def a c
    by (auto split: sum.splits option.splits prod.splits)
qed

text \<open>
  C6 (as amended). For each of the two online sources: when its fetch raises and the
  cache directory holds a cached CSV of the values \<open>t\<close> that a successful fetch returns,
  the function returns the same merged table as after that successful fetch; when its
  fetch raises and it has no cache, the source contributes the empty table and one
  warning, and the function returns normally provided the handler of the other source
  returns. An exception of \<open>_load_csv_fallback\<close> inside a handler (a cached file without
  a date column) is raised out of the function.
\<close>

theorem cache_fallback_matches_fetch:
  "(fetch_fred_factors start net = Inr t1 \<and> fetch_fred_factors start net' = Inl e1 \<and>
    cache_dir = Some d \<and> fs (d, ''fred_factors_monthly.csv'') = Some csv1 \<and> read_csv csv1 = t1 \<longrightarrow>
      returned_table (fetch_all_external_factors read_csv to_csv merge start cache_dir data_dir fs net' parts) =
      returned_table (fetch_all_external_factors read_csv to_csv merge start cache_dir data_dir fs net parts)) \<and>
   (aqr_nonempty (fst (fetch_aqr_factors merge start parts)) = Inr t2 \<and>
    aqr_nonempty (fst (fetch_aqr_factors merge start parts')) = Inl e2 \<and>
    cache_dir = Some d \<and> fs (d, ''aqr_factors_monthly.csv'') = Some csv2 \<and> read_csv csv2 = t2 \<longrightarrow>
      returned_table (fetch_all_external_factors read_csv to_csv merge start cache_dir data_dir fs net parts') =
      returned_table (fetch_all_external_factors read_csv to_csv merge start cache_dir data_dir fs net parts)) \<and>
   (fetch_fred_factors start net' = Inl e1 \<and>
    cache_file fs cache_dir ''fred_factors_monthly.csv'' = None \<and>
    with_fallback read_csv ''AQR'' (cache_file fs cache_dir ''aqr_factors_monthly.csv'')
      (aqr_nonempty (fst (fetch_aqr_factors merge start parts))) = Inr (aqr, w2) \<longrightarrow>
      (\<exists>fs'. fetch_all_external_factors read_csv to_csv merge start cache_dir data_dir fs net' parts =
         Inr (merge_sources merge start empty_date_table aqr (jkp_table read_csv fs data_dir), fs',
              snd (fetch_aqr_factors merge start parts) @ [OnlineFailedNoCache ''FRED'' e1] @ w2 @
              jkp_warnings read_csv fs data_dir))) \<and>
   (aqr_nonempty (fst (fetch_aqr_factors merge start parts')) = Inl e2 \<and>
    cache_file fs cache_dir ''aqr_factors_monthly.csv'' = None \<and>
    with_fallback read_csv ''FRED'' (cache_file fs cache_dir ''fred_factors_monthly.csv'')
      (fetch_fred_factors start net) = Inr (fred, w1) \<longrightarrow>
      (\<exists>fs'. fetch_all_external_factors read_csv to_csv merge start cache_dir data_dir fs net parts' =
         Inr (merge_sources merge start fred empty_date_table (jkp_table read_csv fs data_dir), fs',
              snd (fetch_aqr_factors merge start parts') @ w1 @ [OnlineFailedNoCache ''AQR'' e2] @
              jkp_warnings read_csv fs data_dir))) \<and>
   (with_fallback read_csv ''FRED'' (cache_file fs cache_dir ''fred_factors_monthly.csv'')
      (fetch_fred_factors start net) = Inr (fred, w1) \<and>
    with_fallback read_csv ''AQR'' (cache_file fs cache_dir ''aqr_factors_monthly.csv'')
      (aqr_nonempty (fst (fetch_aqr_factors merge start parts))) = Inl e3 \<longrightarrow>
      fetch_all_external_factors read_csv to_csv merge start cache_dir data_dir fs net parts = Inl e3) \<and>
   (with_fallback read_csv ''FRED'' (cache_file fs cache_dir ''fred_factors_monthly.csv'')
      (fetch_fred_factors start net) = Inl e3 \<longrightarrow>
      fetch_all_external_factors read_csv to_csv merge start cache_dir data_dir fs net parts = Inl e3)"
proof -
  have p1: "fetch_fred_factors start net = Inr t1 \<and> fetch_fred_factors start net' = Inl e1 \<and>
    cache_dir = Some d \<and> fs (d, ''fred_factors_monthly.csv'') = Some csv1 \<and> read_csv csv1 = t1 \<longrightarrow>
      returned_table (fetch_all_external_factors read_csv to_csv merge start cache_dir data_dir fs net' parts) =
      returned_table (fetch_all_external_factors read_csv to_csv merge start cache_dir data_dir fs net parts)"
  proof
    assume a: "fetch_fred_factors start net = Inr t1 \<and> fetch_fred_factors start net' = Inl e1 \<and>
      cache_dir = Some d \<and> fs (d, ''fred_factors_monthly.csv'') = Some csv1 \<and> read_csv csv1 = t1"
    then have ok: "fetch_fred_factors start net = Inr t1" and bad: "fetch_fred_factors start net' = Inl e1"
      and c: "cache_file fs cache_dir ''fred_factors_monthly.csv'' = Some csv1"
      and rd: "read_csv csv1 = t1"
      by (simp_all add: cache_file_def)
    from fetch_fred_factors_shape [OF ok] have sh: "has_date t1" "date_sorted (table_rows t1)"
      by simp_all
    have l: "load_csv_fallback read_csv csv1 = Inr t1"
      using load_csv_fallback_fixed [of read_csv csv1 t1] rd sh by simp
    have f: "with_fallback read_csv ''FRED'' (Some csv1) (Inl e1) =
               Inr (t1, [OnlineFailedLoadedCache ''FRED'' e1])"
      by (simp add: with_fallback_def l)
    have g: "with_fallback read_csv ''FRED'' (Some csv1) (Inr t1) = Inr (t1, [])"
      by (simp add: with_fallback_def)
    show "returned_table (fetch_all_external_factors read_csv to_csv merge start cache_dir data_dir fs net' parts) =
      returned_table (fetch_all_external_factors read_csv to_csv merge start cache_dir data_dir fs net parts)"
      unfolding returned_table_eq ok bad c f g by simp
  qed
  have p2: "aqr_nonempty (fst (fetch_aqr_factors merge start parts)) = Inr t2 \<and>
    aqr_nonempty (fst (fetch_aqr_factors merge start parts')) = Inl e2 \<and>
    cache_dir = Some d \<and> fs (d, ''aqr_factors_monthly.csv'') = Some csv2 \<and> read_csv csv2 = t2 \<longrightarrow>
      returned_table (fetch_all_external_factors read_csv to_csv merge start cache_dir data_dir fs net parts') =
      returned_table (fetch_all_external_factors read_csv to_csv merge start cache_dir data_dir fs net parts)"
  proof
    assume a: "aqr_nonempty (fst (fetch_aqr_factors merge start parts)) = Inr t2 \<and>
      aqr_nonempty (fst (fetch_aqr_factors merge start parts')) = Inl e2 \<and>
      cache_dir = Some d \<and> fs (d, ''aqr_factors_monthly.csv'') = Some csv2 \<and> read_csv csv2 = t2"
    then have ok: "aqr_nonempty (fst (fetch_aqr_factors merge start parts)) = Inr t2"
      and bad: "aqr_nonempty (fst (fetch_aqr_factors merge start parts')) = Inl e2"
      and c: "cache_file fs cache_dir ''aqr_factors_monthly.csv'' = Some csv2"
      and rd: "read_csv csv2 = t2"
      by (simp_all add: cache_file_def)
    from fetch_aqr_factors_shape [OF ok] have sh: "has_date t2" "date_sorted (table_rows t2)"
      by simp_all
    have l: "load_csv_fallback read_csv csv2 = Inr t2"
      using load_csv_fallback_fixed [of read_csv csv2 t2] rd sh by simp
    have f: "with_fallback read_csv ''AQR'' (Some csv2) (Inl e2) =
               Inr (t2, [OnlineFailedLoadedCache ''AQR'' e2])"
      by (simp add: with_fallback_def l)
    have g: "with_fallback read_csv ''AQR'' (Some csv2) (Inr t2) = Inr (t2, [])"
      by (simp add: with_fallback_def)
    show "returned_table (fetch_all_external_factors read_csv to_csv merge start cache_dir data_dir fs net parts') =
      returned_table (fetch_all_external_factors read_csv to_csv merge start cache_dir data_dir fs net parts)"
      unfolding returned_table_eq ok bad c f g by (simp split: sum.splits)
  qed
  have p3: "fetch_fred_factors start net' = Inl e1 \<and>
    cache_file fs cache_dir ''fred_factors_monthly.csv'' = None \<and>
    with_fallback read_csv ''AQR'' (cache_file fs cache_dir ''aqr_factors_monthly.csv'')
      (aqr_nonempty (fst (fetch_aqr_factors merge start parts))) = Inr (aqr, w2) \<longrightarrow>
      (\<exists>fs'. fetch_all_external_factors read_csv to_csv merge start cache_dir data_dir fs net' parts =
         Inr (merge_sources merge start empty_date_table aqr (jkp_table read_csv fs data_dir), fs',
              snd (fetch_aqr_factors merge start parts) @ [OnlineFailedNoCache ''FRED'' e1] @ w2 @
              jkp_warnings read_csv fs data_dir))"
  proof
    assume a: "fetch_fred_factors start net' = Inl e1 \<and>
      cache_file fs cache_dir ''fred_factors_monthly.csv'' = None \<and>
      with_fallback read_csv ''AQR'' (cache_file fs cache_dir ''aqr_factors_monthly.csv'')
        (aqr_nonempty (fst (fetch_aqr_factors merge start parts))) = Inr (aqr, w2)"
    then have f: "with_fallback read_csv ''FRED'' (cache_file fs cache_dir ''fred_factors_monthly.csv'')
        (fetch_fred_factors start net') = Inr (empty_date_table, [OnlineFailedNoCache ''FRED'' e1])"
      by (simp add: with_fallback_def)
    from a have g: "with_fallback read_csv ''AQR'' (cache_file fs cache_dir ''aqr_factors_monthly.csv'')
        (aqr_nonempty (fst (fetch_aqr_factors merge start parts))) = Inr (aqr, w2)" by simp
    from full_result [OF f g]
    show "\<exists>fs'. fetch_all_external_factors read_csv to_csv merge start cache_dir data_dir fs net' parts =
         Inr (merge_sources merge start empty_date_table aqr (jkp_table read_csv fs data_dir), fs',
              snd (fetch_aqr_factors merge start parts) @ [OnlineFailedNoCache ''FRED'' e1] @ w2 @
              jkp_warnings read_csv fs data_dir)" .
  qed
  have p4: "aqr_nonempty (fst (fetch_aqr_factors merge start parts')) = Inl e2 \<and>
    cache_file fs cache_dir ''aqr_factors_monthly.csv'' = None \<and>
    with_fallback read_csv ''FRED'' (cache_file fs cache_dir ''fred_factors_monthly.csv'')
      (fetch_fred_factors start net) = Inr (fred, w1) \<longrightarrow>
      (\<exists>fs'. fetch_all_external_factors read_csv to_csv merge start cache_dir data_dir fs net parts' =
         Inr (merge_sources merge start fred empty_date_table (jkp_table read_csv fs data_dir), fs',
              snd (fetch_aqr_factors merge start parts') @ w1 @ [OnlineFailedNoCache ''AQR'' e2] @
              jkp_warnings read_csv fs data_dir))"
  proof
    assume a: "aqr_nonempty (fst (fetch_aqr_factors merge start parts')) = Inl e2 \<and>
      cache_file fs cache_dir ''aqr_factors_monthly.csv'' = None \<and>
      with_fallback read_csv ''FRED'' (cache_file fs cache_dir ''fred_factors_monthly.csv'')
        (fetch_fred_factors start net) = Inr (fred, w1)"
    then have g: "with_fallback read_csv ''AQR'' (cache_file fs cache_dir ''aqr_factors_monthly.csv'')
        (aqr_nonempty (fst (fetch_aqr_factors merge start parts'))) =
          Inr (empty_date_table, [OnlineFailedNoCache ''AQR'' e2])"
      by (simp add: with_fallback_def)
    from a have f: "with_fallback read_csv ''FRED'' (cache_file fs cache_dir ''fred_factors_monthly.csv'')
        (fetch_fred_factors start net) = Inr (fred, w1)" by simp
    from full_result [OF f g]
    show "\<exists>fs'. fetch_all_external_factors read_csv to_csv merge start cache_dir data_dir fs net parts' =
         Inr (merge_sources merge start fred empty_date_table (jkp_table read_csv fs data_dir), fs',
              snd (fetch_aqr_factors merge start parts') @ w1 @ [OnlineFailedNoCache ''AQR'' e2] @
              jkp_warnings read_csv fs data_dir)" .
  qed
  note h = handler_raises [of read_csv fs cache_dir start net e3 to_csv merge data_dir parts fred w1]
  from p1 p2 p3 p4 h [THEN conjunct2] h [THEN conjunct1] show ?thesis by (intro conjI)
qed

lemmas table_eval = fetch_fred_factors_def fetch_aqr_factors_def aqr_nonempty_def is_empty_def
  empty_table_def empty_date_table_def jan_table_def sort_values_date_def from_start_def
  dated_def date_key_def with_fallback_def cache_file_def cached_files_def no_files_def
  load_csv_fallback_def Let_def

lemma jan_fred: "fetch_fred_factors (2020, 1, 1) (Inr jan_table) = Inr jan_table"
  by (simp add: table_eval)

lemma jan_aqr:
  "aqr_nonempty (fst (fetch_aqr_factors first_table (2020, 1, 1) [(''tsmom'', Inr jan_table)])) =
     Inr jan_table"
  by (simp add: table_eval)

lemma failed_aqr:
  "aqr_nonempty (fst (fetch_aqr_factors first_table (2020, 1, 1)
      [(''tsmom'', Inl (RuntimeError ''timeout''))])) =
     Inl (RuntimeError ''AQR returned empty data'')"
  by (simp add: table_eval)

lemma failed_aqr_handler:
  "with_fallback id ''AQR'' (cache_file no_files (Some ''out'') ''aqr_factors_monthly.csv'')
      (aqr_nonempty (fst (fetch_aqr_factors first_table (2020, 1, 1)
         [(''tsmom'', Inl (RuntimeError ''timeout''))]))) =
     Inr (empty_date_table, [OnlineFailedNoCache ''AQR'' (RuntimeError ''AQR returned empty data'')])"
  unfolding failed_aqr by (simp add: with_fallback_def cache_file_def no_files_def)

lemma jan_fred_handler:
  "with_fallback id ''FRED'' (cache_file no_files (Some ''out'') ''fred_factors_monthly.csv'')
      (fetch_fred_factors (2020, 1, 1) (Inr jan_table)) = Inr (jan_table, [])"
  unfolding jan_fred by (simp add: with_fallback_def)

text \<open>
  Runs with a cached table, with no file at all, and with a cached file that has no date
  column.
\<close>

theorem cache_fallback_matches_fetch_witness:
  "fetch_fred_factors (2020, 1, 1) (Inr jan_table) = Inr jan_table \<and>
   fetch_fred_factors (2020, 1, 1) (Inl (RuntimeError ''timeout'')) = Inl (RuntimeError ''timeout'') \<and>
   cached_files (''out'', ''fred_factors_monthly.csv'') = Some jan_table \<and>
   cached_files (''out'', ''aqr_factors_monthly.csv'') = Some jan_table \<and>
   id jan_table = jan_table \<and>
   returned_table (fetch_all_external_factors id id first_table (2020, 1, 1) (Some ''out'') None
       cached_files (Inl (RuntimeError ''timeout'')) [(''tsmom'', Inr jan_table)]) =
   returned_table (fetch_all_external_factors id id first_table (2020, 1, 1) (Some ''out'') None
       cached_files (Inr jan_table) [(''tsmom'', Inr jan_table)]) \<and>
   returned_table (fetch_all_external_factors id id first_table (2020, 1, 1) (Some ''out'') None
       cached_files (Inr jan_table) [(''tsmom'', Inl (RuntimeError ''timeout''))]) =
   returned_table (fetch_all_external_factors id id first_table (2020, 1, 1) (Some ''out'') None
       cached_files (Inr jan_table) [(''tsmom'', Inr jan_table)]) \<and>
   cache_file no_files (Some ''out'') ''fred_factors_monthly.csv'' = None \<and>
   cache_file no_files (Some ''out'') ''aqr_factors_monthly.csv'' = None \<and>
   (\<exists>fs'. fetch_all_external_factors id id first_table (2020, 1, 1) (Some ''out'') None no_files
        (Inl (RuntimeError ''timeout'')) [(''tsmom'', Inl (RuntimeError ''timeout''))] =
      Inr (merge_sources first_table (2020, 1, 1) empty_date_table empty_date_table
             (jkp_table id no_files None), fs',
           snd (fetch_aqr_factors first_table (2020, 1, 1) [(''tsmom'', Inl (RuntimeError ''timeout''))]) @
           [OnlineFailedNoCache ''FRED'' (RuntimeError ''timeout'')] @
           [OnlineFailedNoCache ''AQR'' (RuntimeError ''AQR returned empty data'')] @
           jkp_warnings id no_files None)) \<and>
   (\<exists>fs'. fetch_all_external_factors id id first_table (2020, 1, 1) (Some ''out'') None no_files
        (Inr jan_table) [(''tsmom'', Inl (RuntimeError ''timeout''))] =
      Inr (merge_sources first_table (2020, 1, 1) jan_table empty_date_table
             (jkp_table id no_files None), fs',
           snd (fetch_aqr_factors first_table (2020, 1, 1) [(''tsmom'', Inl (RuntimeError ''timeout''))]) @
           [] @ [OnlineFailedNoCache ''AQR'' (RuntimeError ''AQR returned empty data'')] @
           jkp_warnings id no_files None)) \<and>
   with_fallback id ''FRED'' (cache_file corrupt_files (Some ''out'') ''fred_factors_monthly.csv'')
      (fetch_fred_factors (2020, 1, 1) (Inr jan_table)) = Inr (jan_table, []) \<and>
   with_fallback id ''AQR'' (cache_file corrupt_files (Some ''out'') ''aqr_factors_monthly.csv'')
      (aqr_nonempty (fst (fetch_aqr_factors first_table (2020, 1, 1)
         [(''tsmom'', Inl (RuntimeError ''timeout''))]))) = Inl (ValueError ''CSV is missing date column'') \<and>
   fetch_all_external_factors id id first_table (2020, 1, 1) (Some ''out'') None corrupt_files
       (Inr jan_table) [(''tsmom'', Inl (RuntimeError ''timeout''))] =
     Inl (ValueError ''CSV is missing date column'') \<and>
   with_fallback id ''FRED'' (cache_file corrupt_fred_files (Some ''out'') ''fred_factors_monthly.csv'')
      (fetch_fred_factors (2020, 1, 1) (Inl (RuntimeError ''timeout''))) =
     Inl (ValueError ''CSV is missing date column'') \<and>
   fetch_all_external_factors id id first_table (2020, 1, 1) (Some ''out'') None corrupt_fred_files
       (Inl (RuntimeError ''timeout'')) [(''tsmom'', Inl (RuntimeError ''timeout''))] =
     Inl (ValueError ''CSV is missing date column'')"
proof -
  have bad: "fetch_fred_factors (2020, 1, 1) (Inl (RuntimeError ''timeout'')) = Inl (RuntimeError ''timeout'')"
    by (simp add: fetch_fred_factors_def)
  have c1: "cached_files (''out'', ''fred_factors_monthly.csv'') = Some jan_table"
    by (simp add: cached_files_def)
  have c2: "cached_files (''out'', ''aqr_factors_monthly.csv'') = Some jan_table"
    by (simp add: cached_files_def)
  have n1: "cache_file no_files (Some ''out'') ''fred_factors_monthly.csv'' = None"
    by (simp add: cache_file_def no_files_def)
  have n2: "cache_file no_files (Some ''out'') ''aqr_factors_monthly.csv'' = None"
    by (simp add: cache_file_def no_files_def)
  have rd: "id jan_table = jan_table" by simp
  note inst1 = cache_fallback_matches_fetch [of "(2020, 1, 1)" "Inr jan_table" jan_table
      "Inl (RuntimeError ''timeout'')" "RuntimeError ''timeout''" "Some ''out''" "''out''" cached_files
      jan_table id id first_table None "[(''tsmom'', Inr jan_table)]" jan_table
      "[(''tsmom'', Inl (RuntimeError ''timeout''))]" "RuntimeError ''AQR returned empty data''" jan_table]
  from inst1 [THEN conjunct1] jan_fred bad c1 rd
  have r1: "returned_table (fetch_all_external_factors id id first_table (2020, 1, 1) (Some ''out'') None
       cached_files (Inl (RuntimeError ''timeout'')) [(''tsmom'', Inr jan_table)]) =
     returned_table (fetch_all_external_factors id id first_table (2020, 1, 1) (Some ''out'') None
       cached_files (Inr jan_table) [(''tsmom'', Inr jan_table)])"
    by blast
  from inst1 [THEN conjunct2, THEN conjunct1] jan_aqr failed_aqr c2 rd
  have r2: "returned_table (fetch_all_external_factors id id first_table (2020, 1, 1) (Some ''out'') None
       cached_files (Inr jan_table) [(''tsmom'', Inl (RuntimeError ''timeout''))]) =
     returned_table (fetch_all_external_factors id id first_table (2020, 1, 1) (Some ''out'') None
       cached_files (Inr jan_table) [(''tsmom'', Inr jan_table)])"
    by blast
  note inst2 = cache_fallback_matches_fetch [of "(2020, 1, 1)" "Inr jan_table" _
      "Inl (RuntimeError ''timeout'')" "RuntimeError ''timeout''" "Some ''out''" _ no_files
      _ id id first_table None "[(''tsmom'', Inl (RuntimeError ''timeout''))]" _
      "[(''tsmom'', Inl (RuntimeError ''timeout''))]" "RuntimeError ''AQR returned empty data''" _
      empty_date_table "[OnlineFailedNoCache ''AQR'' (RuntimeError ''AQR returned empty data'')]"
      jan_table "[]"]
  from inst2 [THEN conjunct2, THEN conjunct2, THEN conjunct1] bad n1 failed_aqr_handler
  have r3: "\<exists>fs'. fetch_all_external_factors id id first_table (2020, 1, 1) (Some ''out'') None no_files
        (Inl (RuntimeError ''timeout'')) [(''tsmom'', Inl (RuntimeError ''timeout''))] =
      Inr (merge_sources first_table (2020, 1, 1) empty_date_table empty_date_table
             (jkp_table id no_files None), fs',
           snd (fetch_aqr_factors first_table (2020, 1, 1) [(''tsmom'', Inl (RuntimeError ''timeout''))]) @
           [OnlineFailedNoCache ''FRED'' (RuntimeError ''timeout'')] @
           [OnlineFailedNoCache ''AQR'' (RuntimeError ''AQR returned empty data'')] @
           jkp_warnings id no_files None)"
    by blast
  from inst2 [THEN conjunct2, THEN conjunct2, THEN conjunct2] failed_aqr n2 jan_fred_handler
  have r4: "\<exists>fs'. fetch_all_external_factors id id first_table (2020, 1, 1) (Some ''out'') None no_files
        (Inr jan_table) [(''tsmom'', Inl (RuntimeError ''timeout''))] =
      Inr (merge_sources first_table (2020, 1, 1) jan_table empty_date_table
             (jkp_table id no_files None), fs',
           snd (fetch_aqr_factors first_table (2020, 1, 1) [(''tsmom'', Inl (RuntimeError ''timeout''))]) @
           [] @ [OnlineFailedNoCache ''AQR'' (RuntimeError ''AQR returned empty data'')] @
           jkp_warnings id no_files None)"
    by blast
  have h1: "with_fallback id ''FRED'' (cache_file corrupt_files (Some ''out'') ''fred_factors_monthly.csv'')
      (fetch_fred_factors (2020, 1, 1) (Inr jan_table)) = Inr (jan_table, [])"
    unfolding jan_fred by (simp add: with_fallback_def)
  have h2: "with_fallback id ''AQR'' (cache_file corrupt_files (Some ''out'') ''aqr_factors_monthly.csv'')
      (aqr_nonempty (fst (fetch_aqr_factors first_table (2020, 1, 1)
         [(''tsmom'', Inl (RuntimeError ''timeout''))]))) = Inl (ValueError ''CSV is missing date column'')"
    unfolding failed_aqr
    by (simp add: with_fallback_def cache_file_def corrupt_files_def load_csv_fallback_def empty_table_def)
  have h3: "with_fallback id ''FRED'' (cache_file corrupt_fred_files (Some ''out'') ''fred_factors_monthly.csv'')
      (fetch_fred_factors (2020, 1, 1) (Inl (RuntimeError ''timeout''))) =
     Inl (ValueError ''CSV is missing date column'')"
    unfolding bad
    by (simp add: with_fallback_def cache_file_def corrupt_fred_files_def load_csv_fallback_def
        empty_table_def)
  note inst3 = cache_fallback_matches_fetch [of "(2020, 1, 1)" "Inr jan_table" _ _ _ "Some ''out''" _
      corrupt_files _ id id first_table None "[(''tsmom'', Inl (RuntimeError ''timeout''))]" _ _ _ _
      _ _ jan_table "[]" "ValueError ''CSV is missing date column''"]
  from inst3 [THEN conjunct2, THEN conjunct2, THEN conjunct2, THEN conjunct2, THEN conjunct1] h1 h2
  have r5: "fetch_all_external_factors id id first_table (2020, 1, 1) (Some ''out'') None corrupt_files
       (Inr jan_table) [(''tsmom'', Inl (RuntimeError ''timeout''))] =
     Inl (ValueError ''CSV is missing date column'')"
    by blast
  note inst4 = cache_fallback_matches_fetch [of "(2020, 1, 1)" "Inl (RuntimeError ''timeout'')" _ _ _
      "Some ''out''" _ corrupt_fred_files _ id id first_table None
      "[(''tsmom'', Inl (RuntimeError ''timeout''))]" _ _ _ _ _ _ _ _
      "ValueError ''CSV is missing date column''"]
  from inst4 [THEN conjunct2, THEN conjunct2, THEN conjunct2, THEN conjunct2, THEN conjunct2] h3
  have r6: "fetch_all_external_factors id id first_table (2020, 1, 1) (Some ''out'') None
       corrupt_fred_files (Inl (RuntimeError ''timeout'')) [(''tsmom'', Inl (RuntimeError ''timeout''))] =
     Inl (ValueError ''CSV is missing date column'')"
    by blast
  from jan_fred bad c1 c2 rd r1 r2 n1 n2 r3 r4 h1 h2 r5 h3 r6 show ?thesis by (intro conjI)
qed

text \<open>
  C6 as stated fails where it says that the function still returns normally: the FRED
  fetch raises and FRED has no cache, the AQR downloads fail too and the AQR cache file
  has no date column; the function raises the \<open>ValueError\<close> of \<open>_load_csv_fallback\<close>.
\<close>

theorem cache_fallback_raises_counterexample:
  "fetch_fred_factors (2020, 1, 1) (Inl (RuntimeError ''timeout'')) = Inl (RuntimeError ''timeout'') \<and>
   cache_file corrupt_files (Some ''out'') ''fred_factors_monthly.csv'' = None \<and>
   fetch_all_external_factors id id first_table (2020, 1, 1) (Some ''out'') None corrupt_files
       (Inl (RuntimeError ''timeout'')) [(''tsmom'', Inl (RuntimeError ''timeout''))] =
     Inl (ValueError ''CSV is missing date column'')"
  by (simp add: fetch_all_external_factors_def table_eval corrupt_files_def aqr_merge.simps
      write_cache_def)

end
